(* ===== verification/Chase_Prelude.thy ===== *)
theory Chase_Prelude
  imports
    Main
    "HOL-Library.Word"
    "HOL-Library.Multiset"
    "HOL-Library.AList"
    "HOL-Library.Monad_Syntax"
    "HOL-Library.Product_Lexorder"
begin

text \<open>
  Shared vocabulary of the development.  Machine integers of the Rust sources are fixed-width
  words; \<open>usize\<close> values that are only lengths or indices of in-memory vectors are naturals.  The
  integer methods of the Rust standard library that the sources call (\<open>saturating_add\<close>,
  \<open>checked_sub\<close>, ...) are defined once here with their characterisation through \<^const>\<open>unat\<close>.
  A panic (an \<open>unwrap\<close> of \<open>None\<close>, an \<open>expect\<close>) is the value \<^const>\<open>None\<close>.  Hash maps and
  ordered maps that the code iterates are association lists; generic lemmas about them, about
  multisets of lists and about chunking close the theory.
\<close>

section \<open>Types\<close>

type_synonym u8 = "8 word"
type_synonym u32 = "32 word"
type_synonym u64 = "64 word"
type_synonym u256 = "256 word"
type_synonym h160 = "160 word"
type_synonym h256 = "256 word"
type_synonym ('k, 'v) hmap = "('k \<times> 'v) list"

named_theorems rust_arith "integer methods of the Rust standard library through unat"
named_theorems heap_simps "reading the transaction store after an update"
named_theorems cache_simps "lookup after update in the cache structures"

section \<open>Integer methods of the Rust standard library\<close>

definition checked_add :: "'a::len word \<Rightarrow> 'a word \<Rightarrow> 'a word option" where
  "checked_add a b = (if unat a + unat b < 2 ^ LENGTH('a) then Some (a + b) else None)"

definition checked_sub :: "'a::len word \<Rightarrow> 'a word \<Rightarrow> 'a word option" where
  "checked_sub a b = (if b \<le> a then Some (a - b) else None)"

definition checked_mul :: "'a::len word \<Rightarrow> 'a word \<Rightarrow> 'a word option" where
  "checked_mul a b = (if unat a * unat b < 2 ^ LENGTH('a) then Some (a * b) else None)"

definition saturating_add :: "'a::len word \<Rightarrow> 'a word \<Rightarrow> 'a word" where
  "saturating_add a b = (case checked_add a b of Some c \<Rightarrow> c | None \<Rightarrow> - 1)"

definition saturating_sub :: "'a::len word \<Rightarrow> 'a word \<Rightarrow> 'a word" where
  "saturating_sub a b = (case checked_sub a b of Some c \<Rightarrow> c | None \<Rightarrow> 0)"

definition saturating_mul :: "'a::len word \<Rightarrow> 'a word \<Rightarrow> 'a word" where
  "saturating_mul a b = (case checked_mul a b of Some c \<Rightarrow> c | None \<Rightarrow> - 1)"

text \<open>Insertion into a hash set of keys kept as a list without repetitions, and \<open>extend\<close>.\<close>

definition set_insert :: "'a \<Rightarrow> 'a list \<Rightarrow> 'a list" where
  "set_insert x xs = (if x \<in> set xs then xs else xs @ [x])"

definition set_extend :: "'a list \<Rightarrow> 'a list \<Rightarrow> 'a list" where
  "set_extend xs ys = fold set_insert ys xs"

text \<open>\<open>chunks(k)\<close> of a slice: consecutive pieces of length \<open>k\<close>, the last one possibly shorter.\<close>

function chunks :: "nat \<Rightarrow> 'a list \<Rightarrow> 'a list list" where
  "chunks k xs = (if xs = [] \<or> k = 0 then [] else take k xs # chunks k (drop k xs))"
  by pat_completeness auto
termination by (relation "measure (\<lambda>(k, xs). length xs)") auto

declare chunks.simps [simp del]

section \<open>Generic lemmas\<close>

text \<open>Code equations that compare integers instead of naturals.\<close>

lemma checked_add_code [code]:
  "checked_add a b = (if uint a + uint b < 2 ^ LENGTH('a) then Some (a + b :: 'a::len word) else None)"
  using of_nat_less_iff [of "unat a + unat b" "2 ^ LENGTH('a)", where 'a = int]
  by (simp add: checked_add_def)

lemma checked_mul_code [code]:
  "checked_mul a b = (if uint a * uint b < 2 ^ LENGTH('a) then Some (a * b :: 'a::len word) else None)"
  using of_nat_less_iff [of "unat a * unat b" "2 ^ LENGTH('a)", where 'a = int]
  by (simp add: checked_mul_def)

lemma unat_add_exact: "unat (a::'a::len word) + unat b < 2 ^ LENGTH('a) \<Longrightarrow> unat (a + b) = unat a + unat b"
  by (simp add: unat_add_lem)

lemma unat_mult_exact: "unat (a::'a::len word) * unat b < 2 ^ LENGTH('a) \<Longrightarrow> unat (a * b) = unat a * unat b"
  by (simp add: unat_mult_lem)

lemma unat_minus_one_word: "unat (- 1 :: 'a::len word) = 2 ^ LENGTH('a) - 1"
  by (simp add: unsigned_minus_1_eq_mask mask_eq_exp_minus_1)

lemma unat_saturating_add [rust_arith]:
  "unat (saturating_add a (b::'a::len word)) = min (unat a + unat b) (2 ^ LENGTH('a) - 1)"
  by (auto simp: saturating_add_def checked_add_def unat_add_exact unat_minus_one_word min_def)

lemma unat_saturating_sub [rust_arith]:
  "unat (saturating_sub a (b::'a::len word)) = unat a - unat b"
  by (auto simp: saturating_sub_def checked_sub_def unat_sub word_le_nat_alt)

lemma unat_saturating_mul [rust_arith]:
  "unat (saturating_mul a (b::'a::len word)) = min (unat a * unat b) (2 ^ LENGTH('a) - 1)"
  using unat_mult_exact [of a b]
  by (cases "unat a * unat b < 2 ^ LENGTH('a)")
    (simp_all add: saturating_mul_def checked_mul_def unat_minus_one_word)

lemma set_set_insert [simp]: "set (set_insert x xs) = insert x (set xs)"
  by (auto simp: set_insert_def)

lemma distinct_set_insert [simp]: "distinct (set_insert x xs) = distinct xs"
  by (auto simp: set_insert_def)

lemma mset_set_insert_fresh: "x \<notin> set xs \<Longrightarrow> mset (set_insert x xs) = add_mset x (mset xs)"
  by (simp add: set_insert_def)

lemma set_set_extend [simp]: "set (set_extend xs ys) = set xs \<union> set ys"
  unfolding set_extend_def by (induction ys arbitrary: xs) auto

lemma distinct_set_extend [simp]: "distinct (set_extend xs ys) = distinct xs"
  unfolding set_extend_def by (induction ys arbitrary: xs) auto

lemma mset_set_extend_disjoint:
  "distinct ys \<Longrightarrow> set xs \<inter> set ys = {} \<Longrightarrow> mset (set_extend xs ys) = mset xs + mset ys"
  unfolding set_extend_def
  by (induction ys arbitrary: xs) (auto simp: mset_set_insert_fresh)

lemma chunks_Nil [simp]: "chunks k [] = []"
  by (simp add: chunks.simps)

lemma concat_chunks: "0 < k \<Longrightarrow> concat (chunks k xs) = xs"
proof (induction k xs rule: chunks.induct)
  case (1 k xs)
  then show ?case by (cases "xs = []") (simp_all add: chunks.simps [of k xs])
qed

lemma chunks_eq_Nil_iff: "0 < k \<Longrightarrow> chunks k xs = [] \<longleftrightarrow> xs = []"
  by (subst chunks.simps) simp

lemma length_chunks_le: "0 < k \<Longrightarrow> c \<in> set (chunks k xs) \<Longrightarrow> length c \<le> k"
  by (induction k xs rule: chunks.induct) (subst (asm) (2) chunks.simps, auto split: if_splits)

lemma map_of_update_conv [simp]: "map_of (AList.update k v xs) k' = (if k' = k then Some v else map_of xs k')"
  by (simp add: update_conv')

lemma partition_mset:
  "mset (filter P xs) + mset (filter (\<lambda>x. \<not> P x) xs) = mset xs"
  by (induction xs) auto

end
