(* ===== verification/Chase_Types.thy ===== *)
theory Chase_Types
  imports Chase_Prelude
begin

text \<open>
  The data that the components exchange: transactions and batches
  (\<open>crates/sslab-execution/evm/src/types.rs\<close>), account changes
  (\<open>crates/chase-evm/src/backend/mod.rs\<close>), read/write sets
  (\<open>crates/chase-evm/src/executor/stack/executor.rs\<close>) and the life cycle of a transaction in CHASE
  (\<open>crates/sslab-execution/chase/src/types.rs\<close>): simulated, aborted, re-executed, finalized.
  A \<open>TypedTransaction\<close> of the ethers library is the record of the fields that the sources read
  from it; each field the library returns as an \<open>Option\<close> is an option here, and the accessors that
  \<open>unwrap\<close> it return \<^const>\<open>None\<close> when the Rust code panics.
\<close>

section \<open>Account changes and logs\<close>

record Basic =
  balance :: u256
  nonce :: u256

datatype Apply =
    Modify (apply_address: h160) (apply_basic: Basic) (apply_code: "u8 list option")
      (apply_storage: "(h256, h256) hmap") (apply_reset_storage: bool)
  | Delete (apply_address: h160)

record Log =
  log_address :: h160
  log_topics :: "h256 list"
  log_data :: "u8 list"

section \<open>Ethereum transactions and batches\<close>

record TypedTransaction =
  tt_sighash :: h256
  tt_from :: "h160 option"
  tt_to :: "h160 option"
  tt_value :: "u256 option"
  tt_data :: "u8 list option"
  tt_gas :: "u256 option"
  tt_nonce :: "u256 option"
  tt_access_list :: "(h160 \<times> h256 list) list option"

type_synonym EthereumTransaction = TypedTransaction

definition tx_caller :: "EthereumTransaction \<Rightarrow> h160 option" where
  "tx_caller tx = tt_from tx"

definition tx_value :: "EthereumTransaction \<Rightarrow> u256 option" where
  "tx_value tx = tt_value tx"

definition gas_limit :: "EthereumTransaction \<Rightarrow> u64 option" where
  "gas_limit tx = do { g \<leftarrow> tt_gas tx;
     if unat g < 2 ^ 64 then Some (ucast g) else None }"

lemma gas_limit_code [code]:
  "gas_limit tx = do { g \<leftarrow> tt_gas tx; if uint g < 2 ^ 64 then Some (ucast g) else None }"
proof -
  have "unat g < 2 ^ 64 \<longleftrightarrow> uint g < 2 ^ 64" for g :: u256
    using of_nat_less_iff [of "unat g" "2 ^ 64", where 'a = int] by simp
  then show ?thesis by (simp only: gas_limit_def)
qed

definition tx_access_list :: "EthereumTransaction \<Rightarrow> (h160 \<times> h256 list) list" where
  "tx_access_list tx = (case tt_access_list tx of Some l \<Rightarrow> l | None \<Rightarrow> [])"

record IndexedEthereumTransaction =
  itx_tx :: EthereumTransaction
  itx_id :: u64

type_synonym BatchDigest = h256

record ExecutableEthereumBatch =
  batch_digest :: BatchDigest
  batch_data :: "EthereumTransaction list"

section \<open>Read/write sets\<close>

type_synonym state_map = "(h160, (h256, h256) hmap) hmap"

record RwSet =
  read_set :: state_map
  write_set :: state_map

definition RwSet_new :: RwSet where
  "RwSet_new = \<lparr>read_set = [], write_set = []\<rparr>"

definition record_key :: "h160 \<Rightarrow> h256 \<Rightarrow> h256 \<Rightarrow> state_map \<Rightarrow> state_map" where
  "record_key a k v m =
     AList.update a (AList.update k v (case map_of m a of Some s \<Rightarrow> s | None \<Rightarrow> [])) m"

definition record_read_key :: "h160 \<Rightarrow> h256 \<Rightarrow> h256 \<Rightarrow> RwSet \<Rightarrow> RwSet" where
  "record_read_key a k v rw = rw\<lparr>read_set := record_key a k v (read_set rw)\<rparr>"

definition record_write_key :: "h160 \<Rightarrow> h256 \<Rightarrow> h256 \<Rightarrow> RwSet \<Rightarrow> RwSet" where
  "record_write_key a k v rw = rw\<lparr>write_set := record_key a k v (write_set rw)\<rparr>"

text \<open>The slot keys of a state map; the contract address is dropped, as in the code.\<close>

definition state_keys :: "state_map \<Rightarrow> h256 set" where
  "state_keys m = set (concat (map (\<lambda>(_, s). map fst s) m))"

definition extract_read_set :: "RwSet \<Rightarrow> h256 set" where
  "extract_read_set rw = state_keys (read_set rw)"

definition extract_write_set :: "RwSet \<Rightarrow> h256 set" where
  "extract_write_set rw = state_keys (write_set rw)"

definition is_disjoint :: "h256 set \<Rightarrow> h256 set \<Rightarrow> bool" where
  "is_disjoint left right =
     ((card left \<le> card right \<and> left \<inter> right = {}) \<or>
      (card right < card left \<and> right \<inter> left = {}))"

section \<open>The life cycle of a transaction\<close>

record SimulatedTransaction =
  sim_tx_id :: u64
  sim_read_set :: "h256 set"
  sim_write_set :: "h256 set"
  sim_rw_set :: RwSet
  sim_effects :: "Apply list"
  sim_logs :: "Log list"
  sim_raw_tx :: IndexedEthereumTransaction

definition SimulatedTransaction_new ::
    "RwSet \<Rightarrow> Apply list \<Rightarrow> Log list \<Rightarrow> IndexedEthereumTransaction \<Rightarrow> SimulatedTransaction" where
  "SimulatedTransaction_new rw effects logs raw_tx =
     \<lparr>sim_tx_id = itx_id raw_tx, sim_read_set = extract_read_set rw,
      sim_write_set = extract_write_set rw, sim_rw_set = rw, sim_effects = effects,
      sim_logs = logs, sim_raw_tx = raw_tx\<rparr>"

definition sim_deconstruct ::
    "SimulatedTransaction \<Rightarrow> u64 \<times> RwSet \<times> Apply list \<times> Log list \<times> IndexedEthereumTransaction" where
  "sim_deconstruct s = (itx_id (sim_raw_tx s), sim_rw_set s, sim_effects s, sim_logs s, sim_raw_tx s)"

record AbortedTransaction =
  ab_raw_tx :: IndexedEthereumTransaction
  ab_prev_write_keys :: "h256 set"
  ab_prev_read_keys :: "h256 set"

definition AbortedTransaction_id :: "AbortedTransaction \<Rightarrow> u64" where
  "AbortedTransaction_id t = itx_id (ab_raw_tx t)"

record ReExecutedTransaction =
  re_tx :: IndexedEthereumTransaction
  re_effect :: "Apply list"
  re_log :: "Log list"
  re_rw_set :: RwSet

definition re_write_set :: "ReExecutedTransaction \<Rightarrow> h256 set" where
  "re_write_set t = extract_write_set (re_rw_set t)"

record FinalizedTransaction =
  fin_id :: u64
  fin_effect :: "Apply list"

definition Finalized_from_ReExecuted :: "ReExecutedTransaction \<Rightarrow> FinalizedTransaction" where
  "Finalized_from_ReExecuted t = \<lparr>fin_id = itx_id (re_tx t), fin_effect = re_effect t\<rparr>"

record ScheduledTransaction =
  st_seq :: nat
  st_tx_id :: u64
  st_effect :: "Apply list"
  st_log :: "Log list"

datatype Ordering = Less | Equal | Greater

definition ScheduledTransaction_cmp :: "ScheduledTransaction \<Rightarrow> ScheduledTransaction \<Rightarrow> Ordering" where
  "ScheduledTransaction_cmp a b =
     (if st_seq a > st_seq b then Greater
      else if st_seq a < st_seq b then Less
      else if st_tx_id a < st_tx_id b then Less
      else if st_tx_id a > st_tx_id b then Greater
      else Equal)"

definition ScheduledTransaction_eq :: "ScheduledTransaction \<Rightarrow> ScheduledTransaction \<Rightarrow> bool" where
  "ScheduledTransaction_eq a b = (st_tx_id a = st_tx_id b)"

definition Finalized_from_Scheduled :: "ScheduledTransaction \<Rightarrow> FinalizedTransaction" where
  "Finalized_from_Scheduled t = \<lparr>fin_id = st_tx_id t, fin_effect = st_effect t\<rparr>"

section \<open>Lemmas\<close>

lemma finite_state_keys [simp]: "finite (state_keys m)"
  by (simp add: state_keys_def)

lemma is_disjoint_iff [simp]: "is_disjoint a b \<longleftrightarrow> a \<inter> b = {}"
  by (auto simp: is_disjoint_def)

lemma state_keys_Nil [simp]: "state_keys [] = {}"
  by (simp add: state_keys_def)

lemma state_keys_Cons [simp]: "state_keys ((a, s) # m) = fst ` set s \<union> state_keys m"
  by (auto simp: state_keys_def)

lemma state_keys_update:
  "state_keys (AList.update a s' m) \<subseteq> fst ` set s' \<union> state_keys m"
  by (induction m) auto

lemma map_of_record_key:
  "map_of (record_key a k v m) a' =
     (if a' = a then Some (AList.update k v (case map_of m a of Some s \<Rightarrow> s | None \<Rightarrow> []))
      else map_of m a')"
  by (simp add: record_key_def)

end
