(* ===== verification/Conflict_Graph.thy ===== *)
theory Conflict_Graph
  imports Chase_Types
begin

text \<open>
  The address-based conflict graph
  (\<open>crates/sslab-execution/chase/src/address_based_conflict_graph.rs\<close>).  The Rust code shares one
  \<open>Arc<Transaction>\<close> between the transaction table, the abort list and all units, and mutates its
  sequence number and abort flag through locks.  The model keeps that aliasing explicit: a store
  maps a transaction id to the transaction, and the table, the abort list and the units hold ids.
  Ids are positions in the batch, so an id identifies one \<open>Arc\<close>.  The field \<open>wr_dependencies\<close> of
  a unit changes only before the unit is shared and is part of the unit's value.  Degrees are
  32-bit words with wrap-around (the release profile).  Sequence numbers are naturals: the code
  increases them by one per unit, so a 32-bit overflow needs more units than memory holds.
  The build features that change the code (\<open>last-committer-wins\<close>) are arguments.
\<close>

section \<open>Data\<close>

datatype UnitType = Read | Write

record Unit =
  unit_tx :: u64
  unit_type :: UnitType
  unit_address :: h256
  wr_dependencies :: u32
  co_located :: bool

record AbortInfo =
  ai_aborted :: bool
  prev_write_keys :: state_map
  prev_read_keys :: state_map

record Transaction =
  tx_id :: u64
  sequence :: nat
  abort_info :: AbortInfo
  write_units :: "Unit list"
  effects :: "Apply list"
  logs :: "Log list"
  raw_tx :: IndexedEthereumTransaction

type_synonym tx_store = "u64 \<Rightarrow> Transaction"

record ReadUnits =
  ru_units :: "Unit list"
  ru_max_seq :: nat

record WriteUnits =
  wu_units :: "Unit list"
  wu_max_seq :: nat
  wu_first_updater_flag :: bool

record Address =
  addr_address :: h256
  in_degree :: u32
  out_degree :: u32
  addr_read_units :: ReadUnits
  addr_write_units :: WriteUnits
  addr_first_updater_flag :: bool

record ACG =
  addresses :: "(h256, Address) hmap"
  tx_list :: "u64 list"
  aborted_txs :: "u64 list"
  store :: tx_store

section \<open>Transactions\<close>

definition AbortInfo_new :: "RwSet \<Rightarrow> AbortInfo" where
  "AbortInfo_new rw = \<lparr>ai_aborted = False, prev_write_keys = write_set rw, prev_read_keys = read_set rw\<rparr>"

definition ai_write_keys :: "AbortInfo \<Rightarrow> h256 set" where
  "ai_write_keys ai = state_keys (prev_write_keys ai)"

definition ai_read_keys :: "AbortInfo \<Rightarrow> h256 set" where
  "ai_read_keys ai = state_keys (prev_read_keys ai)"

definition Transaction_from :: "SimulatedTransaction \<Rightarrow> Transaction \<times> RwSet" where
  "Transaction_from s =
     (let (i, rw, effs, lgs, raw) = sim_deconstruct s
      in (\<lparr>tx_id = i, sequence = 0, abort_info = AbortInfo_new rw, write_units = [],
           effects = effs, logs = lgs, raw_tx = raw\<rparr>, rw))"

definition tx_init :: "Transaction \<Rightarrow> Transaction" where
  "tx_init t = t\<lparr>sequence := 0, abort_info := (abort_info t)\<lparr>ai_aborted := False\<rparr>\<rparr>"

definition to_finalized :: "Transaction \<Rightarrow> FinalizedTransaction" where
  "to_finalized t = \<lparr>fin_id = tx_id t, fin_effect = effects t\<rparr>"

definition to_aborted :: "Transaction \<Rightarrow> AbortedTransaction" where
  "to_aborted t =
     \<lparr>ab_raw_tx = raw_tx t, ab_prev_write_keys = ai_write_keys (abort_info t),
      ab_prev_read_keys = ai_read_keys (abort_info t)\<rparr>"

definition set_write_units :: "Unit list \<Rightarrow> Transaction \<Rightarrow> Transaction" where
  "set_write_units us t = t\<lparr>write_units := write_units t @ us\<rparr>"

definition clear_write_units :: "Transaction \<Rightarrow> Transaction" where
  "clear_write_units t = t\<lparr>write_units := []\<rparr>"

definition abort :: "Transaction \<Rightarrow> Transaction" where
  "abort t = t\<lparr>abort_info := (abort_info t)\<lparr>ai_aborted := True\<rparr>\<rparr>"

definition aborted :: "Transaction \<Rightarrow> bool" where
  "aborted t = ai_aborted (abort_info t)"

definition set_sequence :: "nat \<Rightarrow> Transaction \<Rightarrow> Transaction" where
  "set_sequence s t = t\<lparr>sequence := s\<rparr>"

definition is_sorted :: "Transaction \<Rightarrow> bool" where
  "is_sorted t = (sequence t \<noteq> 0 \<or> aborted t)"

definition is_write_only :: "Transaction \<Rightarrow> bool" where
  "is_write_only t = list_all (\<lambda>u. wr_dependencies u = 0 \<and> \<not> co_located u) (write_units t)"

definition reorderable :: "Transaction \<Rightarrow> bool" where
  "reorderable t = (is_write_only t \<and> length (write_units t) > 1)"

definition tx_deconstruct :: "Transaction \<Rightarrow> u64 \<times> nat \<times> Apply list \<times> Log list" where
  "tx_deconstruct t = (tx_id t, sequence t, effects t, logs t)"

section \<open>Units\<close>

definition Unit_new :: "u64 \<Rightarrow> UnitType \<Rightarrow> h256 \<Rightarrow> bool \<Rightarrow> Unit" where
  "Unit_new tx ty a c =
     \<lparr>unit_tx = tx, unit_type = ty, unit_address = a, wr_dependencies = 0, co_located = c\<rparr>"

definition add_dependency :: "Unit \<Rightarrow> Unit" where
  "add_dependency u = u\<lparr>wr_dependencies := wr_dependencies u + 1\<rparr>"

definition unit_is_sorted :: "tx_store \<Rightarrow> Unit \<Rightarrow> bool" where
  "unit_is_sorted h u = is_sorted (h (unit_tx u))"

definition unit_aborted :: "tx_store \<Rightarrow> Unit \<Rightarrow> bool" where
  "unit_aborted h u = aborted (h (unit_tx u))"

definition unit_sequence :: "tx_store \<Rightarrow> Unit \<Rightarrow> nat" where
  "unit_sequence h u = sequence (h (unit_tx u))"

definition unit_set_sequence :: "nat \<Rightarrow> Unit \<Rightarrow> tx_store \<Rightarrow> tx_store" where
  "unit_set_sequence s u h = h(unit_tx u := set_sequence s (h (unit_tx u)))"

definition abort_tx :: "Unit \<Rightarrow> tx_store \<Rightarrow> tx_store" where
  "abort_tx u h = h(unit_tx u := abort (h (unit_tx u)))"

section \<open>Sorting the read and write units of one address (Algorithm 2)\<close>

definition ReadUnits_new :: ReadUnits where
  "ReadUnits_new = \<lparr>ru_units = [], ru_max_seq = 0\<rparr>"

definition ReadUnits_push :: "Unit \<Rightarrow> ReadUnits \<Rightarrow> ReadUnits" where
  "ReadUnits_push u r = r\<lparr>ru_units := ru_units r @ [u]\<rparr>"

definition ReadUnits_sort :: "tx_store \<Rightarrow> ReadUnits \<Rightarrow> tx_store \<times> ReadUnits" where
  "ReadUnits_sort h r =
     (let (sorted, remaining) = partition (unit_is_sorted h) (ru_units r);
          seqs = map (unit_sequence h) (filter (\<lambda>u. \<not> unit_aborted h u) sorted);
          (min_seq, max_seq) = (if seqs = [] then (1, 1) else (Min (set seqs), Max (set seqs)));
          h' = fold (unit_set_sequence min_seq) remaining h
      in (h', \<lparr>ru_units = sorted @ remaining, ru_max_seq = max_seq\<rparr>))"

definition increment_max_seq :: "ReadUnits \<Rightarrow> ReadUnits" where
  "increment_max_seq r = r\<lparr>ru_max_seq := ru_max_seq r + 1\<rparr>"

definition WriteUnits_new :: WriteUnits where
  "WriteUnits_new = \<lparr>wu_units = [], wu_max_seq = 0, wu_first_updater_flag = False\<rparr>"

definition WriteUnits_push :: "Unit \<Rightarrow> WriteUnits \<Rightarrow> WriteUnits" where
  "WriteUnits_push u w = w\<lparr>wu_units := wu_units w @ [u]\<rparr>"

text \<open>Lines 17--19 of the algorithm: the first updater that is still live gets a fresh sequence
  number after the readers, every further one aborts.  The filter of the Rust iterator is lazy, so
  the abort flag is read when the unit is reached.\<close>

definition resolve_updater ::
    "bool \<Rightarrow> Unit \<Rightarrow> tx_store \<times> ReadUnits \<times> bool \<Rightarrow> tx_store \<times> ReadUnits \<times> bool" where
  "resolve_updater last_committer_wins u = (\<lambda>(h, r, flag).
     if unit_aborted h u \<or> \<not> co_located u then (h, r, flag)
     else if last_committer_wins \<or> \<not> flag then
       (let r' = increment_max_seq r
        in (unit_set_sequence (ru_max_seq r') u h, r', if last_committer_wins then flag else True))
     else (abort_tx u h, r, flag))"

text \<open>Lines 20--24: a sorted writer placed before a reader aborts.\<close>

definition abort_early_writer :: "nat \<Rightarrow> Unit \<Rightarrow> tx_store \<Rightarrow> tx_store" where
  "abort_early_writer max_seq u h =
     (if \<not> unit_aborted h u \<and> unit_sequence h u < max_seq then abort_tx u h else h)"

text \<open>Lines 30--35: the next sequence number that no write unit uses.\<close>

function next_free :: "nat list \<Rightarrow> nat \<Rightarrow> nat" where
  "next_free used s = (if s \<in> set used then next_free used (s + 1) else s)"
  by pat_completeness auto
termination
proof (relation "measure (\<lambda>(used, s). card (set used - {..<s}))")
  fix used :: "nat list" and s :: nat
  assume "s \<in> set used"
  then have "set used - {..<s + 1} = (set used - {..<s}) - {s}" and "s \<in> set used - {..<s}"
    by auto
  then show "((used, s + 1), (used, s)) \<in> measure (\<lambda>(used, s). card (set used - {..<s}))"
    by (simp only: in_measure case_prod_conv) (rule card_Diff1_less, simp_all)
qed simp

declare next_free.simps [simp del]

definition place_writer :: "Unit \<Rightarrow> tx_store \<times> nat list \<times> nat \<Rightarrow> tx_store \<times> nat list \<times> nat" where
  "place_writer u = (\<lambda>(h, used, write_seq).
     let s = next_free used write_seq
     in (unit_set_sequence s u h, set_insert s used, s))"

definition WriteUnits_sort ::
    "bool \<Rightarrow> tx_store \<Rightarrow> WriteUnits \<Rightarrow> ReadUnits \<Rightarrow> tx_store \<times> WriteUnits \<times> ReadUnits" where
  "WriteUnits_sort last_committer_wins h w r =
     (let (sorted, remaining) = partition (unit_is_sorted h) (wu_units w);
          (h1, r1, flag) = fold (resolve_updater last_committer_wins) sorted
                             (h, r, wu_first_updater_flag w);
          h2 = fold (abort_early_writer (ru_max_seq r1)) sorted h1;
          r2 = increment_max_seq r1;
          used = set_extend [] (map (unit_sequence h2) sorted);
          (h3, used', write_seq) = fold place_writer remaining (h2, used, ru_max_seq r2)
      in (h3, \<lparr>wu_units = sorted @ remaining, wu_max_seq = write_seq,
               wu_first_updater_flag = flag\<rparr>, r2))"

section \<open>Addresses\<close>

definition Address_new :: "h256 \<Rightarrow> Address" where
  "Address_new a = \<lparr>addr_address = a, in_degree = 0, out_degree = 0, addr_read_units = ReadUnits_new,
     addr_write_units = WriteUnits_new, addr_first_updater_flag = False\<rparr>"

definition add_unit :: "Unit \<Rightarrow> Address \<Rightarrow> Address" where
  "add_unit u a = (case unit_type u of
     Read \<Rightarrow> a\<lparr>in_degree := in_degree a + wr_dependencies u,
               addr_read_units := ReadUnits_push u (addr_read_units a)\<rparr>
   | Write \<Rightarrow> a\<lparr>addr_first_updater_flag := addr_first_updater_flag a \<or> co_located u,
                out_degree := out_degree a + wr_dependencies u,
                addr_write_units := WriteUnits_push u (addr_write_units a)\<rparr>)"

definition sort_address :: "bool \<Rightarrow> tx_store \<Rightarrow> Address \<Rightarrow> tx_store \<times> Address" where
  "sort_address last_committer_wins h a =
     (let (h1, r1) = ReadUnits_sort h (addr_read_units a);
          (h2, w2, r2) = WriteUnits_sort last_committer_wins h1 (addr_write_units a) r1
      in (h2, a\<lparr>addr_read_units := r2, addr_write_units := w2\<rparr>))"

text \<open>One of the two loops of \<open>Address::merge\<close> over the units of the other graph: the first
  co-located unit aborts its transaction and the in-degree is adjusted.\<close>

definition unwind_updater :: "u32 \<Rightarrow> Unit list \<Rightarrow> tx_store \<times> u32 \<Rightarrow> tx_store \<times> u32" where
  "unwind_updater other_in_degree us = (\<lambda>(h, d). case find co_located us of
     Some u \<Rightarrow> (abort_tx u h, d + other_in_degree - wr_dependencies u)
   | None \<Rightarrow> (h, d))"

definition Address_merge :: "tx_store \<Rightarrow> Address \<Rightarrow> Address \<Rightarrow> tx_store \<times> Address" where
  "Address_merge h a other =
     (if addr_first_updater_flag a \<and> addr_first_updater_flag other then
        (let (h1, d1) = unwind_updater (in_degree other) (ru_units (addr_read_units other)) (h, in_degree a);
             (h2, d2) = unwind_updater (in_degree other) (wu_units (addr_write_units other)) (h1, d1)
         in (h2, a\<lparr>in_degree := d2\<rparr>))
      else
        (h, a\<lparr>in_degree := in_degree a + in_degree other,
              out_degree := out_degree a + out_degree other,
              addr_read_units := (addr_read_units a)
                \<lparr>ru_units := ru_units (addr_read_units a) @ ru_units (addr_read_units other)\<rparr>,
              addr_write_units := (addr_write_units a)
                \<lparr>wu_units := wu_units (addr_write_units a) @ wu_units (addr_write_units other)\<rparr>,
              addr_first_updater_flag := addr_first_updater_flag a \<or> addr_first_updater_flag other\<rparr>))"

section \<open>Constructing the graph\<close>

definition ACG_new :: "tx_store \<Rightarrow> ACG" where
  "ACG_new h = \<lparr>addresses = [], tx_list = [], aborted_txs = [], store = h\<rparr>"

definition convert_to_units :: "u64 \<Rightarrow> UnitType \<Rightarrow> state_map \<Rightarrow> state_map option \<Rightarrow> Unit list" where
  "convert_to_units tx ty m reads = concat (map (\<lambda>(contract, items).
     map (\<lambda>(key, _).
       let co_locate = (case reads of
             Some rs \<Rightarrow> (case map_of rs contract of
                 Some states \<Rightarrow> map_of states key \<noteq> None
               | None \<Rightarrow> False)
           | None \<Rightarrow> False)
       in Unit_new tx ty key co_locate) items) m)"

text \<open>Every write unit depends on every read unit of the same transaction at another address.\<close>

definition add_dependencies :: "Unit list \<Rightarrow> Unit \<Rightarrow> Unit" where
  "add_dependencies others u =
     fold (\<lambda>v w. if unit_address v \<noteq> unit_address u then add_dependency w else w) others u"

definition set_wr_dependencies :: "Unit list \<Rightarrow> Unit list \<Rightarrow> Unit list \<times> Unit list" where
  "set_wr_dependencies rs ws = (map (add_dependencies ws) rs, map (add_dependencies rs) ws)"

definition check_updater_already_exist :: "ACG \<Rightarrow> Unit list \<Rightarrow> bool" where
  "check_updater_already_exist g ws = list_ex (\<lambda>u.
     case map_of (addresses g) (unit_address u) of
       Some a \<Rightarrow> addr_first_updater_flag a
     | None \<Rightarrow> False) (filter co_located ws)"

definition add_unit_to_address :: "Unit \<Rightarrow> (h256, Address) hmap \<Rightarrow> (h256, Address) hmap" where
  "add_unit_to_address u m =
     (let a = (case map_of m (unit_address u) of Some a \<Rightarrow> a | None \<Rightarrow> Address_new (unit_address u))
      in AList.update (unit_address u) (add_unit u a) m)"

definition add_units_to_address :: "Unit list \<Rightarrow> ACG \<Rightarrow> ACG" where
  "add_units_to_address us g = g\<lparr>addresses := fold add_unit_to_address us (addresses g)\<rparr>"

text \<open>The body of the loop that registers a transaction with its units, shared by both
  constructors.\<close>

definition register_tx :: "Transaction \<Rightarrow> RwSet \<Rightarrow> Unit list \<Rightarrow> ACG \<Rightarrow> ACG" where
  "register_tx t rw ws g =
     (let (rs', ws') = set_wr_dependencies (convert_to_units (tx_id t) Read (read_set rw) None) ws;
          t' = set_write_units ws' t;
          g1 = g\<lparr>store := (store g)(tx_id t := t'), tx_list := set_insert (tx_id t) (tx_list g)\<rparr>
      in add_units_to_address ws' (add_units_to_address rs' g1))"

definition construct_step :: "SimulatedTransaction \<Rightarrow> ACG \<Rightarrow> ACG" where
  "construct_step s g =
     (let (t, rw) = Transaction_from s;
          ws = convert_to_units (tx_id t) Write (write_set rw) (Some (read_set rw))
      in if check_updater_already_exist g ws
         then g\<lparr>store := (store g)(tx_id t := abort t), aborted_txs := aborted_txs g @ [tx_id t]\<rparr>
         else register_tx t rw ws g)"

definition construct :: "tx_store \<Rightarrow> SimulatedTransaction list \<Rightarrow> ACG" where
  "construct h sims = fold construct_step sims (ACG_new h)"

definition construct_without_early_detection :: "tx_store \<Rightarrow> SimulatedTransaction list \<Rightarrow> ACG" where
  "construct_without_early_detection h sims = fold (\<lambda>s g.
     let (t, rw) = Transaction_from s;
         ws = convert_to_units (tx_id t) Write (write_set rw) (Some (read_set rw))
     in register_tx t rw ws g) sims (ACG_new h)"

section \<open>Merging sub-graphs\<close>

text \<open>The store of the merged graph: the transactions of the other graph are the ones its table
  and its abort list hold.\<close>

definition merge_store :: "ACG \<Rightarrow> ACG \<Rightarrow> tx_store" where
  "merge_store g other =
     (\<lambda>i. if i \<in> set (tx_list other) \<union> set (aborted_txs other) then store other i else store g i)"

definition merge_address :: "h256 \<times> Address \<Rightarrow> tx_store \<times> (h256, Address) hmap \<Rightarrow>
    tx_store \<times> (h256, Address) hmap" where
  "merge_address = (\<lambda>(k, a) (h, m). case map_of m k of
     Some mine \<Rightarrow> (let (h', mine') = Address_merge h mine a in (h', AList.update k mine' m))
   | None \<Rightarrow> (h, AList.update k a m))"

definition ACG_merge :: "ACG \<Rightarrow> ACG \<Rightarrow> ACG" where
  "ACG_merge g other =
     (let (h, m) = fold merge_address (addresses other) (merge_store g other, addresses g)
      in \<lparr>addresses = m, tx_list = set_extend (tx_list g) (tx_list other),
          aborted_txs = aborted_txs g @ aborted_txs other, store = h\<rparr>)"

fun merge_pairs :: "ACG list \<Rightarrow> ACG list" where
  "merge_pairs (l # r # gs) = ACG_merge l r # merge_pairs gs"
| "merge_pairs gs = gs"

lemma length_merge_pairs: "length (merge_pairs gs) = (length gs + 1) div 2"
  by (induction gs rule: merge_pairs.induct) auto

function merge_rounds :: "ACG list \<Rightarrow> ACG list" where
  "merge_rounds gs = (if length gs > 1 then merge_rounds (merge_pairs gs) else gs)"
  by pat_completeness auto
termination by (relation "measure length") (auto simp: length_merge_pairs)

declare merge_rounds.simps [simp del]

text \<open>\<open>_par_construct\<close>: one sub-graph per chunk, then rounds of pairwise merges.  The final
  \<open>unwrap\<close> of the first sub-graph panics when there is none.\<close>

definition par_construct_with :: "(tx_store \<Rightarrow> 'b list \<Rightarrow> ACG) \<Rightarrow> nat \<Rightarrow> tx_store \<Rightarrow> 'b list \<Rightarrow> ACG option" where
  "par_construct_with constructor ncpu h sims =
     (case merge_rounds (map (constructor h) (chunks (max (length sims div ncpu) 1) sims)) of
        [] \<Rightarrow> None
      | g # _ \<Rightarrow> Some g)"

definition par_construct :: "nat \<Rightarrow> tx_store \<Rightarrow> SimulatedTransaction list \<Rightarrow> ACG option" where
  "par_construct = par_construct_with construct"

section \<open>Sorting and reordering the graph\<close>

definition address_rank :: "ACG \<Rightarrow> h256 list" where
  "address_rank g = map addr_address
     (sort_key (\<lambda>a. (uint (in_degree a), - uint (out_degree a), addr_address a)) (map snd (addresses g)))"

fun sort_addresses :: "bool \<Rightarrow> h256 list \<Rightarrow> ACG \<Rightarrow> ACG option" where
  "sort_addresses lcw [] g = Some g"
| "sort_addresses lcw (k # ks) g = (case map_of (addresses g) k of
     None \<Rightarrow> None
   | Some a \<Rightarrow> (let (h, a') = sort_address lcw (store g) a
               in sort_addresses lcw ks (g\<lparr>store := h, addresses := AList.update k a' (addresses g)\<rparr>)))"

definition hierarchcial_sort :: "bool \<Rightarrow> ACG \<Rightarrow> ACG option" where
  "hierarchcial_sort lcw g = sort_addresses lcw (address_rank g) g"

definition extract_aborted_txs :: "ACG \<Rightarrow> u64 list \<times> ACG" where
  "extract_aborted_txs g =
     (let idx = filter (\<lambda>i. aborted (store g i)) (tx_list g)
      in (sort_key (\<lambda>i. tx_id (store g i)) (aborted_txs g @ idx),
          g\<lparr>tx_list := filter (\<lambda>i. i \<notin> set idx) (tx_list g), aborted_txs := []\<rparr>))"

text \<open>The sequence number of a reordered transaction: the largest one of the addresses it
  writes.  A missing address or an empty list of addresses is a panic.\<close>

definition reorder_seq :: "ACG \<Rightarrow> Transaction \<Rightarrow> nat option" where
  "reorder_seq g t =
     (let seqs = map (\<lambda>k. map_option (\<lambda>a. max (wu_max_seq (addr_write_units a)) (ru_max_seq (addr_read_units a)))
                            (map_of (addresses g) k))
                   (remdups (map unit_address (write_units t)))
      in if seqs = [] \<or> None \<in> set seqs then None else Some (Max (set (map the seqs))))"

fun reorder_targets :: "u64 list \<Rightarrow> ACG \<Rightarrow> ACG option" where
  "reorder_targets [] g = Some g"
| "reorder_targets (i # is) g = (case reorder_seq g (store g i) of
     None \<Rightarrow> None
   | Some s \<Rightarrow> reorder_targets is
       (g\<lparr>store := (store g)(i := set_sequence s (store g i)),
          tx_list := set_insert (tx_id (store g i)) (tx_list g)\<rparr>))"

definition reorder :: "ACG \<Rightarrow> ACG option" where
  "reorder g =
     (let (ts, g1) = extract_aborted_txs g;
          (targets, rest) = partition (\<lambda>i. reorderable (store g1 i)) ts
      in reorder_targets targets (g1\<lparr>aborted_txs := rest\<rparr>))"

end
