(* ===== verification/Conflict_Graph_Props.thy ===== *)
theory Conflict_Graph_Props
  imports Conflict_Graph
begin

text \<open>
  Properties of the address-based conflict graph.  The first part relates the transaction store
  before and after each update; the second proves what sorting the units of one address
  guarantees; the third shows that the graph registers every key access, that no address holds two
  updaters after \<open>construct\<close>, that sorting and reordering never panic, and that no transaction is
  lost or duplicated on the way; the last examines merging of sub-graphs.
\<close>


section \<open>The transaction store\<close>

lemma unit_sequence_set_sequence [heap_simps]:
  "unit_sequence (unit_set_sequence s u h) v = (if unit_tx v = unit_tx u then s else unit_sequence h v)"
  by (simp add: unit_sequence_def unit_set_sequence_def set_sequence_def)

lemma unit_aborted_set_sequence [heap_simps]:
  "unit_aborted (unit_set_sequence s u h) v = unit_aborted h v"
  by (simp add: unit_aborted_def unit_set_sequence_def set_sequence_def aborted_def)

lemma unit_sequence_abort_tx [heap_simps]: "unit_sequence (abort_tx u h) v = unit_sequence h v"
  by (simp add: unit_sequence_def abort_tx_def abort_def)

lemma unit_aborted_abort_tx [heap_simps]:
  "unit_aborted (abort_tx u h) v = (unit_tx v = unit_tx u \<or> unit_aborted h v)"
  by (simp add: unit_aborted_def abort_tx_def abort_def aborted_def)

lemma unit_is_sorted_iff: "unit_is_sorted h u \<longleftrightarrow> unit_sequence h u \<noteq> 0 \<or> unit_aborted h u"
  by (simp add: unit_is_sorted_def is_sorted_def unit_sequence_def unit_aborted_def)

lemma unit_sequence_fold_set [heap_simps]:
  "unit_sequence (fold (unit_set_sequence s) us h) v =
     (if unit_tx v \<in> unit_tx ` set us then s else unit_sequence h v)"
  by (induction us arbitrary: h) (auto simp: heap_simps)

lemma unit_aborted_fold_set [heap_simps]:
  "unit_aborted (fold (unit_set_sequence s) us h) v = unit_aborted h v"
  by (induction us arbitrary: h) (auto simp: heap_simps)

text \<open>Scheduling changes a transaction only in its sequence number and its abort flag.\<close>

definition store_frame :: "tx_store \<Rightarrow> tx_store \<Rightarrow> bool" where
  "store_frame h h' \<longleftrightarrow> (\<forall>i. tx_init (h' i) = tx_init (h i))"

lemma store_frame_refl [simp, intro]: "store_frame h h"
  by (simp add: store_frame_def)

lemma store_frame_trans: "store_frame h h' \<Longrightarrow> store_frame h' h'' \<Longrightarrow> store_frame h h''"
  by (simp add: store_frame_def)

lemma store_frame_set_sequence [simp]: "store_frame h (unit_set_sequence s u h)"
  by (simp add: store_frame_def unit_set_sequence_def set_sequence_def tx_init_def)

lemma store_frame_abort_tx [simp]: "store_frame h (abort_tx u h)"
  by (simp add: store_frame_def abort_tx_def abort_def tx_init_def)

lemma tx_init_eqD:
  assumes "tx_init t = tx_init t'"
  shows "tx_id t = tx_id t'" "write_units t = write_units t'" "effects t = effects t'"
    "logs t = logs t'" "raw_tx t = raw_tx t'"
    "ai_read_keys (abort_info t) = ai_read_keys (abort_info t')"
    "ai_write_keys (abort_info t) = ai_write_keys (abort_info t')"
  using assms
  by (cases t; cases t'; cases "abort_info t"; cases "abort_info t'";
      simp add: tx_init_def ai_read_keys_def ai_write_keys_def)+

lemma store_frameD:
  assumes "store_frame h h'"
  shows "tx_id (h' i) = tx_id (h i)" "write_units (h' i) = write_units (h i)"
    "effects (h' i) = effects (h i)" "raw_tx (h' i) = raw_tx (h i)"
    "ai_read_keys (abort_info (h' i)) = ai_read_keys (abort_info (h i))"
    "ai_write_keys (abort_info (h' i)) = ai_write_keys (abort_info (h i))"
  using assms tx_init_eqD [of "h' i" "h i"] by (auto simp: store_frame_def)

lemma store_frame_fold:
  "(\<And>x h. x \<in> set xs \<Longrightarrow> store_frame h (f x h)) \<Longrightarrow> store_frame h (fold f xs h)"
  by (induction xs arbitrary: h) (auto intro: store_frame_trans)


section \<open>Sorting one address\<close>

lemma next_free_notin: "next_free used s \<notin> set used"
  by (induction used s rule: next_free.induct) (subst next_free.simps, auto)

lemma next_free_ge: "s \<le> next_free used s"
  by (induction used s rule: next_free.induct) (subst next_free.simps, auto dest: Suc_leD)

lemma ReadUnits_sort_aborted:
  "ReadUnits_sort h r = (h', r') \<Longrightarrow> unit_aborted h' u = unit_aborted h u"
  by (auto simp: ReadUnits_sort_def Let_def heap_simps split: if_splits)

lemma ReadUnits_sort_units:
  "ReadUnits_sort h r = (h', r') \<Longrightarrow> set (ru_units r') = set (ru_units r)"
  by (auto simp: ReadUnits_sort_def Let_def split: if_splits)

lemma ReadUnits_sort_other:
  "ReadUnits_sort h r = (h', r') \<Longrightarrow> unit_tx v \<notin> unit_tx ` set (ru_units r) \<Longrightarrow>
     unit_sequence h' v = unit_sequence h v"
  by (auto simp: ReadUnits_sort_def Let_def heap_simps split: if_splits)

lemma ReadUnits_sort_frame:
  "ReadUnits_sort h r = (h', r') \<Longrightarrow> store_frame h h'"
  by (auto simp: ReadUnits_sort_def Let_def split: if_splits intro!: store_frame_fold)

text \<open>After the read units are sorted, every live reader of the address has a sequence number,
  and none is above the recorded maximum.\<close>

lemma ReadUnits_sort_bounds:
  assumes "ReadUnits_sort h r = (h', r')" "u \<in> set (ru_units r)" "\<not> unit_aborted h u"
  shows "0 < unit_sequence h' u" "unit_sequence h' u \<le> ru_max_seq r'"
proof -
  define live where "live = filter (\<lambda>u. \<not> unit_aborted h u) (filter (unit_is_sorted h) (ru_units r))"
  define seqs where "seqs = map (unit_sequence h) live"
  define remaining where "remaining = filter (\<lambda>u. \<not> unit_is_sorted h u) (ru_units r)"
  define m where "m = (if seqs = [] then 1 else Min (set seqs))"
  define M where "M = (if seqs = [] then 1 else Max (set seqs))"
  have h': "h' = fold (unit_set_sequence m) remaining h" and r': "ru_max_seq r' = M"
    using assms(1) unfolding ReadUnits_sort_def live_def seqs_def remaining_def m_def M_def Let_def
    by (auto simp: comp_def split: if_splits)
  have pos: "0 < s" if "s \<in> set seqs" for s
    using that by (auto simp: seqs_def live_def unit_is_sorted_iff)
  have mM: "0 < m" "m \<le> M"
    using pos Min_in [of "set seqs"] by (auto simp: m_def M_def)
  have "unit_sequence h' u = m \<or> unit_sequence h' u \<in> set seqs"
    using assms(2,3) by (auto simp: h' heap_simps remaining_def seqs_def live_def)
  then show "0 < unit_sequence h' u" "unit_sequence h' u \<le> ru_max_seq r'"
    using mM pos Max_ge [of "set seqs"] unfolding r' by (auto simp: M_def)
qed

text \<open>The updater phase keeps live readers below the running maximum and aborts nothing back.\<close>

lemma resolve_updater_fold:
  assumes "fold (resolve_updater lcw) us (h, r, f) = (h', r', f')"
    and "\<And>u. u \<in> R \<Longrightarrow> \<not> unit_aborted h u \<Longrightarrow> unit_sequence h u \<le> ru_max_seq r"
  shows "store_frame h h'" "ru_units r' = ru_units r" "ru_max_seq r \<le> ru_max_seq r'"
    and "\<And>u. unit_aborted h u \<Longrightarrow> unit_aborted h' u"
    and "\<And>u. unit_is_sorted h u \<Longrightarrow> unit_is_sorted h' u"
    and "\<And>u. u \<in> R \<Longrightarrow> \<not> unit_aborted h' u \<Longrightarrow> unit_sequence h' u \<le> ru_max_seq r'"
    and "\<And>v. unit_tx v \<notin> unit_tx ` set us \<Longrightarrow> unit_sequence h' v = unit_sequence h v"
proof -
  have step: "store_frame h h1 \<and> ru_units r1 = ru_units r \<and> ru_max_seq r \<le> ru_max_seq r1 \<and>
      (\<forall>v. unit_aborted h v \<longrightarrow> unit_aborted h1 v) \<and>
      (\<forall>v. unit_is_sorted h v \<longrightarrow> unit_is_sorted h1 v) \<and>
      (\<forall>v\<in>R. \<not> unit_aborted h1 v \<longrightarrow> unit_sequence h1 v \<le> ru_max_seq r1) \<and>
      (\<forall>v. unit_tx v \<noteq> unit_tx u \<longrightarrow> unit_sequence h1 v = unit_sequence h v)"
    if "resolve_updater lcw u (h, r, f) = (h1, r1, f1)"
      and "\<forall>v\<in>R. \<not> unit_aborted h v \<longrightarrow> unit_sequence h v \<le> ru_max_seq r" for u h r f h1 r1 f1
    using that
    by (auto simp: resolve_updater_def increment_max_seq_def unit_is_sorted_iff heap_simps Let_def
        le_SucI split: if_splits)
  have "store_frame h h' \<and> ru_units r' = ru_units r \<and> ru_max_seq r \<le> ru_max_seq r' \<and>
      (\<forall>v. unit_aborted h v \<longrightarrow> unit_aborted h' v) \<and>
      (\<forall>v. unit_is_sorted h v \<longrightarrow> unit_is_sorted h' v) \<and>
      (\<forall>v\<in>R. \<not> unit_aborted h' v \<longrightarrow> unit_sequence h' v \<le> ru_max_seq r') \<and>
      (\<forall>v. unit_tx v \<notin> unit_tx ` set us \<longrightarrow> unit_sequence h' v = unit_sequence h v)"
    using assms
  proof (induction us arbitrary: h r f)
    case Nil
    then show ?case by auto
  next
    case (Cons u us)
    obtain h1 r1 f1 where s: "resolve_updater lcw u (h, r, f) = (h1, r1, f1)"
      by (metis prod_cases3)
    note st = step [OF s]
    have "fold (resolve_updater lcw) us (h1, r1, f1) = (h', r', f')"
      using Cons.prems(1) s by simp
    from Cons.IH [OF this] st Cons.prems(2) show ?case
      by (auto intro: store_frame_trans)
  qed
  then show "store_frame h h'" "ru_units r' = ru_units r" "ru_max_seq r \<le> ru_max_seq r'"
    and "\<And>u. unit_aborted h u \<Longrightarrow> unit_aborted h' u"
    and "\<And>u. unit_is_sorted h u \<Longrightarrow> unit_is_sorted h' u"
    and "\<And>u. u \<in> R \<Longrightarrow> \<not> unit_aborted h' u \<Longrightarrow> unit_sequence h' u \<le> ru_max_seq r'"
    and "\<And>v. unit_tx v \<notin> unit_tx ` set us \<Longrightarrow> unit_sequence h' v = unit_sequence h v"
    by blast+
qed

lemma resolve_updater_fold_other:
  assumes "fold (resolve_updater lcw) us (h, r, f) = (h', r', f')" "unit_tx v \<notin> unit_tx ` set us"
  shows "unit_aborted h' v = unit_aborted h v"
  using assms
proof (induction us arbitrary: h r f)
  case (Cons u us)
  obtain h1 r1 f1 where s: "resolve_updater lcw u (h, r, f) = (h1, r1, f1)"
    by (metis prod_cases3)
  then have "unit_aborted h1 v = unit_aborted h v"
    using Cons.prems(2) by (auto simp: resolve_updater_def Let_def heap_simps split: if_splits)
  with Cons.IH [of h1 r1 f1] Cons.prems s show ?case by simp
qed simp

lemma unit_sequence_abort_early [heap_simps]:
  "unit_sequence (abort_early_writer m u h) v = unit_sequence h v"
  by (simp add: abort_early_writer_def heap_simps)

lemma unit_aborted_abort_early [heap_simps]:
  "unit_aborted (abort_early_writer m u h) v \<longleftrightarrow>
     unit_aborted h v \<or> (unit_sequence h v < m \<and> unit_tx v = unit_tx u)"
  by (auto simp: abort_early_writer_def heap_simps unit_sequence_def unit_aborted_def
      abort_tx_def abort_def aborted_def)

lemma store_frame_abort_early [simp]: "store_frame h (abort_early_writer m u h)"
  by (simp add: abort_early_writer_def)

lemma abort_early_fold_sequence [heap_simps]:
  "unit_sequence (fold (abort_early_writer m) us h) v = unit_sequence h v"
  by (induction us arbitrary: h) (auto simp: heap_simps)

lemma abort_early_fold_aborted [heap_simps]:
  "unit_aborted (fold (abort_early_writer m) us h) v \<longleftrightarrow>
     unit_aborted h v \<or> (unit_sequence h v < m \<and> unit_tx v \<in> unit_tx ` set us)"
  by (induction us arbitrary: h) (auto simp: heap_simps)

lemma place_writer_fold:
  assumes "fold place_writer us (h, used, ws) = (h', used', ws')"
  shows "store_frame h h'"
    and "\<And>v. unit_aborted h' v = unit_aborted h v"
    and "\<And>v. unit_tx v \<notin> unit_tx ` set us \<Longrightarrow> unit_sequence h' v = unit_sequence h v"
    and "\<And>v. unit_tx v \<in> unit_tx ` set us \<Longrightarrow> ws \<le> unit_sequence h' v \<and> unit_sequence h' v \<notin> set used"
    and "ws \<le> ws'"
proof -
  have "store_frame h h' \<and> ws \<le> ws' \<and> (\<forall>v. unit_aborted h' v = unit_aborted h v) \<and>
      (\<forall>v. unit_tx v \<notin> unit_tx ` set us \<longrightarrow> unit_sequence h' v = unit_sequence h v) \<and>
      (\<forall>v. unit_tx v \<in> unit_tx ` set us \<longrightarrow> ws \<le> unit_sequence h' v \<and> unit_sequence h' v \<notin> set used)"
    using assms
  proof (induction us arbitrary: h used ws)
    case (Cons u us)
    define s where "s = next_free used ws"
    have "place_writer u (h, used, ws) = (unit_set_sequence s u h, set_insert s used, s)"
      by (simp add: place_writer_def s_def Let_def)
    then have "fold place_writer us (unit_set_sequence s u h, set_insert s used, s) = (h', used', ws')"
      using Cons.prems by simp
    note IH = Cons.IH [OF this]
    have "ws \<le> s" "s \<notin> set used" by (simp_all add: s_def next_free_ge next_free_notin)
    with IH show ?case
      by (auto simp: heap_simps intro: store_frame_trans [OF store_frame_set_sequence]; fastforce simp: heap_simps)
  qed auto
  then show "store_frame h h'" "ws \<le> ws'"
    and "\<And>v. unit_aborted h' v = unit_aborted h v"
    and "\<And>v. unit_tx v \<notin> unit_tx ` set us \<Longrightarrow> unit_sequence h' v = unit_sequence h v"
    and "\<And>v. unit_tx v \<in> unit_tx ` set us \<Longrightarrow> ws \<le> unit_sequence h' v \<and> unit_sequence h' v \<notin> set used"
    by blast+
qed


lemma place_writer_distinct:
  assumes "fold place_writer us (h, used, ws) = (h', used', ws')"
    and "unit_tx v \<in> unit_tx ` set us" "unit_tx w \<in> unit_tx ` set us" "unit_tx v \<noteq> unit_tx w"
  shows "unit_sequence h' v \<noteq> unit_sequence h' w"
  using assms
proof (induction us arbitrary: h used ws)
  case (Cons u us)
  define s where "s = next_free used ws"
  have "place_writer u (h, used, ws) = (unit_set_sequence s u h, set_insert s used, s)"
    by (simp add: place_writer_def s_def Let_def)
  then have rest: "fold place_writer us (unit_set_sequence s u h, set_insert s used, s) = (h', used', ws')"
    using Cons.prems(1) by simp
  note P = place_writer_fold(3,4) [OF rest]
  show ?case
    using Cons.IH [OF rest] Cons.prems(2-) P [of v] P [of w]
    by (cases "unit_tx v \<in> unit_tx ` set us"; cases "unit_tx w \<in> unit_tx ` set us")
      (auto simp: heap_simps)
qed simp

text \<open>The phases of \<open>WriteUnits::sort\<close>, exposed once for the lemmas below.\<close>

definition write_phases :: "bool \<Rightarrow> tx_store \<Rightarrow> WriteUnits \<Rightarrow> ReadUnits \<Rightarrow> tx_store \<Rightarrow> Unit list \<Rightarrow>
    Unit list \<Rightarrow> tx_store \<Rightarrow> ReadUnits \<Rightarrow> bool \<Rightarrow> nat list \<Rightarrow> nat list \<Rightarrow> nat \<Rightarrow> bool" where
  "write_phases lcw h w r h' srt remaining h1 r1 flag used used' s \<longleftrightarrow>
     srt = filter (unit_is_sorted h) (wu_units w) \<and>
     remaining = filter (\<lambda>u. \<not> unit_is_sorted h u) (wu_units w) \<and>
     fold (resolve_updater lcw) srt (h, r, wu_first_updater_flag w) = (h1, r1, flag) \<and>
     set used = unit_sequence (fold (abort_early_writer (ru_max_seq r1)) srt h1) ` set srt \<and>
     fold place_writer remaining
       (fold (abort_early_writer (ru_max_seq r1)) srt h1, used, ru_max_seq r1 + 1) = (h', used', s)"

lemma WriteUnits_sortE:
  assumes "WriteUnits_sort lcw h w r = (h', w', r')"
  obtains srt remaining h1 r1 flag used used' s where
    "write_phases lcw h w r h' srt remaining h1 r1 flag used used' s"
    "r' = increment_max_seq r1" "wu_units w' = srt @ remaining"
proof -
  define srt where "srt = filter (unit_is_sorted h) (wu_units w)"
  define remaining where "remaining = filter (\<lambda>u. \<not> unit_is_sorted h u) (wu_units w)"
  obtain h1 r1 flag where p1: "fold (resolve_updater lcw) srt (h, r, wu_first_updater_flag w) = (h1, r1, flag)"
    by (metis prod_cases3)
  define h2 where "h2 = fold (abort_early_writer (ru_max_seq r1)) srt h1"
  define used where "used = set_extend [] (map (unit_sequence h2) srt)"
  obtain h3 used' s where p3: "fold place_writer remaining (h2, used, ru_max_seq r1 + 1) = (h3, used', s)"
    by (metis prod_cases3)
  have "WriteUnits_sort lcw h w r =
      (h3, \<lparr>wu_units = srt @ remaining, wu_max_seq = s, wu_first_updater_flag = flag\<rparr>, increment_max_seq r1)"
    using p1 p3 unfolding WriteUnits_sort_def srt_def remaining_def h2_def used_def
    by (simp add: Let_def comp_def increment_max_seq_def)
  then have "h' = h3" "r' = increment_max_seq r1" "wu_units w' = srt @ remaining"
    using assms by auto
  moreover have "write_phases lcw h w r h3 srt remaining h1 r1 flag used used' s"
    using p1 p3 unfolding write_phases_def
    by (auto simp: srt_def remaining_def h2_def used_def)
  ultimately show thesis using that by blast
qed

lemma write_phasesD:
  assumes "write_phases lcw h w r h' srt remaining h1 r1 flag used used' s"
  shows "srt = filter (unit_is_sorted h) (wu_units w)"
    and "remaining = filter (\<lambda>u. \<not> unit_is_sorted h u) (wu_units w)"
    and "fold (resolve_updater lcw) srt (h, r, wu_first_updater_flag w) = (h1, r1, flag)"
    and "set used = unit_sequence (fold (abort_early_writer (ru_max_seq r1)) srt h1) ` set srt"
    and "fold place_writer remaining
       (fold (abort_early_writer (ru_max_seq r1)) srt h1, used, ru_max_seq r1 + 1) = (h', used', s)"
  using assms unfolding write_phases_def by blast+

lemma WriteUnits_sort_frame:
  assumes "WriteUnits_sort lcw h w r = (h', w', r')"
  shows "store_frame h h'" "set (wu_units w') = set (wu_units w)" "ru_units r' = ru_units r"
proof -
  obtain srt remaining h1 r1 flag used used' s where
    ph: "write_phases lcw h w r h' srt remaining h1 r1 flag used used' s"
    and out: "r' = increment_max_seq r1" "wu_units w' = srt @ remaining"
    using assms by (rule WriteUnits_sortE)
  note S = write_phasesD [OF ph]
  note up = resolve_updater_fold [where R = "{}", OF S(3)]
  have "store_frame h h1" "store_frame h1 (fold (abort_early_writer (ru_max_seq r1)) srt h1)"
    using up(1) by (auto intro: store_frame_fold)
  with place_writer_fold(1) [OF S(5)] show "store_frame h h'"
    by (blast intro: store_frame_trans)
  show "set (wu_units w') = set (wu_units w)" "ru_units r' = ru_units r"
    using S(1,2) out up(2) by (auto simp: increment_max_seq_def)
qed

lemma WriteUnits_sort_order:
  assumes sort: "WriteUnits_sort lcw h w r = (h', w', r')"
    and R: "\<And>u. u \<in> R \<Longrightarrow> \<not> unit_aborted h u \<Longrightarrow> 0 < unit_sequence h u \<and> unit_sequence h u \<le> ru_max_seq r"
    and "u \<in> R" "\<not> unit_aborted h' u" "v \<in> set (wu_units w)" "\<not> unit_aborted h' v"
  shows "unit_sequence h' u \<le> unit_sequence h' v"
    and "\<not> unit_is_sorted h v \<Longrightarrow> unit_sequence h' u < unit_sequence h' v"
proof -
  obtain srt remaining h1 r1 flag used used' s where
    ph: "write_phases lcw h w r h' srt remaining h1 r1 flag used used' s"
    using sort by (rule WriteUnits_sortE)
  note S = write_phasesD(1,2) [OF ph] and p1 = write_phasesD(3) [OF ph]
    and used = write_phasesD(4) [OF ph] and p3 = write_phasesD(5) [OF ph]
  note up = resolve_updater_fold [where R = R, OF p1]
  note pl = place_writer_fold [OF p3]
  have live1: "\<not> unit_aborted h1 u" "\<not> unit_aborted h1 v"
    using assms(4,6) pl(2) by (simp_all add: heap_simps)
  then have "unit_is_sorted h u" using up(4) R assms(3) by (auto simp: unit_is_sorted_iff)
  then have "unit_tx u \<notin> unit_tx ` set remaining"
    by (auto simp: S unit_is_sorted_def)
  then have u: "unit_sequence h' u \<le> ru_max_seq r1"
    using up(6) [of u] pl(3) [of u] R live1 assms(3) by (auto simp: heap_simps)
  have new: "ru_max_seq r1 < unit_sequence h' v" if "unit_tx v \<in> unit_tx ` set remaining"
    using pl(4) [OF that] by simp
  have old: "ru_max_seq r1 \<le> unit_sequence h' v" if "unit_tx v \<notin> unit_tx ` set remaining"
    using that assms(5,6) pl(2) [of v] pl(3) [of v] by (force simp: S heap_simps)
  show "unit_sequence h' u \<le> unit_sequence h' v" using u new old by force
  show "unit_sequence h' u < unit_sequence h' v" if "\<not> unit_is_sorted h v"
    using that u new assms(5) by (force simp: S)
qed

lemma WriteUnits_sort_live:
  assumes sort: "WriteUnits_sort lcw h w r = (h', w', r')"
    and "u \<in> set (wu_units w)" "\<not> unit_is_sorted h u"
  shows "\<not> unit_aborted h' u"
proof -
  obtain srt remaining h1 r1 flag used used' s where
    ph: "write_phases lcw h w r h' srt remaining h1 r1 flag used used' s"
    using sort by (rule WriteUnits_sortE)
  note S = write_phasesD(1,2) [OF ph] and p1 = write_phasesD(3) [OF ph]
    and used = write_phasesD(4) [OF ph] and p3 = write_phasesD(5) [OF ph]
  have "unit_tx u \<notin> unit_tx ` set srt" using assms(3) by (auto simp: S unit_is_sorted_def)
  moreover have "\<not> unit_aborted h u" using assms(3) by (simp add: unit_is_sorted_iff)
  ultimately show ?thesis
    using resolve_updater_fold_other [OF p1] place_writer_fold(2) [OF p3] by (simp add: heap_simps)
qed

lemma WriteUnits_sort_fresh:
  assumes sort: "WriteUnits_sort lcw h w r = (h', w', r')"
    and "u \<in> set (wu_units w)" "\<not> unit_is_sorted h u" "v \<in> set (wu_units w)" "unit_tx v \<noteq> unit_tx u"
  shows "unit_sequence h' v \<noteq> unit_sequence h' u"
proof -
  obtain srt remaining h1 r1 flag used used' s where
    ph: "write_phases lcw h w r h' srt remaining h1 r1 flag used used' s"
    using sort by (rule WriteUnits_sortE)
  note S = write_phasesD(1,2) [OF ph] and p1 = write_phasesD(3) [OF ph]
    and used = write_phasesD(4) [OF ph] and p3 = write_phasesD(5) [OF ph]
  note pl = place_writer_fold [OF p3]
  have u: "unit_tx u \<in> unit_tx ` set remaining" using assms(2,3) by (auto simp: S)
  show ?thesis
  proof (cases "unit_tx v \<in> unit_tx ` set remaining")
    case True
    then show ?thesis using place_writer_distinct [OF p3 True u assms(5)] by simp
  next
    case False
    then have "v \<in> set srt" using assms(4) by (auto simp: S)
    then show ?thesis using pl(3) [OF False] pl(4) [OF u] used
      by (metis imageI)
  qed
qed

text \<open>C12: Sorting one address orders its live writers after its live readers.  Whatever
  sequence numbers and aborts earlier addresses produced, once the read and write units of an
  address have been sorted no live transaction that reads the address has a larger sequence number
  than a live transaction that writes it.\<close>

theorem sort_address_readers_first:
  assumes "sort_address lcw h a = (h', a')"
    and "r \<in> set (ru_units (addr_read_units a))" "\<not> unit_aborted h' r"
    and "w \<in> set (wu_units (addr_write_units a))" "\<not> unit_aborted h' w"
  shows "unit_sequence h' r \<le> unit_sequence h' w"
proof -
  obtain h1 r1 w2 r2 where p: "ReadUnits_sort h (addr_read_units a) = (h1, r1)"
      "WriteUnits_sort lcw h1 (addr_write_units a) r1 = (h', w2, r2)"
    using assms(1) by (auto simp: sort_address_def split: prod.splits)
  have R: "0 < unit_sequence h1 u \<and> unit_sequence h1 u \<le> ru_max_seq r1"
    if "u \<in> set (ru_units (addr_read_units a))" "\<not> unit_aborted h1 u" for u
    using ReadUnits_sort_bounds [OF p(1) that(1)] ReadUnits_sort_aborted [OF p(1)] that(2) by simp
  show ?thesis by (rule WriteUnits_sort_order(1) [OF p(2) R assms(2-5)])
qed

text \<open>C13: A writer that an address sees first gets a sequence number of its own there.  A write
  unit whose transaction had no sequence number before the address was sorted, and that does not
  also read the address, ends strictly after every live reader and shares its number with no write
  unit of another transaction.\<close>

theorem sort_address_fresh_writer:
  assumes "sort_address lcw h a = (h', a')"
    and "w \<in> set (wu_units (addr_write_units a))" "\<not> unit_is_sorted h w"
    and "unit_tx w \<notin> unit_tx ` set (ru_units (addr_read_units a))"
  shows "(\<forall>v\<in>set (wu_units (addr_write_units a)).
            unit_tx v \<noteq> unit_tx w \<longrightarrow> unit_sequence h' v \<noteq> unit_sequence h' w) \<and>
         (\<forall>r\<in>set (ru_units (addr_read_units a)).
            \<not> unit_aborted h' r \<longrightarrow> unit_sequence h' r < unit_sequence h' w)"
proof -
  obtain h1 r1 w2 r2 where p: "ReadUnits_sort h (addr_read_units a) = (h1, r1)"
      "WriteUnits_sort lcw h1 (addr_write_units a) r1 = (h', w2, r2)"
    using assms(1) by (auto simp: sort_address_def split: prod.splits)
  have unsorted: "\<not> unit_is_sorted h1 w"
    using assms(3,4) ReadUnits_sort_other [OF p(1)] ReadUnits_sort_aborted [OF p(1)]
    by (simp add: unit_is_sorted_iff)
  then have live: "\<not> unit_aborted h' w"
    using WriteUnits_sort_live [OF p(2) assms(2)] by blast
  have R: "0 < unit_sequence h1 u \<and> unit_sequence h1 u \<le> ru_max_seq r1"
    if "u \<in> set (ru_units (addr_read_units a))" "\<not> unit_aborted h1 u" for u
    using ReadUnits_sort_bounds [OF p(1) that(1)] ReadUnits_sort_aborted [OF p(1)] that(2) by simp
  show ?thesis
    using WriteUnits_sort_fresh [OF p(2) assms(2) unsorted]
      WriteUnits_sort_order(2) [OF p(2) R _ _ assms(2) live unsorted] by simp
qed


section \<open>The units of an address\<close>

definition wu_at :: "(h256, Address) hmap \<Rightarrow> h256 \<Rightarrow> Unit list" where
  "wu_at m k = (case map_of m k of Some a \<Rightarrow> wu_units (addr_write_units a) | None \<Rightarrow> [])"

definition ru_at :: "(h256, Address) hmap \<Rightarrow> h256 \<Rightarrow> Unit list" where
  "ru_at m k = (case map_of m k of Some a \<Rightarrow> ru_units (addr_read_units a) | None \<Rightarrow> [])"

definition flag_at :: "(h256, Address) hmap \<Rightarrow> h256 \<Rightarrow> bool" where
  "flag_at m k = (case map_of m k of Some a \<Rightarrow> addr_first_updater_flag a | None \<Rightarrow> False)"

definition addresses_ok :: "(h256, Address) hmap \<Rightarrow> bool" where
  "addresses_ok m \<longleftrightarrow> distinct (map fst m) \<and> (\<forall>k a. map_of m k = Some a \<longrightarrow> addr_address a = k)"

lemma wu_at_add_unit:
  "wu_at (add_unit_to_address u m) k =
     wu_at m k @ (if unit_address u = k \<and> unit_type u = Write then [u] else [])"
  by (auto simp: wu_at_def add_unit_to_address_def add_unit_def Address_new_def WriteUnits_push_def
      WriteUnits_new_def Let_def split: option.splits UnitType.splits)

lemma ru_at_add_unit:
  "ru_at (add_unit_to_address u m) k =
     ru_at m k @ (if unit_address u = k \<and> unit_type u = Read then [u] else [])"
  by (auto simp: ru_at_def add_unit_to_address_def add_unit_def Address_new_def ReadUnits_push_def
      ReadUnits_new_def Let_def split: option.splits UnitType.splits)

lemma flag_at_add_unit:
  "flag_at (add_unit_to_address u m) k \<longleftrightarrow>
     flag_at m k \<or> (unit_address u = k \<and> unit_type u = Write \<and> co_located u)"
  by (auto simp: flag_at_def add_unit_to_address_def add_unit_def Address_new_def Let_def
      split: option.splits UnitType.splits)

lemma dom_add_unit: "dom (map_of (add_unit_to_address u m)) = insert (unit_address u) (dom (map_of m))"
  by (auto simp: add_unit_to_address_def Let_def)

lemma addresses_ok_add_unit: "addresses_ok m \<Longrightarrow> addresses_ok (add_unit_to_address u m)"
  by (auto simp: addresses_ok_def add_unit_to_address_def add_unit_def Address_new_def Let_def
      distinct_update split: option.splits UnitType.splits)

lemma units_fold_add:
  "wu_at (fold add_unit_to_address us m) k =
     wu_at m k @ filter (\<lambda>u. unit_address u = k \<and> unit_type u = Write) us"
  "ru_at (fold add_unit_to_address us m) k =
     ru_at m k @ filter (\<lambda>u. unit_address u = k \<and> unit_type u = Read) us"
  "flag_at (fold add_unit_to_address us m) k \<longleftrightarrow>
     flag_at m k \<or> (\<exists>u\<in>set us. unit_address u = k \<and> unit_type u = Write \<and> co_located u)"
  "dom (map_of (fold add_unit_to_address us m)) = dom (map_of m) \<union> unit_address ` set us"
  "addresses_ok m \<Longrightarrow> addresses_ok (fold add_unit_to_address us m)"
  by (induction us arbitrary: m)
    (auto simp: wu_at_add_unit ru_at_add_unit flag_at_add_unit dom_add_unit addresses_ok_add_unit)

lemma add_dependencies_fields [simp]:
  "unit_tx (add_dependencies vs u) = unit_tx u" "unit_type (add_dependencies vs u) = unit_type u"
  "unit_address (add_dependencies vs u) = unit_address u" "co_located (add_dependencies vs u) = co_located u"
proof -
  have "unit_tx (fold (\<lambda>v w. if unit_address v \<noteq> b then add_dependency w else w) vs u) = unit_tx u \<and>
      unit_type (fold (\<lambda>v w. if unit_address v \<noteq> b then add_dependency w else w) vs u) = unit_type u \<and>
      unit_address (fold (\<lambda>v w. if unit_address v \<noteq> b then add_dependency w else w) vs u) = unit_address u \<and>
      co_located (fold (\<lambda>v w. if unit_address v \<noteq> b then add_dependency w else w) vs u) = co_located u" for b
    by (induction vs arbitrary: u) (auto simp: add_dependency_def)
  then show "unit_tx (add_dependencies vs u) = unit_tx u" "unit_type (add_dependencies vs u) = unit_type u"
    "unit_address (add_dependencies vs u) = unit_address u" "co_located (add_dependencies vs u) = co_located u"
    by (simp_all add: add_dependencies_def)
qed

lemma convert_to_units_addresses:
  "unit_address ` set (convert_to_units i ty m rs) = state_keys m"
proof (induction m)
  case (Cons p m)
  then show ?case
    by (cases p)
      (simp add: convert_to_units_def Unit_new_def Let_def image_Un image_image case_prod_beta)
qed (simp add: convert_to_units_def)

lemma convert_to_units_mem:
  assumes "u \<in> set (convert_to_units i ty m rs)"
  shows "unit_tx u = i" "unit_type u = ty" "unit_address u \<in> state_keys m"
proof -
  show "unit_address u \<in> state_keys m"
    using imageI [OF assms, of unit_address] by (simp only: convert_to_units_addresses)
  show "unit_tx u = i" "unit_type u = ty"
    using assms by (auto simp: convert_to_units_def Unit_new_def Let_def)
qed

section \<open>Well-formed graphs\<close>

text \<open>Every registered or aborted transaction is stored under its own id exactly once, and its
  write units point to addresses of the graph.\<close>

definition acg_wf :: "ACG \<Rightarrow> bool" where
  "acg_wf g \<longleftrightarrow> addresses_ok (addresses g) \<and> distinct (tx_list g @ aborted_txs g) \<and>
     (\<forall>i\<in>set (tx_list g @ aborted_txs g). tx_id (store g i) = i \<and> itx_id (raw_tx (store g i)) = i \<and>
        unit_address ` set (write_units (store g i)) \<subseteq> dom (map_of (addresses g)))"

definition acg_ids :: "ACG \<Rightarrow> u64 multiset" where
  "acg_ids g = mset (tx_list g) + mset (aborted_txs g)"

abbreviation sim_id :: "SimulatedTransaction \<Rightarrow> u64" where
  "sim_id s \<equiv> itx_id (sim_raw_tx s)"

lemma Transaction_from_simps:
  "Transaction_from s =
     (\<lparr>tx_id = sim_id s, sequence = 0, abort_info = AbortInfo_new (sim_rw_set s), write_units = [],
       effects = sim_effects s, logs = sim_logs s, raw_tx = sim_raw_tx s\<rparr>, sim_rw_set s)"
  by (simp add: Transaction_from_def sim_deconstruct_def)

lemma acg_wf_new [simp]: "acg_wf (ACG_new h)" "acg_ids (ACG_new h) = {#}"
  by (simp_all add: acg_wf_def acg_ids_def ACG_new_def addresses_ok_def)

lemma register_tx_fields:
  assumes "register_tx t rw ws g = g'"
  shows "tx_list g' = set_insert (tx_id t) (tx_list g)" "aborted_txs g' = aborted_txs g"
    and "store g' = (store g)(tx_id t :=
           set_write_units (map (add_dependencies (convert_to_units (tx_id t) Read (read_set rw) None)) ws) t)"
    and "addresses g' = fold add_unit_to_address
           (map (add_dependencies (convert_to_units (tx_id t) Read (read_set rw) None)) ws)
           (fold add_unit_to_address
             (map (add_dependencies ws) (convert_to_units (tx_id t) Read (read_set rw) None)) (addresses g))"
  using assms by (auto simp: register_tx_def set_wr_dependencies_def add_units_to_address_def Let_def)

lemma construct_step_wf:
  assumes "acg_wf g" "sim_id s \<notin> set (tx_list g @ aborted_txs g)"
  shows "acg_wf (construct_step s g)" "acg_ids (construct_step s g) = add_mset (sim_id s) (acg_ids g)"
proof -
  define t where "t = fst (Transaction_from s)"
  define rw where "rw = snd (Transaction_from s)"
  define ws where "ws = convert_to_units (tx_id t) Write (write_set rw) (Some (read_set rw))"
  have t: "tx_id t = sim_id s" "itx_id (raw_tx t) = sim_id s" "write_units t = []" by (simp_all add: t_def Transaction_from_simps)
  have step: "construct_step s g = (if check_updater_already_exist g ws
      then g\<lparr>store := (store g)(tx_id t := abort t), aborted_txs := aborted_txs g @ [tx_id t]\<rparr>
      else register_tx t rw ws g)"
    by (simp add: construct_step_def ws_def t_def rw_def Transaction_from_simps)
  note reg = register_tx_fields [of t rw ws g, OF refl]
  show "acg_wf (construct_step s g)"
  proof (cases "check_updater_already_exist g ws")
    case True
    then show ?thesis using assms t unfolding step by (auto simp: acg_wf_def abort_def)
  next
    case False
    have "unit_address ` set (write_units (store g i)) \<subseteq> dom (map_of (addresses g))"
      if "i \<in> set (tx_list g @ aborted_txs g)" for i
      using assms(1) that by (simp add: acg_wf_def)
    with False show ?thesis using assms t unfolding step
      by (simp add: acg_wf_def reg units_fold_add set_write_units_def image_image set_insert_def ball_Un le_supI1)
  qed
  show "acg_ids (construct_step s g) = add_mset (sim_id s) (acg_ids g)"
    using assms t unfolding step by (auto simp: acg_ids_def reg mset_set_insert_fresh)
qed

lemma acg_ids_set: "set_mset (acg_ids g) = set (tx_list g @ aborted_txs g)"
  by (simp add: acg_ids_def)

lemma construct_wf:
  assumes "distinct (map sim_id sims)"
  shows "acg_wf (construct h sims)" "acg_ids (construct h sims) = mset (map sim_id sims)"
proof -
  have "acg_wf (fold construct_step sims g) \<and>
      acg_ids (fold construct_step sims g) = mset (map sim_id sims) + acg_ids g"
    if "acg_wf g" "distinct (map sim_id sims)" "sim_id ` set sims \<inter> set_mset (acg_ids g) = {}" for g
    using that
  proof (induction sims arbitrary: g)
    case (Cons s sims)
    have fresh: "sim_id s \<notin> set (tx_list g @ aborted_txs g)"
      using Cons.prems(3) by (auto simp: acg_ids_def)
    note st = construct_step_wf [OF Cons.prems(1) fresh]
    show ?case using Cons.IH [OF st(1)] Cons.prems(2,3) st(2) by auto
  qed simp
  from this [OF acg_wf_new(1) assms] show "acg_wf (construct h sims)"
    "acg_ids (construct h sims) = mset (map sim_id sims)"
    by (simp_all add: construct_def)
qed


section \<open>What the constructor registers\<close>

text \<open>Whatever the batch, the read and write units of a graph built by \<open>construct\<close> are exactly
  the slot keys of the registered transactions, and at each address at most one transaction both
  reads and writes the slot.\<close>

definition acg_units_ok :: "ACG \<Rightarrow> bool" where
  "acg_units_ok g \<longleftrightarrow> (\<forall>k.
     (\<forall>i. i \<in> unit_tx ` set (wu_at (addresses g) k) \<longleftrightarrow>
          i \<in> set (tx_list g) \<and> k \<in> ai_write_keys (abort_info (store g i))) \<and>
     (\<forall>i. i \<in> unit_tx ` set (ru_at (addresses g) k) \<longleftrightarrow>
          i \<in> set (tx_list g) \<and> k \<in> ai_read_keys (abort_info (store g i))))"

definition single_updater :: "(h256, Address) hmap \<Rightarrow> bool" where
  "single_updater m \<longleftrightarrow> (\<forall>k. (flag_at m k \<longleftrightarrow> (\<exists>u\<in>set (wu_at m k). co_located u)) \<and>
     (\<forall>u\<in>set (wu_at m k). \<forall>v\<in>set (wu_at m k). co_located u \<and> co_located v \<longrightarrow> unit_tx u = unit_tx v))"

lemma check_updater_iff:
  "check_updater_already_exist g ws \<longleftrightarrow>
     (\<exists>u\<in>set ws. co_located u \<and> flag_at (addresses g) (unit_address u))"
  by (auto simp: check_updater_already_exist_def flag_at_def list_ex_iff split: option.splits)

lemma construct_step_cases:
  obtains ws where "ws = convert_to_units (sim_id s) Write (write_set (sim_rw_set s)) (Some (read_set (sim_rw_set s)))"
    "construct_step s g = (if check_updater_already_exist g ws
       then g\<lparr>store := (store g)(sim_id s := abort (fst (Transaction_from s))),
              aborted_txs := aborted_txs g @ [sim_id s]\<rparr>
       else register_tx (fst (Transaction_from s)) (sim_rw_set s) ws g)"
  by (simp add: construct_step_def Transaction_from_simps)

lemma construct_step_single_updater:
  assumes "single_updater (addresses g)"
  shows "single_updater (addresses (construct_step s g))"
proof -
  obtain ws where ws: "ws = convert_to_units (sim_id s) Write (write_set (sim_rw_set s)) (Some (read_set (sim_rw_set s)))"
    and step: "construct_step s g = (if check_updater_already_exist g ws
       then g\<lparr>store := (store g)(sim_id s := abort (fst (Transaction_from s))),
              aborted_txs := aborted_txs g @ [sim_id s]\<rparr>
       else register_tx (fst (Transaction_from s)) (sim_rw_set s) ws g)"
    by (rule construct_step_cases)
  note reg = register_tx_fields [of "fst (Transaction_from s)" "sim_rw_set s" ws g, OF refl]
  define rs where "rs = convert_to_units (sim_id s) Read (read_set (sim_rw_set s)) None"
  have tid: "tx_id (fst (Transaction_from s)) = sim_id s" by (simp add: Transaction_from_simps)
  have rs_ty: "unit_type u = Read" if "u \<in> set rs" for u
    using that by (simp add: rs_def convert_to_units_mem(2))
  have ws_ty: "unit_type u = Write" "unit_tx u = sim_id s" if "u \<in> set ws" for u
    using that by (simp_all add: ws convert_to_units_mem(1,2))
  show ?thesis
  proof (cases "check_updater_already_exist g ws")
    case False
    define ws' where "ws' = map (add_dependencies rs) ws"
    define m where "m = fold add_unit_to_address ws'
      (fold add_unit_to_address (map (add_dependencies ws) rs) (addresses g))"
    have A: "addresses (construct_step s g) = m"
      using False by (simp add: step reg(4) tid rs_def ws'_def m_def)
    have F: "flag_at m k \<longleftrightarrow> flag_at (addresses g) k \<or> (\<exists>u\<in>set ws. unit_address u = k \<and> co_located u)" for k
      unfolding m_def units_fold_add by (auto simp: ws'_def rs_ty ws_ty)
    have old: "flag_at (addresses g) k \<longleftrightarrow> (\<exists>u\<in>set (wu_at (addresses g) k). co_located u)" for k
      using assms by (simp add: single_updater_def)
    have uniq: "unit_tx u = unit_tx v" if "u \<in> set (wu_at (addresses g) k)" "v \<in> set (wu_at (addresses g) k)"
      "co_located u" "co_located v" for u v k
      using assms that unfolding single_updater_def by blast
    have new: "\<not> flag_at (addresses g) (unit_address u)" if "u \<in> set ws" "co_located u" for u
      using that False by (auto simp: check_updater_iff)
    have B: "u \<in> set (wu_at m k) \<longleftrightarrow>
        u \<in> set (wu_at (addresses g) k) \<or> (\<exists>v\<in>set ws. u = add_dependencies rs v \<and> unit_address v = k)" for u k
      unfolding m_def units_fold_add by (auto simp: ws'_def rs_ty ws_ty)
    have "flag_at m k \<longleftrightarrow> (\<exists>u\<in>set (wu_at m k). co_located u)" for k
      unfolding F old Bex_def B by (auto; metis add_dependencies_fields(4))
    moreover have "unit_tx u = unit_tx v"
      if "u \<in> set (wu_at m k)" "v \<in> set (wu_at m k)" "co_located u" "co_located v" for u v k
    proof (cases "flag_at (addresses g) k")
      case True
      have no: "False" if "w \<in> set ws" "x = add_dependencies rs w" "unit_address w = k" "co_located x" for x w
        using new [of w] that True by simp
      have "u \<in> set (wu_at (addresses g) k)" "v \<in> set (wu_at (addresses g) k)"
        using that no unfolding B by blast+
      then show ?thesis using that(3,4) by (rule uniq)
    next
      case False
      then have "u \<notin> set (wu_at (addresses g) k)" "v \<notin> set (wu_at (addresses g) k)"
        using that(3,4) unfolding old by blast+
      then have "unit_tx u = sim_id s" "unit_tx v = sim_id s"
        using that(1,2) ws_ty(2) by (auto simp: B)
      then show ?thesis by simp
    qed
    ultimately show ?thesis unfolding A single_updater_def by blast
  qed (use assms in \<open>simp add: step\<close>)
qed

text \<open>C14: The early updater check leaves at most one updater per address.  In the graph that
  \<open>construct\<close> builds from any simulation result, two co-located write units of one address (units
  whose transaction also reads the slot of the same contract) belong to the same transaction.\<close>

theorem construct_single_updater:
  assumes "u \<in> set (wu_at (addresses (construct h sims)) k)" "co_located u"
    and "v \<in> set (wu_at (addresses (construct h sims)) k)" "co_located v"
  shows "unit_tx u = unit_tx v"
proof -
  have "single_updater (addresses (fold construct_step sims g))" if "single_updater (addresses g)" for g
    using that by (induction sims arbitrary: g) (simp_all add: construct_step_single_updater)
  moreover have "single_updater (addresses (ACG_new h))"
    by (simp add: ACG_new_def single_updater_def flag_at_def wu_at_def)
  ultimately have "single_updater (addresses (construct h sims))"
    unfolding construct_def by blast
  then show ?thesis using assms unfolding single_updater_def by blast
qed


lemma construct_step_units_ok:
  assumes "acg_units_ok g" "sim_id s \<notin> set (tx_list g @ aborted_txs g)"
  shows "acg_units_ok (construct_step s g)"
proof -
  define t where "t = fst (Transaction_from s)"
  obtain ws where ws: "ws = convert_to_units (sim_id s) Write (write_set (sim_rw_set s)) (Some (read_set (sim_rw_set s)))"
    and step: "construct_step s g = (if check_updater_already_exist g ws
       then g\<lparr>store := (store g)(sim_id s := abort t), aborted_txs := aborted_txs g @ [sim_id s]\<rparr>
       else register_tx t (sim_rw_set s) ws g)"
    unfolding t_def by (rule construct_step_cases)
  define rs where "rs = convert_to_units (sim_id s) Read (read_set (sim_rw_set s)) None"
  have t: "tx_id t = sim_id s" "abort_info t = AbortInfo_new (sim_rw_set s)"
    by (simp_all add: t_def Transaction_from_simps)
  note reg = register_tx_fields [of t "sim_rw_set s" ws g, OF refl, unfolded t, folded rs_def]
  show ?thesis
  proof (cases "check_updater_already_exist g ws")
    case True
    with assms show ?thesis unfolding step by (auto simp: acg_units_ok_def)
  next
    case False
    have rs_ty: "unit_type u = Read" "unit_tx u = sim_id s" if "u \<in> set rs" for u
      using that by (simp_all add: rs_def convert_to_units_mem(1,2))
    have ws_ty: "unit_type u = Write" "unit_tx u = sim_id s" if "u \<in> set ws" for u
      using that by (simp_all add: ws convert_to_units_mem(1,2))
    have U: "set (wu_at (addresses (construct_step s g)) k) =
        set (wu_at (addresses g) k) \<union> add_dependencies rs ` {u \<in> set ws. unit_address u = k}"
      "set (ru_at (addresses (construct_step s g)) k) =
        set (ru_at (addresses g) k) \<union> add_dependencies ws ` {u \<in> set rs. unit_address u = k}" for k
      using False unfolding step by (auto simp: reg(4) units_fold_add rs_ty ws_ty)
    have W: "i \<in> unit_tx ` set (wu_at (addresses (construct_step s g)) k) \<longleftrightarrow>
        i \<in> unit_tx ` set (wu_at (addresses g) k) \<or> (i = sim_id s \<and> k \<in> unit_address ` set ws)" for i k
      unfolding U image_Un image_image by (auto simp: ws_ty)
    have R: "i \<in> unit_tx ` set (ru_at (addresses (construct_step s g)) k) \<longleftrightarrow>
        i \<in> unit_tx ` set (ru_at (addresses g) k) \<or> (i = sim_id s \<and> k \<in> unit_address ` set rs)" for i k
      unfolding U image_Un image_image by (auto simp: rs_ty)
    have addr: "unit_address ` set ws = state_keys (write_set (sim_rw_set s))"
      "unit_address ` set rs = state_keys (read_set (sim_rw_set s))"
      by (simp_all only: ws rs_def convert_to_units_addresses)
    have L: "set (tx_list (construct_step s g)) = insert (sim_id s) (set (tx_list g))"
      using False by (simp add: step reg(1))
    have S: "abort_info (store (construct_step s g) i) =
        (if i = sim_id s then AbortInfo_new (sim_rw_set s) else abort_info (store g i))" for i
      using False by (simp add: step reg(3) set_write_units_def t)
    show ?thesis using assms unfolding acg_units_ok_def W R L S addr
      by (auto simp: ai_write_keys_def ai_read_keys_def AbortInfo_new_def)
  qed
qed

text \<open>C15: The graph registers every access.  For a batch with distinct ids, a transaction that
  \<open>construct\<close> did not abort has a write unit at an address exactly when the slot is in its write
  set and a read unit exactly when it is in its read set; no other transaction has any unit.\<close>

theorem construct_registers_accesses:
  assumes "distinct (map sim_id sims)"
  shows "((\<exists>u\<in>set (wu_at (addresses (construct h sims)) k). unit_tx u = i) \<longleftrightarrow>
           i \<in> set (tx_list (construct h sims)) \<and> k \<in> ai_write_keys (abort_info (store (construct h sims) i))) \<and>
         ((\<exists>u\<in>set (ru_at (addresses (construct h sims)) k). unit_tx u = i) \<longleftrightarrow>
           i \<in> set (tx_list (construct h sims)) \<and> k \<in> ai_read_keys (abort_info (store (construct h sims) i)))"
proof -
  have "acg_units_ok (fold construct_step sims g)"
    if "acg_wf g" "acg_units_ok g" "distinct (map sim_id sims)" "sim_id ` set sims \<inter> set_mset (acg_ids g) = {}" for g
    using that
  proof (induction sims arbitrary: g)
    case (Cons s sims)
    have fresh: "sim_id s \<notin> set (tx_list g @ aborted_txs g)"
      using Cons.prems(4) by (auto simp: acg_ids_def)
    note st = construct_step_wf [OF Cons.prems(1) fresh]
    have "acg_units_ok (fold construct_step sims (construct_step s g))"
      by (rule Cons.IH [OF st(1) construct_step_units_ok [OF Cons.prems(2) fresh]])
        (use Cons.prems(3,4) st(2) in auto)
    then show ?case by simp
  qed simp
  moreover have "acg_units_ok (ACG_new h)"
    by (simp add: acg_units_ok_def ACG_new_def wu_at_def ru_at_def)
  ultimately have ok: "acg_units_ok (construct h sims)"
    using assms by (simp add: construct_def)
  have img: "(\<exists>u\<in>U. unit_tx u = i) \<longleftrightarrow> i \<in> unit_tx ` U" for U by blast
  show ?thesis using ok unfolding img acg_units_ok_def by blast
qed


section \<open>Merging sub-graphs\<close>

lemma unwind_updater_frame: "store_frame (fst p) (fst (unwind_updater d us p))"
  by (cases p) (auto simp: unwind_updater_def split: option.splits)

lemma Address_merge_frame:
  assumes "Address_merge h a b = (h', a')"
  shows "store_frame h h'" "addr_address a' = addr_address a"
proof -
  let ?p = "unwind_updater (in_degree b) (ru_units (addr_read_units b)) (h, in_degree a)"
  let ?q = "unwind_updater (in_degree b) (wu_units (addr_write_units b)) ?p"
  have "store_frame h (fst ?q)"
    using store_frame_trans [OF unwind_updater_frame unwind_updater_frame] by (metis fst_conv)
  then show "store_frame h h'" "addr_address a' = addr_address a"
    using assms by (auto simp: Address_merge_def split: if_splits prod.splits)
qed

lemma addresses_ok_update:
  assumes "addresses_ok m" "addr_address a = k"
  shows "addresses_ok (AList.update k a m)"
  using assms unfolding addresses_ok_def by (simp only: map_of_update_conv distinct_update) (auto split: if_splits)

lemma addresses_ok_map_of: "addresses_ok m \<Longrightarrow> map_of m k = Some a \<Longrightarrow> addr_address a = k"
  by (simp add: addresses_ok_def)

lemma merge_address_fold:
  assumes "fold merge_address bs (h, m) = (h', m')" "\<forall>(k, a)\<in>set bs. addr_address a = k"
  shows "store_frame h h'" "dom (map_of m') = dom (map_of m) \<union> fst ` set bs"
    "addresses_ok m \<Longrightarrow> addresses_ok m'"
proof -
  have "store_frame h h' \<and> dom (map_of m') = dom (map_of m) \<union> fst ` set bs \<and>
      (addresses_ok m \<longrightarrow> addresses_ok m')"
    using assms
  proof (induction bs arbitrary: h m)
    case (Cons b bs)
    obtain k a where b: "b = (k, a)" by (cases b)
    obtain h1 m1 where st: "merge_address b (h, m) = (h1, m1)" by (cases "merge_address b (h, m)")
    have one: "store_frame h h1" "dom (map_of m1) = insert k (dom (map_of m))"
      "addresses_ok m \<Longrightarrow> addresses_ok m1"
      using st Cons.prems(2)
      by (auto simp: merge_address_def b split: option.splits prod.splits
          dest: Address_merge_frame(1) intro!: addresses_ok_update)
        (metis Address_merge_frame(2) addresses_ok_map_of)
    have "fold merge_address bs (h1, m1) = (h', m')" using Cons.prems(1) st by simp
    from Cons.IH [OF this] Cons.prems(2) one show ?case
      by (auto simp: b intro: store_frame_trans)
  qed auto
  then show "store_frame h h'" "dom (map_of m') = dom (map_of m) \<union> fst ` set bs"
    "addresses_ok m \<Longrightarrow> addresses_ok m'"
    by blast+
qed

lemma addresses_okD: "addresses_ok m \<Longrightarrow> (k, a) \<in> set m \<Longrightarrow> addr_address a = k"
  by (auto simp: addresses_ok_def dest: map_of_is_SomeI)

lemma ACG_merge_wf:
  assumes "acg_wf g" "acg_wf g2" "set_mset (acg_ids g) \<inter> set_mset (acg_ids g2) = {}"
  shows "acg_wf (ACG_merge g g2)" "acg_ids (ACG_merge g g2) = acg_ids g + acg_ids g2"
proof -
  obtain h m where f: "fold merge_address (addresses g2) (merge_store g g2, addresses g) = (h, m)"
    by (metis surj_pair)
  have k: "\<forall>(k, a)\<in>set (addresses g2). addr_address a = k"
    using assms(2) by (auto simp: acg_wf_def dest: addresses_okD)
  note F = merge_address_fold [OF f k]
  have M: "ACG_merge g g2 = \<lparr>addresses = m, tx_list = set_extend (tx_list g) (tx_list g2),
      aborted_txs = aborted_txs g @ aborted_txs g2, store = h\<rparr>"
    by (simp add: ACG_merge_def f)
  have dj: "set (tx_list g @ aborted_txs g) \<inter> set (tx_list g2 @ aborted_txs g2) = {}"
    using assms(3) by (simp add: acg_ids_def)
  have d: "distinct (tx_list g @ aborted_txs g)" "distinct (tx_list g2 @ aborted_txs g2)"
    using assms(1,2) by (simp_all add: acg_wf_def)
  show "acg_ids (ACG_merge g g2) = acg_ids g + acg_ids g2"
    using d dj by (simp add: M acg_ids_def mset_set_extend_disjoint Int_Un_distrib Int_Un_distrib2)
  have st: "tx_id (h i) = tx_id (merge_store g g2 i)" "raw_tx (h i) = raw_tx (merge_store g g2 i)" "write_units (h i) = write_units (merge_store g g2 i)" for i
    using store_frameD [OF F(1)] by simp_all
  have dom2: "fst ` set (addresses g2) = dom (map_of (addresses g2))" by (simp add: dom_map_of_conv_image_fst)
  have in1: "merge_store g g2 i = store g i" if "i \<in> set (tx_list g @ aborted_txs g)" for i
    using dj that by (auto simp: merge_store_def)
  have in2: "merge_store g g2 i = store g2 i" if "i \<in> set (tx_list g2 @ aborted_txs g2)" for i
    using that by (auto simp: merge_store_def)
  have each: "tx_id (h i) = i \<and> itx_id (raw_tx (h i)) = i \<and> unit_address ` set (write_units (h i)) \<subseteq> dom (map_of m)"
    if "i \<in> set (tx_list g @ aborted_txs g) \<union> set (tx_list g2 @ aborted_txs g2)" for i
    using that assms(1,2) unfolding st F(2) dom2 acg_wf_def
    by (metis (no_types, lifting) Un_iff in1 in2 le_supI1 le_supI2)
  show "acg_wf (ACG_merge g g2)"
    unfolding acg_wf_def M using F(3) assms(1) each d dj by (auto simp: acg_wf_def)
qed

definition graphs_ok :: "ACG list \<Rightarrow> u64 multiset \<Rightarrow> bool" where
  "graphs_ok gs M \<longleftrightarrow> (\<forall>g\<in>set gs. acg_wf g) \<and> sum_list (map acg_ids gs) = M"

lemma merge_pairs_ok:
  "graphs_ok gs M \<Longrightarrow> (\<And>x. count M x \<le> 1) \<Longrightarrow> graphs_ok (merge_pairs gs) M"
proof (induction gs arbitrary: M rule: merge_pairs.induct)
  case (1 l r gs)
  define N where "N = sum_list (map acg_ids gs)"
  have M: "M = acg_ids l + acg_ids r + N" using "1.prems"(1) by (simp add: graphs_ok_def N_def ac_simps)
  have le: "count (acg_ids l) x + count (acg_ids r) x + count N x \<le> 1" for x
    using "1.prems"(2) [of x] by (simp add: M)
  have dj: "set_mset (acg_ids l) \<inter> set_mset (acg_ids r) = {}"
  proof (rule ccontr)
    assume "\<not> ?thesis"
    then obtain x where "0 < count (acg_ids l) x" "0 < count (acg_ids r) x" by auto
    with le [of x] show False by linarith
  qed
  have wf: "acg_wf l" "acg_wf r" "graphs_ok gs N"
    using "1.prems"(1) by (simp_all add: graphs_ok_def N_def)
  have cN: "count N x \<le> 1" for x using le [of x] by simp
  note mg = ACG_merge_wf [OF wf(1,2) dj]
  show ?case using "1.IH" [OF wf(3) cN] mg by (simp add: graphs_ok_def M)
qed simp_all

lemma merge_rounds_ok:
  assumes "graphs_ok gs M" "\<And>x. count M x \<le> 1" "gs \<noteq> []"
  shows "\<exists>g. merge_rounds gs = [g] \<and> acg_wf g \<and> acg_ids g = M"
  using assms
proof (induction gs rule: merge_rounds.induct)
  case (1 gs)
  show ?case
  proof (cases "length gs > 1")
    case True
    then have "merge_pairs gs \<noteq> []" using length_merge_pairs [of gs] by auto
    then show ?thesis
      using "1.IH" [OF True merge_pairs_ok [OF "1.prems"(1,2)] "1.prems"(2)] True
      by (subst merge_rounds.simps) simp
  next
    case False
    with "1.prems" show ?thesis
      by (subst merge_rounds.simps) (cases gs; auto simp: graphs_ok_def)
  qed
qed

lemma construct_chunks_ok:
  "\<forall>c\<in>set cs. distinct (map sim_id c) \<Longrightarrow>
     graphs_ok (map (construct h) cs) (mset (map sim_id (concat cs)))"
  by (induction cs) (auto simp: graphs_ok_def construct_wf)

lemma par_construct_wf:
  assumes "distinct (map sim_id sims)" "par_construct ncpu h sims = Some g"
  shows "acg_wf g" "acg_ids g = mset (map sim_id sims)"
proof -
  define k where "k = max (length sims div ncpu) 1"
  define gs where "gs = map (construct h) (chunks k sims)"
  have k: "0 < k" by (simp add: k_def)
  have cc: "concat (chunks k sims) = sims" by (rule concat_chunks [OF k])
  have "distinct (concat (map (map sim_id) (chunks k sims)))"
    using assms(1) unfolding map_concat [symmetric] cc .
  then have "\<forall>c\<in>set (chunks k sims). distinct (map sim_id c)"
    by (auto simp: distinct_concat_iff)
  from construct_chunks_ok [OF this] have ok: "graphs_ok gs (mset (map sim_id sims))"
    by (simp add: gs_def cc)
  have cnt: "count (mset (map sim_id sims)) x \<le> 1" for x
    using assms(1) by (simp add: distinct_count_atmost_1)
  have def: "par_construct ncpu h sims = (case merge_rounds gs of [] \<Rightarrow> None | g # _ \<Rightarrow> Some g)"
    by (simp add: par_construct_def par_construct_with_def gs_def k_def)
  have ne: "gs \<noteq> []"
    using assms(2) by (auto simp: def merge_rounds.simps)
  show "acg_wf g" "acg_ids g = mset (map sim_id sims)"
    using merge_rounds_ok [OF ok cnt ne] assms(2) by (auto simp: def)
qed

lemma par_construct_None_iff:
  "par_construct ncpu h sims = None \<longleftrightarrow> sims = []"
proof -
  have len: "merge_rounds gs = [] \<longleftrightarrow> gs = []" for gs
  proof (induction gs rule: merge_rounds.induct)
    case (1 gs)
    then show ?case
      using length_merge_pairs [of gs] by (subst merge_rounds.simps) (auto simp del: length_0_conv simp: length_0_conv [symmetric])
  qed
  show ?thesis
    by (auto simp: par_construct_def par_construct_with_def chunks_eq_Nil_iff len merge_rounds.simps [of "[]"]
        split: list.splits)
qed


text \<open>Parallel construction panics exactly on an empty simulation result.  With at least one
  transaction it returns a graph; with none the final \<open>unwrap\<close> of the first sub-graph fails, which
  aborts the process in the release profile.  \<open>_execute\<close> reaches this when a batch is empty or when
  every simulation fails.\<close>

theorem par_construct_panics_iff_empty:
  "par_construct ncpu h sims = None \<longleftrightarrow> sims = []"
  by (rule par_construct_None_iff)

section \<open>Sorting and reordering neither panic nor lose transactions\<close>

lemma sort_address_frame:
  assumes "sort_address lcw h a = (h', a')"
  shows "store_frame h h'" "addr_address a' = addr_address a"
proof -
  obtain h1 r1 w2 r2 where p: "ReadUnits_sort h (addr_read_units a) = (h1, r1)"
      "WriteUnits_sort lcw h1 (addr_write_units a) r1 = (h', w2, r2)"
    and a': "a' = a\<lparr>addr_read_units := r2, addr_write_units := w2\<rparr>"
    using assms by (auto simp: sort_address_def split: prod.splits)
  show "store_frame h h'"
    using ReadUnits_sort_frame [OF p(1)] WriteUnits_sort_frame(1) [OF p(2)] by (rule store_frame_trans)
  show "addr_address a' = addr_address a" by (simp add: a')
qed

text \<open>The parts of a graph that sorting leaves alone.\<close>

definition same_shape :: "ACG \<Rightarrow> ACG \<Rightarrow> bool" where
  "same_shape g g' \<longleftrightarrow> store_frame (store g) (store g') \<and> tx_list g' = tx_list g \<and>
     aborted_txs g' = aborted_txs g \<and> dom (map_of (addresses g')) = dom (map_of (addresses g)) \<and>
     (addresses_ok (addresses g) \<longrightarrow> addresses_ok (addresses g'))"

lemma same_shape_wf:
  assumes "same_shape g g'" "acg_wf g"
  shows "acg_wf g'" "acg_ids g' = acg_ids g"
  using assms store_frameD [of "store g" "store g'"]
  by (simp_all add: same_shape_def acg_wf_def acg_ids_def)

lemma sort_addresses_ok:
  assumes "set ks \<subseteq> dom (map_of (addresses g))" "addresses_ok (addresses g)"
  shows "\<exists>g'. sort_addresses lcw ks g = Some g' \<and> same_shape g g'"
  using assms
proof (induction ks arbitrary: g)
  case Nil
  then show ?case by (simp add: same_shape_def)
next
  case (Cons k ks)
  obtain a where a: "map_of (addresses g) k = Some a" using Cons.prems(1) by auto
  obtain h a' where s: "sort_address lcw (store g) a = (h, a')" by (metis surj_pair)
  define g1 where "g1 = g\<lparr>store := h, addresses := AList.update k a' (addresses g)\<rparr>"
  have ok1: "addresses_ok (addresses g1)"
    using Cons.prems(2) addresses_ok_map_of [OF Cons.prems(2) a] sort_address_frame(2) [OF s]
    by (simp add: g1_def addresses_ok_update)
  have dom1: "dom (map_of (addresses g1)) = dom (map_of (addresses g))"
    using a by (auto simp: g1_def split: if_splits)
  obtain g' where g': "sort_addresses lcw ks g1 = Some g'" "same_shape g1 g'"
    using Cons.IH [of g1] Cons.prems(1) ok1 dom1 by auto
  have "same_shape g g'"
    using g'(2) sort_address_frame(1) [OF s] ok1 dom1
    by (auto simp: same_shape_def g1_def intro: store_frame_trans)
  with g'(1) show ?case by (simp add: a s g1_def)
qed

lemma set_address_rank:
  assumes "addresses_ok (addresses g)"
  shows "set (address_rank g) = dom (map_of (addresses g))"
  using assms by (force simp: address_rank_def dom_map_of_conv_image_fst dest: addresses_okD)

lemma hierarchcial_sort_ok:
  assumes "acg_wf g"
  shows "\<exists>g'. hierarchcial_sort lcw g = Some g' \<and> acg_wf g' \<and> acg_ids g' = acg_ids g"
proof -
  have ok: "addresses_ok (addresses g)" using assms by (simp add: acg_wf_def)
  obtain g' where "hierarchcial_sort lcw g = Some g'" "same_shape g g'"
    using sort_addresses_ok [of "address_rank g" g lcw] ok set_address_rank [OF ok]
    by (auto simp: hierarchcial_sort_def)
  with same_shape_wf [OF _ assms] show ?thesis by blast
qed

lemma reorder_seq_ok:
  assumes "unit_address ` set (write_units t) \<subseteq> dom (map_of (addresses g))" "write_units t \<noteq> []"
  shows "\<exists>s. reorder_seq g t = Some s"
  using assms by (auto simp: reorder_seq_def Let_def dom_def)

lemma reorder_targets_ok:
  assumes "acg_wf g" "distinct is" "set is \<inter> set (tx_list g @ aborted_txs g) = {}"
    and "\<forall>i\<in>set is. tx_id (store g i) = i \<and> itx_id (raw_tx (store g i)) = i \<and> write_units (store g i) \<noteq> [] \<and>
           unit_address ` set (write_units (store g i)) \<subseteq> dom (map_of (addresses g))"
  shows "\<exists>g'. reorder_targets is g = Some g' \<and> acg_wf g' \<and> acg_ids g' = acg_ids g + mset is"
  using assms
proof (induction "is" arbitrary: g)
  case (Cons i "is")
  obtain s where s: "reorder_seq g (store g i) = Some s"
    using reorder_seq_ok [of "store g i" g] Cons.prems(4) by auto
  define g1 where "g1 = g\<lparr>store := (store g)(i := set_sequence s (store g i)),
    tx_list := set_insert (tx_id (store g i)) (tx_list g)\<rparr>"
  have i: "tx_id (store g i) = i" "i \<notin> set (tx_list g)" "i \<notin> set (aborted_txs g)"
    using Cons.prems(3,4) by auto
  have wf1: "acg_wf g1"
    using Cons.prems(1,4) i by (auto simp: acg_wf_def g1_def set_sequence_def)
  have ids1: "acg_ids g1 = add_mset i (acg_ids g)"
    using i by (simp add: acg_ids_def g1_def mset_set_insert_fresh)
  have next1: "\<forall>j\<in>set is. tx_id (store g1 j) = j \<and> itx_id (raw_tx (store g1 j)) = j \<and> write_units (store g1 j) \<noteq> [] \<and>
      unit_address ` set (write_units (store g1 j)) \<subseteq> dom (map_of (addresses g1))"
    using Cons.prems(4) by (auto simp: g1_def set_sequence_def)
  have fresh1: "set is \<inter> set (tx_list g1 @ aborted_txs g1) = {}"
    using Cons.prems(2,3) i by (auto simp: g1_def)
  obtain g' where "reorder_targets is g1 = Some g'" "acg_wf g'" "acg_ids g' = acg_ids g1 + mset is"
    using Cons.IH [OF wf1 _ fresh1 next1] Cons.prems(2) by auto
  with s ids1 show ?case by (simp add: g1_def)
qed simp

lemma reorder_ok:
  assumes "acg_wf g"
  shows "\<exists>g'. reorder g = Some g' \<and> acg_wf g' \<and> acg_ids g' = acg_ids g"
proof -
  define idx where "idx = filter (\<lambda>i. aborted (store g i)) (tx_list g)"
  define ts where "ts = sort_key (\<lambda>i. tx_id (store g i)) (aborted_txs g @ idx)"
  define keep where "keep = filter (\<lambda>i. i \<notin> set idx) (tx_list g)"
  define targets where "targets = filter (\<lambda>i. reorderable (store g i)) ts"
  define rest where "rest = filter (\<lambda>i. \<not> reorderable (store g i)) ts"
  define g1 where "g1 = g\<lparr>tx_list := keep, aborted_txs := rest\<rparr>"
  have r: "reorder g = reorder_targets targets g1"
    by (simp add: reorder_def extract_aborted_txs_def Let_def comp_def g1_def targets_def rest_def
        ts_def keep_def idx_def)
  have keep: "keep = filter (\<lambda>i. \<not> aborted (store g i)) (tx_list g)"
    unfolding keep_def idx_def by (rule filter_cong) auto
  have ts: "mset ts = mset (aborted_txs g) + mset idx" by (simp add: ts_def)
  have all: "mset keep + mset rest + mset targets = acg_ids g"
  proof -
    have "mset rest + mset targets = mset ts"
      unfolding rest_def targets_def using partition_mset [of "\<lambda>i. reorderable (store g i)" ts] by simp
    moreover have "mset idx + mset keep = mset (tx_list g)"
      unfolding idx_def keep by (rule partition_mset)
    ultimately show ?thesis using ts by (simp add: acg_ids_def ac_simps)
  qed
  have d: "distinct (keep @ rest @ targets)"
  proof -
    have "mset (keep @ rest @ targets) = mset (tx_list g @ aborted_txs g)"
      using all by (simp add: acg_ids_def ac_simps)
    then show ?thesis using assms unfolding acg_wf_def by (metis mset_eq_imp_distinct_iff)
  qed
  have sub: "set (keep @ rest @ targets) = set (tx_list g @ aborted_txs g)"
    using arg_cong [OF all, of set_mset] by (auto simp: acg_ids_def)
  have each: "tx_id (store g i) = i \<and> itx_id (raw_tx (store g i)) = i \<and> unit_address ` set (write_units (store g i)) \<subseteq> dom (map_of (addresses g))"
    if "i \<in> set (keep @ rest @ targets)" for i
    using assms that unfolding sub acg_wf_def by blast
  have wf1: "acg_wf g1"
    using assms d each by (auto simp: acg_wf_def g1_def)
  have t: "\<forall>i\<in>set targets. tx_id (store g1 i) = i \<and> itx_id (raw_tx (store g1 i)) = i \<and> write_units (store g1 i) \<noteq> [] \<and>
      unit_address ` set (write_units (store g1 i)) \<subseteq> dom (map_of (addresses g1))"
    using each by (auto simp: g1_def targets_def reorderable_def)
  have "\<exists>g'. reorder_targets targets g1 = Some g' \<and> acg_wf g' \<and> acg_ids g' = acg_ids g1 + mset targets"
    by (rule reorder_targets_ok [OF wf1 _ _ t]) (use d in \<open>auto simp: g1_def\<close>)
  moreover have "acg_ids g1 + mset targets = acg_ids g"
    using all by (simp add: acg_ids_def g1_def)
  ultimately show ?thesis unfolding r by simp
qed

text \<open>C16: Sorting and reordering a constructed graph never panic and keep every transaction.  For a
  non-empty batch with distinct ids, the chain \<open>par_construct\<close>, \<open>hierarchcial_sort\<close>, \<open>reorder\<close>
  always returns a graph, and the transaction table and the abort list of that graph together hold
  each id of the batch exactly once.\<close>

theorem graph_pipeline_keeps_transactions:
  assumes "distinct (map sim_id sims)" "sims \<noteq> []"
  shows "\<exists>g0 g1 g2. par_construct ncpu h sims = Some g0 \<and> hierarchcial_sort lcw g0 = Some g1 \<and>
           reorder g1 = Some g2 \<and> mset (tx_list g2 @ aborted_txs g2) = mset (map sim_id sims)"
proof -
  obtain g0 where g0: "par_construct ncpu h sims = Some g0"
    using assms(2) par_construct_None_iff [of ncpu h sims] by auto
  note wf0 = par_construct_wf [OF assms(1) g0]
  obtain g1 where g1: "hierarchcial_sort lcw g0 = Some g1" "acg_wf g1" "acg_ids g1 = acg_ids g0"
    using hierarchcial_sort_ok [OF wf0(1)] by blast
  obtain g2 where "reorder g1 = Some g2" "acg_ids g2 = acg_ids g1"
    using reorder_ok [OF g1(2)] by blast
  with g0 g1 wf0(2) show ?thesis by (auto simp: acg_ids_def)
qed


section \<open>What merging keeps of the units\<close>

lemma Address_merge_units:
  assumes "Address_merge h a b = (h', a')" "\<not> (addr_first_updater_flag a \<and> addr_first_updater_flag b)"
  shows "wu_units (addr_write_units a') = wu_units (addr_write_units a) @ wu_units (addr_write_units b)"
    "ru_units (addr_read_units a') = ru_units (addr_read_units a) @ ru_units (addr_read_units b)"
  using assms by (auto simp: Address_merge_def)

lemma merge_address_fold_other:
  "k \<notin> fst ` set bs \<Longrightarrow> fold merge_address bs (h, m) = (h', m') \<Longrightarrow> map_of m' k = map_of m k"
proof (induction bs arbitrary: h m)
  case (Cons b bs)
  obtain h1 m1 where st: "merge_address b (h, m) = (h1, m1)" by (cases "merge_address b (h, m)")
  then have "map_of m1 k = map_of m k"
    using Cons.prems(1) by (auto simp: merge_address_def split: option.splits prod.splits)
  then show ?case using Cons st by simp
qed simp

lemma merge_address_fold_units:
  assumes "fold merge_address bs (h, m) = (h', m')" "distinct (map fst bs)"
    and "\<not> (flag_at m k \<and> flag_at bs k)"
  shows "wu_at m' k = wu_at m k @ wu_at bs k" "ru_at m' k = ru_at m k @ ru_at bs k"
proof -
  have "wu_at m' k = wu_at m k @ wu_at bs k \<and> ru_at m' k = ru_at m k @ ru_at bs k"
    using assms
  proof (induction bs arbitrary: h m)
    case Nil
    then show ?case by (simp add: wu_at_def ru_at_def)
  next
    case (Cons b bs)
    obtain j b1 where b: "b = (j, b1)" by (cases b)
    obtain h1 m1 where st: "merge_address b (h, m) = (h1, m1)" by (cases "merge_address b (h, m)")
    have rest: "fold merge_address bs (h1, m1) = (h', m')" using Cons.prems(1) st by simp
    show ?case
    proof (cases "j = k")
      case True
      have out: "map_of m' k = map_of m1 k"
        by (rule merge_address_fold_other [OF _ rest]) (use Cons.prems(2) True b in auto)
      have none: "map_of bs k = None"
        using Cons.prems(2) True b by (auto simp: map_of_eq_None_iff)
      show ?thesis
      proof (cases "map_of m k")
        case None
        then show ?thesis using st True b out none
          by (auto simp: merge_address_def wu_at_def ru_at_def)
      next
        case (Some a)
        obtain h2 a' where mg: "Address_merge h a b1 = (h2, a')" by (metis surj_pair)
        have "\<not> (addr_first_updater_flag a \<and> addr_first_updater_flag b1)"
          using Cons.prems(3) Some True b by (simp add: flag_at_def)
        note U = Address_merge_units [OF mg this]
        have "map_of m1 k = Some a'" using st True b Some mg by (auto simp: merge_address_def)
        then show ?thesis using U Some True b out by (simp add: wu_at_def ru_at_def)
      qed
    next
      case False
      have same: "map_of m1 k = map_of m k"
        using st False b by (auto simp: merge_address_def split: option.splits prod.splits)
      then have "\<not> (flag_at m1 k \<and> flag_at bs k)"
        using Cons.prems(3) False b by (simp add: flag_at_def)
      from Cons.IH [OF rest _ this] Cons.prems(2) show ?thesis
        using same False b by (simp add: wu_at_def ru_at_def)
    qed
  qed
  then show "wu_at m' k = wu_at m k @ wu_at bs k" "ru_at m' k = ru_at m k @ ru_at bs k" by blast+
qed

text \<open>C17: Merging two sub-graphs keeps all units of an address that does not have an updater on
  both sides.\<close>

theorem merge_keeps_units:
  assumes "acg_wf g2" "\<not> (flag_at (addresses g) k \<and> flag_at (addresses g2) k)"
  shows "wu_at (addresses (ACG_merge g g2)) k = wu_at (addresses g) k @ wu_at (addresses g2) k \<and>
         ru_at (addresses (ACG_merge g g2)) k = ru_at (addresses g) k @ ru_at (addresses g2) k"
proof -
  obtain h m where f: "fold merge_address (addresses g2) (merge_store g g2, addresses g) = (h, m)"
    by (metis surj_pair)
  have "distinct (map fst (addresses g2))"
    using assms(1) by (simp add: acg_wf_def addresses_ok_def)
  from merge_address_fold_units [OF f this assms(2)] show ?thesis
    by (simp add: ACG_merge_def f)
qed

section \<open>Sample batches\<close>

definition sample_tx :: EthereumTransaction where
  "sample_tx = \<lparr>tt_sighash = 0, tt_from = Some 7, tt_to = Some 9, tt_value = Some 0, tt_data = None,
     tt_gas = Some 21000, tt_nonce = Some 0, tt_access_list = None\<rparr>"

definition sample_sim :: "u64 \<Rightarrow> h256 list \<Rightarrow> h256 list \<Rightarrow> SimulatedTransaction" where
  "sample_sim i rs ws = SimulatedTransaction_new
     \<lparr>read_set = [(9, map (\<lambda>k. (k, 0)) rs)], write_set = [(9, map (\<lambda>k. (k, 1)) ws)]\<rparr>
     [Modify 9 \<lparr>balance = 0, nonce = 0\<rparr> None (map (\<lambda>k. (k, ucast i + 1)) ws) False] []
     \<lparr>itx_tx = sample_tx, itx_id = i\<rparr>"

definition sample_store :: tx_store where
  "sample_store = (\<lambda>i. fst (Transaction_from (sample_sim i [] [])))"


text \<open>The in-degree of a merged address can wrap around.  Two transactions that read slots 1
  and 2 and write slot 1, one per worker: the merge subtracts the degree of the aborted write unit
  (one) from an in-degree of zero.  A build with overflow checks panics here; the release build
  continues with the largest 32-bit degree, which ranks the address last.\<close>

theorem merge_in_degree_wraps:
  "case par_construct 2 sample_store [sample_sim 0 [1, 2] [1], sample_sim 1 [1, 2] [1]] of
     None \<Rightarrow> False
   | Some g \<Rightarrow> map_option in_degree (map_of (addresses g) 1) = Some (- 1)"
  by code_simp

section \<open>Witnesses\<close>

text \<open>One address with two readers and three writers, one of them an updater.\<close>

definition sample_graph :: ACG where
  "sample_graph = construct sample_store
     [sample_sim 0 [1] [], sample_sim 1 [1] [1], sample_sim 2 [] [1], sample_sim 3 [2] [1]]"

definition sample_address :: Address where
  "sample_address = the (map_of (addresses sample_graph) 1)"

definition sample_sorted :: tx_store where
  "sample_sorted = fst (sort_address False (store sample_graph) sample_address)"

definition sample_reader :: Unit where
  "sample_reader = Unit_new 0 Read 1 False"

definition sample_updater :: Unit where
  "sample_updater = Unit_new 1 Write 1 True"

definition sample_writer :: Unit where
  "sample_writer = (Unit_new 3 Write 1 False)\<lparr>wr_dependencies := 1\<rparr>"

lemma sample_sort:
  "sort_address False (store sample_graph) sample_address =
     (sample_sorted, snd (sort_address False (store sample_graph) sample_address))"
  by (simp add: sample_sorted_def)

lemma sample_members:
  "sample_reader \<in> set (ru_units (addr_read_units sample_address))"
  "sample_updater \<in> set (wu_units (addr_write_units sample_address))"
  "sample_writer \<in> set (wu_units (addr_write_units sample_address))"
  "sample_updater \<in> set (wu_at (addresses sample_graph) 1)" "co_located sample_updater"
  "\<not> unit_aborted sample_sorted sample_reader" "\<not> unit_aborted sample_sorted sample_updater"
  "\<not> unit_is_sorted (store sample_graph) sample_writer"
  "unit_tx sample_writer \<notin> unit_tx ` set (ru_units (addr_read_units sample_address))"
  by code_simp+

theorem sort_address_readers_first_witness:
  "sample_reader \<in> set (ru_units (addr_read_units sample_address)) \<and>
   sample_updater \<in> set (wu_units (addr_write_units sample_address)) \<and>
   unit_sequence sample_sorted sample_reader \<le> unit_sequence sample_sorted sample_updater"
  using sort_address_readers_first
    [OF sample_sort sample_members(1) sample_members(6) sample_members(2) sample_members(7)]
    sample_members(1,2) by simp

theorem sort_address_fresh_writer_witness:
  "\<not> unit_is_sorted (store sample_graph) sample_writer \<and>
   unit_sequence sample_sorted sample_updater \<noteq> unit_sequence sample_sorted sample_writer \<and>
   unit_sequence sample_sorted sample_reader < unit_sequence sample_sorted sample_writer"
proof -
  have "unit_tx sample_updater \<noteq> unit_tx sample_writer" by code_simp
  then show ?thesis
    using sort_address_fresh_writer [OF sample_sort sample_members(3) sample_members(8) sample_members(9)]
      sample_members by blast
qed

theorem construct_single_updater_witness:
  "\<exists>u\<in>set (wu_at (addresses sample_graph) 1). co_located u \<and>
     (\<forall>v\<in>set (wu_at (addresses sample_graph) 1). co_located v \<longrightarrow> unit_tx v = unit_tx u)"
  using construct_single_updater [of _ sample_store
      "[sample_sim 0 [1] [], sample_sim 1 [1] [1], sample_sim 2 [] [1], sample_sim 3 [2] [1]]" 1]
    sample_members(4,5) unfolding sample_graph_def by blast

theorem construct_registers_accesses_witness:
  "(\<exists>u\<in>set (wu_at (addresses sample_graph) 1). unit_tx u = 3) \<and>
   \<not> (\<exists>u\<in>set (ru_at (addresses sample_graph) 1). unit_tx u = 3)"
proof -
  have "distinct (map sim_id [sample_sim 0 [1] [], sample_sim 1 [1] [1], sample_sim 2 [] [1], sample_sim 3 [2] [1]])"
    by code_simp
  from construct_registers_accesses [OF this, where h = sample_store and k = 1 and i = 3, folded sample_graph_def]
  have iff: "(\<exists>u\<in>set (wu_at (addresses sample_graph) 1). unit_tx u = 3) \<longleftrightarrow>
      3 \<in> set (tx_list sample_graph) \<and> 1 \<in> ai_write_keys (abort_info (store sample_graph 3))"
    "(\<exists>u\<in>set (ru_at (addresses sample_graph) 1). unit_tx u = 3) \<longleftrightarrow>
      3 \<in> set (tx_list sample_graph) \<and> 1 \<in> ai_read_keys (abort_info (store sample_graph 3))"
    by blast+
  have "3 \<in> set (tx_list sample_graph)" "1 \<in> ai_write_keys (abort_info (store sample_graph 3))"
    "1 \<notin> ai_read_keys (abort_info (store sample_graph 3))"
    by code_simp+
  then show ?thesis unfolding iff by blast
qed

theorem graph_pipeline_keeps_transactions_witness:
  "\<exists>g0 g1 g2. par_construct 2 sample_store [sample_sim 0 [1] [2], sample_sim 1 [2] [1]] = Some g0 \<and>
     hierarchcial_sort False g0 = Some g1 \<and> reorder g1 = Some g2 \<and>
     mset (tx_list g2 @ aborted_txs g2) = {#0, 1#}"
proof -
  have d: "distinct (map sim_id [sample_sim 0 [1] [2], sample_sim 1 [2] [1]])"
    "mset (map sim_id [sample_sim 0 [1] [2], sample_sim 1 [2] [1]]) = {#0, 1#}"
    by (simp_all add: sample_sim_def SimulatedTransaction_new_def)
  from graph_pipeline_keeps_transactions [OF d(1), where ncpu = 2 and h = sample_store and lcw = False] show ?thesis
    unfolding d(2) by blast
qed

theorem merge_keeps_units_witness:
  "map unit_tx (wu_at (addresses (ACG_merge (construct sample_store [sample_sim 0 [1] [1]])
      (construct sample_store [sample_sim 1 [] [1]]))) 1) = [0, 1]"
proof -
  have wf: "acg_wf (construct sample_store [sample_sim 1 [] [1]])"
    by (rule construct_wf) simp
  have flag: "\<not> (flag_at (addresses (construct sample_store [sample_sim 0 [1] [1]])) 1 \<and>
      flag_at (addresses (construct sample_store [sample_sim 1 [] [1]])) 1)"
    by code_simp
  have "map unit_tx (wu_at (addresses (construct sample_store [sample_sim 0 [1] [1]])) 1 @
      wu_at (addresses (construct sample_store [sample_sim 1 [] [1]])) 1) = [0, 1]"
    by code_simp
  with merge_keeps_units [OF wf flag] show ?thesis by simp
qed

end
