(* ===== verification/Cds_Scheduler.thy ===== *)
theory Cds_Scheduler
  imports Conflict_Graph_Props
begin

text \<open>
  The conflict detection scheduler (\<open>crates/sslab-execution/chase/src/cds_scheduler.rs\<close>) and the
  schedule it produces (\<open>ScheduledInfo\<close> of \<open>chase_core.rs\<close>).  Transactions that survive the
  conflict graph are grouped by sequence number; the first group is cut into dependency chains, the
  later groups and the aborted transactions are placed into epochs, each into the first epoch whose
  write keys it does not touch.  The flag \<open>rayon\<close> of the Rust functions selects parallel iterators
  whose \<open>collect\<close> keeps the order, so both settings denote the same lists.  The lemmas show that
  placement is a permutation of the candidates, that transactions of one epoch do not touch the keys
  earlier members of the epoch write, that every epoch choice is minimal, and that chain building
  orders the first group topologically and panics exactly on a dependency cycle.
\<close>

section \<open>Transactions with their keys\<close>

record TxWithKeys =
  twk_id :: u64
  twk_read_keys :: "h256 set"
  twk_write_keys :: "h256 set"
  twk_finalized :: FinalizedTransaction

definition from_transaction :: "Transaction \<Rightarrow> TxWithKeys" where
  "from_transaction t =
     \<lparr>twk_id = fin_id (to_finalized t), twk_read_keys = ai_read_keys (abort_info t),
      twk_write_keys = ai_write_keys (abort_info t), twk_finalized = to_finalized t\<rparr>"

section \<open>Commit waves\<close>

definition add_to_groups :: "Transaction \<Rightarrow> Transaction list list \<Rightarrow> Transaction list list" where
  "add_to_groups t groups =
     (if sequence t = sequence (hd (last groups))
      then butlast groups @ [last groups @ [t]]
      else groups @ [[t]])"

definition group_by_sequence :: "Transaction list \<Rightarrow> Transaction list list" where
  "group_by_sequence txs =
     (case sort_key (\<lambda>t. (sequence t, tx_id t)) txs of
        [] \<Rightarrow> []
      | t # ts \<Rightarrow> fold add_to_groups ts [[t]])"

section \<open>Epoch placement\<close>

function find_epoch_from :: "h256 set \<Rightarrow> h256 set list \<Rightarrow> nat \<Rightarrow> nat" where
  "find_epoch_from keys epoch_map epoch =
     (if epoch < length epoch_map \<and> keys \<inter> epoch_map ! epoch \<noteq> {}
      then find_epoch_from keys epoch_map (epoch + 1) else epoch)"
  by pat_completeness auto
termination by (relation "measure (\<lambda>(_, em, e). length em - e)") auto

declare find_epoch_from.simps [simp del]

definition find_minimum_epoch :: "h256 set \<Rightarrow> h256 set \<Rightarrow> h256 set list \<Rightarrow> nat" where
  "find_minimum_epoch rk wk epoch_map = find_epoch_from (rk \<union> wk) epoch_map 0"

text \<open>The body of the two placement loops: extend the chosen epoch or open a new one.\<close>

definition place_tx :: "h256 set \<Rightarrow> h256 set \<Rightarrow> 'a \<Rightarrow> h256 set list \<times> 'a list list \<Rightarrow>
    h256 set list \<times> 'a list list" where
  "place_tx rk wk x = (\<lambda>(epoch_map, schedule).
     let epoch = find_minimum_epoch rk wk epoch_map
     in if epoch < length epoch_map
        then (epoch_map[epoch := epoch_map ! epoch \<union> wk], schedule[epoch := schedule ! epoch @ [x]])
        else (epoch_map @ [wk], schedule @ [[x]]))"

definition place_into_epochs :: "TxWithKeys list \<Rightarrow> (TxWithKeys \<Rightarrow> 'a) \<Rightarrow> 'a list list" where
  "place_into_epochs candidates map_tx =
     snd (fold (\<lambda>t. place_tx (twk_read_keys t) (twk_write_keys t) (map_tx t)) candidates ([], []))"

definition schedule_conflict_zone_finalized :: "Transaction list \<Rightarrow> FinalizedTransaction list list" where
  "schedule_conflict_zone_finalized txs =
     place_into_epochs (sort_key twk_id (map from_transaction txs)) twk_finalized"

definition schedule_conflict_zone_aborted :: "bool \<Rightarrow> Transaction list \<Rightarrow> AbortedTransaction list list" where
  "schedule_conflict_zone_aborted disable_rescheduling txs =
     (if disable_rescheduling then []
      else let txs' = map (tx_init \<circ> clear_write_units) txs;
               candidates = map (\<lambda>t. let a = to_aborted t in
                 (AbortedTransaction_id a, ab_prev_read_keys a, ab_prev_write_keys a, a)) txs'
           in snd (fold (\<lambda>(_, rk, wk, a). place_tx rk wk a) (sort_key fst candidates) ([], [])))"

section \<open>Dependency chains of the first wave\<close>

definition depends_on :: "TxWithKeys list \<Rightarrow> nat list list" where
  "depends_on txs = map (\<lambda>i. filter (\<lambda>j. i \<noteq> j \<and> twk_read_keys (txs ! i) \<inter> twk_write_keys (txs ! j) \<noteq> {})
     [0..<length txs]) [0..<length txs]"

definition ready :: "nat list list \<Rightarrow> bool list \<Rightarrow> nat \<Rightarrow> bool" where
  "ready deps assigned i \<longleftrightarrow> \<not> assigned ! i \<and> list_all (\<lambda>j. assigned ! j) (deps ! i)"

definition unassigned :: "bool list \<Rightarrow> nat" where
  "unassigned assigned = length (filter Not assigned)"

lemma unassigned_update:
  "i < length assigned \<Longrightarrow> \<not> assigned ! i \<Longrightarrow> unassigned (assigned[i := True]) < unassigned assigned"
proof (induction assigned arbitrary: i)
  case (Cons a assigned)
  then show ?case by (cases i) (auto simp: unassigned_def)
qed simp

function extend_chain :: "nat list list \<Rightarrow> bool list \<Rightarrow> nat list \<Rightarrow> nat list \<times> bool list" where
  "extend_chain deps assigned chain =
     (case find (\<lambda>i. ready deps assigned i \<and> last chain \<in> set (deps ! i)) [0..<length assigned] of
        Some i \<Rightarrow> extend_chain deps (assigned[i := True]) (chain @ [i])
      | None \<Rightarrow> (chain, assigned))"
  by pat_completeness auto
termination
  by (relation "measure (\<lambda>(_, assigned, _). unassigned assigned)")
    (auto simp: find_Some_iff ready_def unassigned_update)

declare extend_chain.simps [simp del]

lemma extend_chain_unassigned: "unassigned (snd (extend_chain deps assigned chain)) \<le> unassigned assigned"
proof (induction deps assigned chain rule: extend_chain.induct)
  case (1 deps assigned chain)
  show ?case
  proof (cases "find (\<lambda>i. ready deps assigned i \<and> last chain \<in> set (deps ! i)) [0..<length assigned]")
    case None
    then show ?thesis by (simp add: extend_chain.simps)
  next
    case (Some i)
    then have "unassigned (assigned[i := True]) < unassigned assigned"
      by (auto simp: find_Some_iff ready_def unassigned_update)
    with 1 [OF Some] show ?thesis by (subst extend_chain.simps) (simp add: Some)
  qed
qed

text \<open>The outer loop; \<^const>\<open>None\<close> is the panic of the \<open>expect\<close>.\<close>

function build_chains :: "nat list list \<Rightarrow> bool list \<Rightarrow> nat list list \<Rightarrow> nat list list option" where
  "build_chains deps assigned acc =
     (if \<not> list_ex Not assigned then Some acc
      else case find (ready deps assigned) [0..<length assigned] of
          None \<Rightarrow> None
        | Some start \<Rightarrow>
            (let (chain, assigned') = extend_chain deps (assigned[start := True]) [start]
             in build_chains deps assigned' (acc @ [chain])))"
  by pat_completeness auto
termination
proof (relation "measure (\<lambda>(_, assigned, _). unassigned assigned)", goal_cases)
  case (2 deps assigned acc start p chain assigned')
  then have "unassigned (assigned[start := True]) < unassigned assigned"
    by (auto simp: find_Some_iff ready_def unassigned_update)
  moreover have "unassigned assigned' \<le> unassigned (assigned[start := True])"
    using extend_chain_unassigned [of deps "assigned[start := True]" "[start]"] 2(3,4) by (metis snd_conv)
  ultimately show ?case by simp
qed simp

declare build_chains.simps [simp del]

definition build_conflict_free_chain_indices :: "TxWithKeys list \<Rightarrow> nat list list option" where
  "build_conflict_free_chain_indices txs =
     (if txs = [] then Some [] else build_chains (depends_on txs) (replicate (length txs) False) [])"

definition extract_conflict_free_chains :: "Transaction list \<Rightarrow> FinalizedTransaction list list option" where
  "extract_conflict_free_chains seq1_txs =
     (let txs = sort_key twk_id (map from_transaction seq1_txs)
      in if txs = [] then Some []
         else map_option (map (map (\<lambda>i. twk_finalized (txs ! i)))) (build_conflict_free_chain_indices txs))"

section \<open>The schedule\<close>

record ScheduledInfo =
  conflict_free_zone :: "FinalizedTransaction list list"
  conflict_zone_finalized :: "FinalizedTransaction list list"
  conflict_zone_aborted :: "AbortedTransaction list list"

definition build_cds_schedule :: "bool \<Rightarrow> Transaction list \<Rightarrow> Transaction list \<Rightarrow> ScheduledInfo option" where
  "build_cds_schedule disable_rescheduling txs aborted_list =
     (let groups = group_by_sequence (map clear_write_units txs);
          first_epoch_txs = (case groups of [] \<Rightarrow> [] | g # _ \<Rightarrow> g);
          seq2plus_txs = concat (tl groups)
      in map_option (\<lambda>zone.
           \<lparr>conflict_free_zone = zone,
            conflict_zone_finalized = schedule_conflict_zone_finalized seq2plus_txs,
            conflict_zone_aborted = schedule_conflict_zone_aborted disable_rescheduling aborted_list\<rparr>)
         (extract_conflict_free_chains first_epoch_txs))"

definition extract_schedule :: "bool \<Rightarrow> ACG \<Rightarrow> ScheduledInfo option \<times> ACG" where
  "extract_schedule disable_rescheduling g =
     (build_cds_schedule disable_rescheduling (map (store g) (tx_list g)) (map (store g) (aborted_txs g)),
      g\<lparr>tx_list := [], aborted_txs := [], addresses := []\<rparr>)"

definition first_pass_epochs :: "ScheduledInfo \<Rightarrow> FinalizedTransaction list list" where
  "first_pass_epochs s = conflict_free_zone s @ conflict_zone_finalized s"

definition scheduled_txs_len :: "ScheduledInfo \<Rightarrow> nat" where
  "scheduled_txs_len s = sum_list (map length (conflict_free_zone s @ conflict_zone_finalized s))"

definition aborted_txs_len :: "ScheduledInfo \<Rightarrow> nat" where
  "aborted_txs_len s = sum_list (map length (conflict_zone_aborted s))"

section \<open>Epoch placement is minimal, conflict-free and complete\<close>

lemma find_epoch_from_spec:
  "e \<le> find_epoch_from keys em e"
  "find_epoch_from keys em e < length em \<Longrightarrow> keys \<inter> em ! find_epoch_from keys em e = {}"
  "e \<le> e' \<Longrightarrow> e' < find_epoch_from keys em e \<Longrightarrow> e' < length em \<and> keys \<inter> em ! e' \<noteq> {}"
  "e \<le> length em \<Longrightarrow> find_epoch_from keys em e \<le> length em"
proof (induction keys em e rule: find_epoch_from.induct)
  case (1 keys em e)
  let ?c = "e < length em \<and> keys \<inter> em ! e \<noteq> {}"
  have eq: "find_epoch_from keys em e = (if ?c then find_epoch_from keys em (e + 1) else e)"
    by (rule find_epoch_from.simps)
  {
    case 1
    then show ?case using "1.IH"(1) by (auto simp: eq dest: Suc_leD)
  next
    case 2
    then show ?case using "1.IH"(2) by (auto simp: eq split: if_splits)
  next
    case 3
    then show ?case using "1.IH"(3) by (cases "e' = e") (auto simp: eq split: if_splits)
  next
    case 4
    then show ?case using "1.IH"(4) by (auto simp: eq)
  }
qed

text \<open>The epoch search returns the first epoch whose write keys are disjoint from the keys
  of the transaction, or the number of epochs when all of them conflict.\<close>

theorem find_minimum_epoch_least:
  "find_minimum_epoch rk wk em =
     (LEAST e. e = length em \<or> (e < length em \<and> (rk \<union> wk) \<inter> em ! e = {}))"
proof -
  note S = find_epoch_from_spec [where e = 0 and keys = "rk \<union> wk" and em = em]
  define r where "r = find_minimum_epoch rk wk em"
  have "r = length em \<or> (r < length em \<and> (rk \<union> wk) \<inter> em ! r = {})"
    using S(2,4) by (auto simp: r_def find_minimum_epoch_def)
  moreover have "r \<le> e" if "e = length em \<or> (e < length em \<and> (rk \<union> wk) \<inter> em ! e = {})" for e
  proof (rule ccontr)
    assume "\<not> r \<le> e"
    then have "e < length em \<and> (rk \<union> wk) \<inter> em ! e \<noteq> {}"
      using S(3) [OF le0, of e] by (simp add: r_def find_minimum_epoch_def)
    with that show False by simp
  qed
  ultimately have "(LEAST e. e = length em \<or> (e < length em \<and> (rk \<union> wk) \<inter> em ! e = {})) = r"
    by (rule Least_equality)
  then show ?thesis by (simp add: r_def)
qed

text \<open>The invariant of the placement loop over items with read and write keys.\<close>

definition epochs_ok :: "('a \<Rightarrow> h256 set) \<Rightarrow> ('a \<Rightarrow> h256 set) \<Rightarrow> h256 set list \<times> 'a list list \<Rightarrow> bool" where
  "epochs_ok R W = (\<lambda>(em, sch). length em = length sch \<and>
     (\<forall>e<length sch. em ! e = \<Union> (W ` set (sch ! e))) \<and>
     (\<forall>e<length sch. sorted_wrt (\<lambda>a b. (R b \<union> W b) \<inter> W a = {}) (sch ! e)) \<and>
     (\<forall>e<length sch. \<forall>b\<in>set (sch ! e). \<forall>e'<e. \<exists>a\<in>set (sch ! e'). (R b \<union> W b) \<inter> W a \<noteq> {}))"

lemma place_tx_ok:
  assumes "epochs_ok R W (em, sch)"
  shows "epochs_ok R W (place_tx (R x) (W x) x (em, sch))"
proof -
  define e where "e = find_minimum_epoch (R x) (W x) em"
  have len: "length em = length sch"
    and em: "\<And>e. e < length sch \<Longrightarrow> em ! e = \<Union> (W ` set (sch ! e))"
    and srt: "\<And>e. e < length sch \<Longrightarrow> sorted_wrt (\<lambda>a b. (R b \<union> W b) \<inter> W a = {}) (sch ! e)"
    and mn: "\<And>e b e'. e < length sch \<Longrightarrow> b \<in> set (sch ! e) \<Longrightarrow> e' < e \<Longrightarrow>
      \<exists>a\<in>set (sch ! e'). (R b \<union> W b) \<inter> W a \<noteq> {}"
    using assms by (auto simp: epochs_ok_def)
  have earlier: "\<exists>a\<in>set (sch ! e'). (R x \<union> W x) \<inter> W a \<noteq> {}" if "e' < e" for e'
    using find_epoch_from_spec(3) [where e = 0 and e' = e' and keys = "R x \<union> W x" and em = em] that em [of e'] len
    by (fastforce simp: e_def find_minimum_epoch_def)
  show ?thesis
  proof (cases "e < length em")
    case True
    have free: "(R x \<union> W x) \<inter> W a = {}" if "a \<in> set (sch ! e)" for a
      using find_epoch_from_spec(2) [where e = 0 and keys = "R x \<union> W x" and em = em] True em [of e] that len
      by (auto simp: e_def find_minimum_epoch_def)
    have P: "place_tx (R x) (W x) x (em, sch) = (em[e := em ! e \<union> W x], sch[e := sch ! e @ [x]])"
      using True by (simp add: place_tx_def e_def Let_def)
    have nth: "sch[e := sch ! e @ [x]] ! d = (if d = e then sch ! e @ [x] else sch ! d)"
      "em[e := em ! e \<union> W x] ! d = (if d = e then em ! e \<union> W x else em ! d)" for d
      using True len by (auto simp: nth_list_update)
    have "sorted_wrt (\<lambda>a b. (R b \<union> W b) \<inter> W a = {}) (sch ! e @ [x])"
      using srt [of e] True len free by (simp add: sorted_wrt_append)
    moreover have "\<exists>a\<in>set (if e' = e then sch ! e @ [x] else sch ! e'). (R b \<union> W b) \<inter> W a \<noteq> {}"
      if "d < length sch" "b \<in> set (if d = e then sch ! e @ [x] else sch ! d)" "e' < d" for d b e'
      using that mn [of d b e'] earlier [of e'] by (cases "d = e"; cases "b = x"; cases "e' = e"; force)
    ultimately show ?thesis
      unfolding P epochs_ok_def using len em srt True by (auto simp: nth)
  next
    case False
    then have el: "e = length sch"
      using find_epoch_from_spec(4) [where e = 0 and keys = "R x \<union> W x" and em = em] len by (simp add: e_def find_minimum_epoch_def)
    have P: "place_tx (R x) (W x) x (em, sch) = (em @ [W x], sch @ [[x]])"
      using False by (simp add: place_tx_def e_def Let_def)
    show ?thesis
      unfolding P epochs_ok_def using len em srt mn earlier el
      by (auto simp: nth_append less_Suc_eq)
  qed
qed

lemma place_fold_ok:
  "epochs_ok R W p \<Longrightarrow> epochs_ok R W (fold (\<lambda>x. place_tx (R x) (W x) x) xs p)"
proof (induction xs arbitrary: p)
  case (Cons x xs)
  obtain em sch where p: "p = (em, sch)" by (cases p)
  have "epochs_ok R W (place_tx (R x) (W x) x p)"
    unfolding p by (rule place_tx_ok) (use Cons.prems p in simp)
  then show ?case using Cons.IH by simp
qed simp

lemma place_tx_mset:
  assumes "length em = length sch"
  shows "mset (concat (snd (place_tx rk wk x (em, sch)))) = add_mset x (mset (concat sch))"
proof -
  have upd: "mset (concat (sch[e := sch ! e @ [x]])) = add_mset x (mset (concat sch))" if "e < length sch" for e
    using that
  proof (induction sch arbitrary: e)
    case (Cons a sch)
    then show ?case by (cases e) auto
  qed simp
  show ?thesis using assms by (auto simp: place_tx_def Let_def upd)
qed

lemma place_tx_map:
  assumes "length em = length sch"
  shows "place_tx rk wk (f x) (em, map (map f) sch) =
    (fst (place_tx rk wk x (em, sch)), map (map f) (snd (place_tx rk wk x (em, sch))))"
  using assms by (simp add: place_tx_def Let_def map_update)

lemma place_tx_length:
  "length (fst p) = length (snd p) \<Longrightarrow> length (fst (place_tx rk wk x p)) = length (snd (place_tx rk wk x p))"
  by (cases p) (simp add: place_tx_def Let_def)

lemma place_fold_map:
  assumes "length em = length sch"
  shows "fold (\<lambda>x. place_tx (R x) (W x) (f x)) xs (em, map (map f) sch) =
    (fst (fold (\<lambda>x. place_tx (R x) (W x) x) xs (em, sch)),
     map (map f) (snd (fold (\<lambda>x. place_tx (R x) (W x) x) xs (em, sch))))"
  using assms
proof (induction xs arbitrary: em sch)
  case (Cons x xs)
  show ?case
    using Cons.IH [OF place_tx_length [of "(em, sch)" "R x" "W x" x, simplified, OF Cons.prems]]
    by (simp add: place_tx_map [OF Cons.prems])
qed simp

lemma place_fold_mset:
  "length (fst p) = length (snd p) \<Longrightarrow>
     mset (concat (snd (fold (\<lambda>x. place_tx (R x) (W x) x) xs p))) = mset xs + mset (concat (snd p))"
proof (induction xs arbitrary: p)
  case (Cons x xs)
  show ?case
    using Cons.IH [OF place_tx_length [OF Cons.prems]] place_tx_mset [of "fst p" "snd p" "R x" "W x" x] Cons.prems
    by simp
qed simp

text \<open>The placement of items into epochs as a function of its own, with its three guarantees.\<close>

definition epochs_of :: "('a \<Rightarrow> h256 set) \<Rightarrow> ('a \<Rightarrow> h256 set) \<Rightarrow> 'a list \<Rightarrow> 'a list list" where
  "epochs_of R W xs = snd (fold (\<lambda>x. place_tx (R x) (W x) x) xs ([], []))"

lemma mset_epochs_of: "mset (concat (epochs_of R W xs)) = mset xs"
  using place_fold_mset [of "([], [])" R W xs] by (simp add: epochs_of_def)

lemma epochs_of_ok:
  shows "e < length (epochs_of R W xs) \<Longrightarrow>
      sorted_wrt (\<lambda>a b. (R b \<union> W b) \<inter> W a = {}) (epochs_of R W xs ! e)"
    and "e < length (epochs_of R W xs) \<Longrightarrow> b \<in> set (epochs_of R W xs ! e) \<Longrightarrow> e' < e \<Longrightarrow>
      \<exists>a\<in>set (epochs_of R W xs ! e'). (R b \<union> W b) \<inter> W a \<noteq> {}"
  using place_fold_ok [of R W "([], [])" xs]
  by (auto simp: epochs_of_def epochs_ok_def split: prod.splits)

lemma epochs_of_conflict_free:
  assumes "ep \<in> set (epochs_of R W xs)"
  shows "sorted_wrt (\<lambda>a b. (R b \<union> W b) \<inter> W a = {}) ep"
proof -
  obtain e where "e < length (epochs_of R W xs)" "epochs_of R W xs ! e = ep"
    using assms by (auto simp: in_set_conv_nth)
  then show ?thesis using epochs_of_ok(1) [of e R W xs] by simp
qed

lemma place_into_epochs_eq:
  "place_into_epochs txs f = map (map f) (epochs_of twk_read_keys twk_write_keys txs)"
  using place_fold_map [of "[]" "[]" twk_read_keys twk_write_keys f txs]
  by (simp add: place_into_epochs_def epochs_of_def)

lemma epochs_of_sorted:
  "sorted_wrt Q xs \<Longrightarrow> ep \<in> set (epochs_of R W xs) \<Longrightarrow> sorted_wrt Q ep"
proof (induction xs arbitrary: ep rule: rev_induct)
  case Nil
  then show ?case by (simp add: epochs_of_def)
next
  case (snoc x xs)
  define p where "p = fold (\<lambda>x. place_tx (R x) (W x) x) xs ([], [])"
  have old: "sorted_wrt Q ep" if "ep \<in> set (snd p)" for ep
    using snoc that by (simp add: epochs_of_def p_def sorted_wrt_append)
  have sub: "set ep \<subseteq> set xs" if "ep \<in> set (snd p)" for ep
    using mset_eq_setD [OF mset_epochs_of [of R W xs]] that by (auto simp: epochs_of_def p_def)
  have new: "sorted_wrt Q (ep @ [x])" if "ep \<in> set (snd p)" for ep
    using old [OF that] sub [OF that] snoc.prems(1) by (auto simp: sorted_wrt_append)
  have len: "length (fst p) = length (snd p)"
    using place_fold_ok [of R W "([], [])" xs] by (simp add: epochs_ok_def p_def split: prod.splits)
  have "ep \<in> set (snd (place_tx (R x) (W x) x p))"
    using snoc.prems(2) by (simp add: epochs_of_def p_def)
  then have "ep = [x] \<or> ep \<in> set (snd p) \<or> (\<exists>e<length (snd p). ep = snd p ! e @ [x])"
    using len set_update_subset_insert [of "snd p"]
    by (cases p) (auto simp: place_tx_def Let_def split: if_splits)
  then show ?case using old new by auto
qed

section \<open>Chains\<close>

definition chain_inv :: "nat list list \<Rightarrow> nat \<Rightarrow> bool list \<Rightarrow> nat list \<Rightarrow> bool" where
  "chain_inv deps n assigned order \<longleftrightarrow> length assigned = n \<and> distinct order \<and> set order \<subseteq> {..<n} \<and>
     (\<forall>i<n. assigned ! i \<longleftrightarrow> i \<in> set order) \<and>
     (\<forall>p<length order. set (deps ! (order ! p)) \<subseteq> set (take p order))"

lemma chain_inv_step:
  assumes "chain_inv deps n assigned order" "i < n" "ready deps assigned i" "set (deps ! i) \<subseteq> {..<n}"
  shows "chain_inv deps n (assigned[i := True]) (order @ [i])"
proof -
  have new: "i \<notin> set order" "set (deps ! i) \<subseteq> set order"
    using assms by (auto simp: chain_inv_def ready_def list_all_iff)
  show ?thesis
    using assms(1,2) new
    by (auto simp: chain_inv_def nth_list_update nth_append less_Suc_eq)
qed

lemma extend_chain_inv:
  assumes "chain_inv deps n assigned (pre @ chain)" "chain \<noteq> []"
    and "successively (\<lambda>a b. a \<in> set (deps ! b)) chain" "\<forall>i<n. set (deps ! i) \<subseteq> {..<n}"
    and "extend_chain deps assigned chain = (c, a)"
  shows "chain_inv deps n a (pre @ c) \<and> successively (\<lambda>a b. a \<in> set (deps ! b)) c"
  using assms
proof (induction deps assigned chain rule: extend_chain.induct)
  case (1 deps assigned chain)
  show ?case
  proof (cases "find (\<lambda>i. ready deps assigned i \<and> last chain \<in> set (deps ! i)) [0..<length assigned]")
    case None
    then show ?thesis using "1.prems" by (simp add: extend_chain.simps)
  next
    case (Some i)
    then have i: "i < n" "ready deps assigned i" "last chain \<in> set (deps ! i)"
      using "1.prems"(1) by (auto simp: find_Some_iff chain_inv_def)
    have "chain_inv deps n (assigned[i := True]) (pre @ chain @ [i])"
      using chain_inv_step [OF "1.prems"(1) i(1,2)] "1.prems"(4) i(1) by simp
    moreover have "successively (\<lambda>a b. a \<in> set (deps ! b)) (chain @ [i])"
      using "1.prems"(2,3) i(3) by (simp add: successively_append_iff)
    moreover have "extend_chain deps (assigned[i := True]) (chain @ [i]) = (c, a)"
      using "1.prems"(5) Some by (simp add: extend_chain.simps [of deps assigned])
    ultimately show ?thesis using "1.IH" [OF Some] "1.prems"(4) by simp
  qed
qed

text \<open>What the outer loop guarantees of its result: a complete topological order cut into chains, or
  a stuck state with an unassigned transaction and none that is ready.\<close>

definition chain_result :: "nat list list \<Rightarrow> nat \<Rightarrow> nat list list option \<Rightarrow> bool" where
  "chain_result deps n res \<longleftrightarrow> (case res of
      Some cs \<Rightarrow> (\<exists>a. chain_inv deps n a (concat cs) \<and> (\<forall>i<n. a ! i)) \<and>
        (\<forall>c\<in>set cs. successively (\<lambda>a b. a \<in> set (deps ! b)) c)
    | None \<Rightarrow> \<exists>a order. chain_inv deps n a order \<and> (\<exists>i<n. \<not> a ! i) \<and> (\<forall>i<n. \<not> ready deps a i))"

lemma build_chains_inv:
  assumes "chain_inv deps n assigned (concat acc)"
    and "\<forall>c\<in>set acc. successively (\<lambda>a b. a \<in> set (deps ! b)) c" "\<forall>i<n. set (deps ! i) \<subseteq> {..<n}"
  shows "chain_result deps n (build_chains deps assigned acc)"
  using assms
proof (induction deps assigned acc rule: build_chains.induct)
  case (1 deps assigned acc)
  have len: "length assigned = n" using "1.prems"(1) by (simp add: chain_inv_def)
  have unass: "list_ex Not assigned \<longleftrightarrow> (\<exists>i<n. \<not> assigned ! i)"
    using len by (simp add: list_ex_length)
  note eq = build_chains.simps [of deps assigned acc]
  show ?case
  proof (cases "list_ex Not assigned")
    case False
    then have "build_chains deps assigned acc = Some acc" by (simp add: eq)
    then show ?thesis using False "1.prems"(1,2) unfolding unass chain_result_def by auto
  next
    case True
    show ?thesis
    proof (cases "find (ready deps assigned) [0..<length assigned]")
      case None
      then have "build_chains deps assigned acc = None" using True by (simp add: eq)
      moreover have "\<forall>i<n. \<not> ready deps assigned i" using None len by (auto simp: find_None_iff)
      ultimately show ?thesis using True "1.prems"(1) unfolding unass chain_result_def by auto
    next
      case (Some s)
      then have s: "s < n" "ready deps assigned s" using len by (auto simp: find_Some_iff)
      obtain c a where e: "extend_chain deps (assigned[s := True]) [s] = (c, a)" by (metis surj_pair)
      have "chain_inv deps n (assigned[s := True]) (concat acc @ [s])"
        using chain_inv_step [OF "1.prems"(1) s] "1.prems"(3) s(1) by simp
      from extend_chain_inv [OF this _ _ "1.prems"(3) e]
      have "chain_inv deps n a (concat (acc @ [c]))" "successively (\<lambda>a b. a \<in> set (deps ! b)) c" by simp_all
      then have "chain_result deps n (build_chains deps a (acc @ [c]))"
        using "1.IH" [OF _ Some e [symmetric] refl] True "1.prems"(2,3) by simp
      moreover have "build_chains deps assigned acc = build_chains deps a (acc @ [c])"
        using True Some e by (simp add: eq)
      ultimately show ?thesis by simp
    qed
  qed
qed

lemma chain_inv_init: "chain_inv deps n (replicate n False) []"
  by (simp add: chain_inv_def)

lemma set_depends_on:
  "i < length txs \<Longrightarrow> set (depends_on txs ! i) =
     {j. j < length txs \<and> i \<noteq> j \<and> twk_read_keys (txs ! i) \<inter> twk_write_keys (txs ! j) \<noteq> {}}"
  by (auto simp: depends_on_def)

text \<open>The dependency relation of the first wave: \<open>(j, i)\<close> when transaction \<open>i\<close> reads a key that
  transaction \<open>j\<close> writes.\<close>

definition wave_dependencies :: "TxWithKeys list \<Rightarrow> (nat \<times> nat) set" where
  "wave_dependencies txs = {(j, i). i < length txs \<and> j < length txs \<and> i \<noteq> j \<and>
     twk_read_keys (txs ! i) \<inter> twk_write_keys (txs ! j) \<noteq> {}}"

lemma chain_indices_inv:
  "chain_result (depends_on txs) (length txs) (build_conflict_free_chain_indices txs)"
proof (cases "txs = []")
  case True
  then show ?thesis
    by (simp add: build_conflict_free_chain_indices_def chain_result_def chain_inv_def)
next
  case False
  have sub: "\<forall>i<length txs. set (depends_on txs ! i) \<subseteq> {..<length txs}" by (auto simp: set_depends_on)
  have "chain_inv (depends_on txs) (length txs) (replicate (length txs) False) (concat [])"
    by (simp add: chain_inv_init)
  from build_chains_inv [OF this _ sub] False show ?thesis
    by (simp add: build_conflict_free_chain_indices_def)
qed

lemma chain_indices_SomeD:
  assumes "build_conflict_free_chain_indices txs = Some cs"
  shows "distinct (concat cs)" "set (concat cs) = {..<length txs}"
    and "p < length txs \<Longrightarrow> (j, concat cs ! p) \<in> wave_dependencies txs \<Longrightarrow> j \<in> set (take p (concat cs))"
    and "c \<in> set cs \<Longrightarrow> Suc q < length c \<Longrightarrow> (c ! q, c ! Suc q) \<in> wave_dependencies txs"
proof -
  obtain a where inv: "chain_inv (depends_on txs) (length txs) a (concat cs)" and all: "\<forall>i<length txs. a ! i"
    and suc: "\<forall>c\<in>set cs. successively (\<lambda>a b. a \<in> set (depends_on txs ! b)) c"
    using chain_indices_inv [of txs] assms by (auto simp: chain_result_def)
  show d: "distinct (concat cs)" and s: "set (concat cs) = {..<length txs}"
    using inv all by (auto simp: chain_inv_def)
  have len: "length (concat cs) = length txs"
    using distinct_card [OF d] unfolding s by simp
  show "j \<in> set (take p (concat cs))" if "p < length txs" "(j, concat cs ! p) \<in> wave_dependencies txs"
  proof -
    have "concat cs ! p < length txs" using that(2) by (simp add: wave_dependencies_def)
    then have "j \<in> set (depends_on txs ! (concat cs ! p))"
      using that(2) by (auto simp: set_depends_on wave_dependencies_def)
    then show ?thesis using inv that(1) len by (auto simp: chain_inv_def)
  qed
  show "(c ! q, c ! Suc q) \<in> wave_dependencies txs" if "c \<in> set cs" "Suc q < length c"
  proof -
    have "c ! q \<in> set (depends_on txs ! (c ! Suc q))"
      using suc that by (auto simp: successively_conv_nth)
    moreover have "c ! Suc q \<in> set (concat cs)" using that by (auto intro: bexI [of _ c])
    then have "c ! Suc q < length txs" unfolding s by simp
    ultimately show ?thesis by (auto simp: set_depends_on wave_dependencies_def)
  qed
qed

lemma wave_dependencies_cyclic:
  assumes "chain_inv (depends_on txs) (length txs) a order" "\<exists>i<length txs. \<not> a ! i"
    and "\<forall>i<length txs. \<not> ready (depends_on txs) a i"
  shows "\<not> acyclic (wave_dependencies txs)"
proof
  assume "acyclic (wave_dependencies txs)"
  moreover have "finite (wave_dependencies txs)"
    by (rule finite_subset [of _ "{..<length txs} \<times> {..<length txs}"]) (auto simp: wave_dependencies_def)
  ultimately have "wf (wave_dependencies txs)" by (simp add: finite_acyclic_wf)
  moreover obtain i where "i \<in> {i. i < length txs \<and> \<not> a ! i}" using assms(2) by auto
  ultimately obtain m where m: "m < length txs" "\<not> a ! m"
    and min: "\<And>j. (j, m) \<in> wave_dependencies txs \<Longrightarrow> \<not> (j < length txs \<and> \<not> a ! j)"
    by (metis (no_types, lifting) mem_Collect_eq wfE_min)
  have "ready (depends_on txs) a m"
    using m min by (auto simp: ready_def list_all_iff set_depends_on wave_dependencies_def)
  with assms(3) m(1) show False by blast
qed

lemma chain_order_acyclic:
  assumes "build_conflict_free_chain_indices txs = Some cs"
  shows "acyclic (wave_dependencies txs)"
proof -
  note S = chain_indices_SomeD [OF assms]
  have len: "length (concat cs) = length txs"
    using distinct_card [OF S(1)] unfolding S(2) by simp
  define pos where "pos i = (THE p. p < length txs \<and> concat cs ! p = i)" for i
  have pos: "pos (concat cs ! p) = p" if "p < length txs" for p
    unfolding pos_def using that S(1) len by (auto simp: nth_eq_iff_index_eq intro!: the_equality)
  have "pos j < pos i" if "(j, i) \<in> wave_dependencies txs" for j i
  proof -
    have "i \<in> set (concat cs)" using that unfolding S(2) by (simp add: wave_dependencies_def)
    then obtain p where p: "p < length txs" "concat cs ! p = i" by (metis in_set_conv_nth len)
    then have "j \<in> set (take p (concat cs))" using S(3) that by blast
    then obtain q where "q < p" "concat cs ! q = j"
      by (metis in_set_conv_nth length_take min_less_iff_conj nth_take)
    with p pos show ?thesis by force
  qed
  then have "wave_dependencies txs \<subseteq> measure pos" by auto
  then show ?thesis by (meson acyclic_subset wf_acyclic wf_measure)
qed

text \<open>C20: Chain building orders the first wave.  When it returns, the chains together list every
  index of the wave exactly once; reading them one after the other, a transaction comes after every
  transaction whose writes it reads; and inside a chain each transaction reads a key its direct
  predecessor writes.\<close>

theorem chain_indices_topological:
  assumes "build_conflict_free_chain_indices txs = Some cs"
  shows "distinct (concat cs) \<and> set (concat cs) = {..<length txs} \<and>
    (\<forall>p<length txs. \<forall>j. (j, concat cs ! p) \<in> wave_dependencies txs \<longrightarrow> j \<in> set (take p (concat cs))) \<and>
    (\<forall>c\<in>set cs. \<forall>q. Suc q < length c \<longrightarrow> (c ! q, c ! Suc q) \<in> wave_dependencies txs)"
  using chain_indices_SomeD [OF assms] by blast

text \<open>C21: Chain building panics exactly when the reads and writes of the wave form a dependency
  cycle; otherwise it terminates with a result.\<close>

theorem chain_indices_panic_iff_cycle:
  "build_conflict_free_chain_indices txs = None \<longleftrightarrow> \<not> acyclic (wave_dependencies txs)"
proof
  assume "build_conflict_free_chain_indices txs = None"
  then show "\<not> acyclic (wave_dependencies txs)"
    using chain_indices_inv [of txs] wave_dependencies_cyclic by (auto simp: chain_result_def)
next
  assume "\<not> acyclic (wave_dependencies txs)"
  then show "build_conflict_free_chain_indices txs = None"
    using chain_order_acyclic by (cases "build_conflict_free_chain_indices txs") auto
qed

section \<open>The conflict zone\<close>

text \<open>C3: The conflict zone of finalized transactions.  The epochs contain every transaction
  exactly once; inside an epoch, ids ascend and a later transaction neither reads nor writes a key
  that an earlier one of the epoch writes, so the write sets of an epoch are pairwise disjoint; and
  no transaction could move to an earlier epoch, because each earlier epoch writes one of its keys.\<close>

theorem conflict_zone_finalized_epochs:
  "\<exists>epochs. schedule_conflict_zone_finalized txs = map (map twk_finalized) epochs \<and>
     mset (concat epochs) = mset (map from_transaction txs) \<and>
     (\<forall>ep\<in>set epochs. sorted_wrt (\<lambda>a b. twk_id a \<le> twk_id b \<and>
        (twk_read_keys b \<union> twk_write_keys b) \<inter> twk_write_keys a = {}) ep) \<and>
     (\<forall>e<length epochs. \<forall>b\<in>set (epochs ! e). \<forall>e'<e. \<exists>a\<in>set (epochs ! e').
        (twk_read_keys b \<union> twk_write_keys b) \<inter> twk_write_keys a \<noteq> {})"
proof -
  define cs where "cs = sort_key twk_id (map from_transaction txs)"
  define es where "es = epochs_of twk_read_keys twk_write_keys cs"
  have srt: "sorted_wrt (\<lambda>a b. twk_id a \<le> twk_id b) cs"
    using sorted_sort_key [of twk_id "map from_transaction txs"] by (simp add: cs_def sorted_map)
  have inside: "sorted_wrt (\<lambda>a b. twk_id a \<le> twk_id b \<and>
        (twk_read_keys b \<union> twk_write_keys b) \<inter> twk_write_keys a = {}) ep" if "ep \<in> set es" for ep
  proof -
    have "sorted_wrt (\<lambda>a b. twk_id a \<le> twk_id b) ep"
      using epochs_of_sorted [OF srt] that by (simp add: es_def)
    moreover have "sorted_wrt (\<lambda>a b. (twk_read_keys b \<union> twk_write_keys b) \<inter> twk_write_keys a = {}) ep"
      using that unfolding es_def by (rule epochs_of_conflict_free)
    ultimately show ?thesis by (simp add: sorted_wrt_iff_nth_less)
  qed
  have all: "mset (concat es) = mset (map from_transaction txs)"
    by (simp add: es_def mset_epochs_of cs_def)
  have eq: "schedule_conflict_zone_finalized txs = map (map twk_finalized) es"
    by (simp add: schedule_conflict_zone_finalized_def place_into_epochs_eq es_def cs_def)
  have least: "\<forall>e<length es. \<forall>b\<in>set (es ! e). \<forall>e'<e. \<exists>a\<in>set (es ! e').
        (twk_read_keys b \<union> twk_write_keys b) \<inter> twk_write_keys a \<noteq> {}"
    unfolding es_def by (intro allI impI ballI) (rule epochs_of_ok(2))
  show ?thesis by (intro exI [of _ es] conjI eq all least ballI inside)
qed

lemma to_aborted_reset: "to_aborted (tx_init (clear_write_units t)) = to_aborted t"
  by (simp add: to_aborted_def tx_init_def clear_write_units_def ai_read_keys_def ai_write_keys_def)

lemma conflict_zone_aborted_eq:
  "schedule_conflict_zone_aborted False txs =
     epochs_of ab_prev_read_keys ab_prev_write_keys (sort_key AbortedTransaction_id (map to_aborted txs))"
proof -
  define f where "f a = (AbortedTransaction_id a, ab_prev_read_keys a, ab_prev_write_keys a, a)" for a
  have s: "sort_key fst (map f xs) = map f (sort_key AbortedTransaction_id xs)" for xs
  proof (induction xs)
    case (Cons x xs)
    have ins: "insort_key fst (f x) (map f ys) = map f (insort_key AbortedTransaction_id x ys)" for ys
      by (induction ys) (auto simp: f_def)
    show ?case by (simp add: Cons ins)
  qed simp
  have step: "(\<lambda>(_, rk, wk, a). place_tx rk wk a) (f a) = place_tx (ab_prev_read_keys a) (ab_prev_write_keys a) a" for a
    by (simp add: f_def)
  have cand: "map (\<lambda>t. let a = to_aborted t in (AbortedTransaction_id a, ab_prev_read_keys a, ab_prev_write_keys a, a))
      (map (tx_init \<circ> clear_write_units) txs) = map f (map to_aborted txs)"
    by (simp add: f_def Let_def to_aborted_reset)
  have fm: "fold g (map f xs) p = fold (\<lambda>a. g (f a)) xs p" for g :: "_ \<Rightarrow> h256 set list \<times> AbortedTransaction list list \<Rightarrow> _" and xs p
    by (induction xs arbitrary: p) simp_all
  show ?thesis
    unfolding schedule_conflict_zone_aborted_def epochs_of_def
    by (simp only: cand Let_def [of "map (tx_init \<circ> clear_write_units) txs"] if_False
        Let_def [of "map f _"] s fm step)
qed


text \<open>C19: The conflict zone of aborted transactions.  Rescheduling keeps every aborted transaction
  exactly once, in epochs in which ids ascend and no transaction reads or writes a key that an
  earlier one of its epoch wrote in its first simulation; re-executing an epoch in parallel on the
  state before it is then equivalent, key by key, to executing it in the order of the ids.\<close>

theorem conflict_zone_aborted_epochs:
  "mset (concat (schedule_conflict_zone_aborted False txs)) = mset (map to_aborted txs) \<and>
   (\<forall>ep\<in>set (schedule_conflict_zone_aborted False txs).
      sorted_wrt (\<lambda>a b. AbortedTransaction_id a \<le> AbortedTransaction_id b \<and>
        (ab_prev_read_keys b \<union> ab_prev_write_keys b) \<inter> ab_prev_write_keys a = {}) ep)"
proof -
  define cs where "cs = sort_key AbortedTransaction_id (map to_aborted txs)"
  have srt: "sorted_wrt (\<lambda>a b. AbortedTransaction_id a \<le> AbortedTransaction_id b) cs"
    using sorted_sort_key [of AbortedTransaction_id "map to_aborted txs"] by (simp add: cs_def sorted_map)
  have "sorted_wrt (\<lambda>a b. AbortedTransaction_id a \<le> AbortedTransaction_id b \<and>
        (ab_prev_read_keys b \<union> ab_prev_write_keys b) \<inter> ab_prev_write_keys a = {}) ep"
    if "ep \<in> set (epochs_of ab_prev_read_keys ab_prev_write_keys cs)" for ep
    using epochs_of_sorted [OF srt that] epochs_of_conflict_free [OF that]
    by (simp add: sorted_wrt_iff_nth_less)
  then show ?thesis
    by (simp add: conflict_zone_aborted_eq mset_epochs_of cs_def)
qed

section \<open>Commit waves\<close>

definition one_sequence :: "Transaction list \<Rightarrow> bool" where
  "one_sequence g \<longleftrightarrow> g \<noteq> [] \<and> (\<forall>t\<in>set g. sequence t = sequence (hd g))"

lemma one_sequence_snoc:
  assumes "one_sequence g" "sequence t = sequence (hd g)"
  shows "one_sequence (g @ [t])"
  using assms by (cases g) (auto simp: one_sequence_def)

definition waves_ok :: "Transaction list list \<Rightarrow> bool" where
  "waves_ok gs \<longleftrightarrow> gs \<noteq> [] \<and> (\<forall>g\<in>set gs. one_sequence g) \<and>
     sorted_wrt (<) (map (sequence \<circ> hd) gs)"

lemma add_to_groups_ok:
  assumes "waves_ok gs" "sequence (hd (last gs)) \<le> sequence t"
  shows "waves_ok (add_to_groups t gs)" "concat (add_to_groups t gs) = concat gs @ [t]"
    "sequence (hd (last (add_to_groups t gs))) = sequence t"
proof -
  obtain xs g where gs: "gs = xs @ [g]" using assms(1) by (metis waves_ok_def rev_exhaust)
  have g: "one_sequence g" using assms(1) by (simp add: waves_ok_def gs)
  then have ne: "g \<noteq> []" unfolding one_sequence_def by (rule conjunct1)
  show "concat (add_to_groups t gs) = concat gs @ [t]" by (simp add: add_to_groups_def gs)
  show "sequence (hd (last (add_to_groups t gs))) = sequence t"
    using ne by (simp add: add_to_groups_def gs)
  have old: "\<And>x. x \<in> set xs \<Longrightarrow> sequence (hd x) < sequence (hd g)"
    using assms(1) by (auto simp: waves_ok_def gs sorted_wrt_append)
  show "waves_ok (add_to_groups t gs)"
  proof (cases "sequence t = sequence (hd g)")
    case True
    then show ?thesis
      using assms(1) g ne by (simp add: waves_ok_def add_to_groups_def gs sorted_wrt_append one_sequence_snoc)
  next
    case False
    then have "sequence (hd g) < sequence t" using assms(2) by (simp add: gs)
    then have "\<forall>x\<in>set (xs @ [g]). sequence (hd x) < sequence t" using old by (auto intro: less_trans)
    moreover have "one_sequence [t]" by (simp add: one_sequence_def)
    ultimately show ?thesis
      using False assms(1) by (simp add: waves_ok_def add_to_groups_def gs sorted_wrt_append)
  qed
qed

lemma fold_add_to_groups_ok:
  assumes "waves_ok gs" "sorted (map sequence ts)" "\<forall>t\<in>set ts. sequence (hd (last gs)) \<le> sequence t"
  shows "waves_ok (fold add_to_groups ts gs) \<and> concat (fold add_to_groups ts gs) = concat gs @ ts"
  using assms
proof (induction ts arbitrary: gs)
  case (Cons t ts)
  have "sequence (hd (last gs)) \<le> sequence t" using Cons.prems(3) by simp
  note A = add_to_groups_ok [OF Cons.prems(1) this]
  show ?case using Cons.IH [OF A(1)] Cons.prems(2) A(2,3) by auto
qed simp

lemma sorted_sequence_sort_key:
  "sorted (map sequence (sort_key (\<lambda>t. (sequence t, tx_id t)) txs))"
  using sorted_sort_key [of "\<lambda>t. (sequence t, tx_id t)" txs]
  by (auto simp: sorted_map less_eq_prod_def elim!: sorted_wrt_mono_rel [rotated])

lemma group_by_sequence_ok:
  "txs \<noteq> [] \<Longrightarrow> waves_ok (group_by_sequence txs)"
  "concat (group_by_sequence txs) = sort_key (\<lambda>t. (sequence t, tx_id t)) txs"
proof -
  define l where "l = sort_key (\<lambda>t. (sequence t, tx_id t)) txs"
  have srt: "sorted (map sequence l)" by (simp add: l_def sorted_sequence_sort_key)
  have "(l \<noteq> [] \<longrightarrow> waves_ok (group_by_sequence txs)) \<and> concat (group_by_sequence txs) = l"
  proof (cases l)
    case Nil
    then show ?thesis unfolding group_by_sequence_def l_def [symmetric] by simp
  next
    case (Cons t ts)
    have "waves_ok [[t]]" by (simp add: waves_ok_def one_sequence_def)
    from fold_add_to_groups_ok [OF this, of ts] srt Cons show ?thesis
      unfolding group_by_sequence_def l_def [symmetric] by simp
  qed
  moreover have "l = [] \<longleftrightarrow> txs = []" by (metis l_def length_0_conv length_sort)
  ultimately show "txs \<noteq> [] \<Longrightarrow> waves_ok (group_by_sequence txs)"
    "concat (group_by_sequence txs) = sort_key (\<lambda>t. (sequence t, tx_id t)) txs"
    by (simp_all add: l_def)
qed

text \<open>Grouping by sequence number yields the commit waves in order: concatenated they are the
  transactions sorted by sequence number and id, every wave is non-empty and has one sequence
  number, and the numbers strictly increase from wave to wave.\<close>

theorem group_by_sequence_waves:
  "concat (group_by_sequence txs) = sort_key (\<lambda>t. (sequence t, tx_id t)) txs \<and>
   (\<forall>g\<in>set (group_by_sequence txs). g \<noteq> [] \<and> (\<forall>t\<in>set g. sequence t = sequence (hd g))) \<and>
   sorted_wrt (<) (map (sequence \<circ> hd) (group_by_sequence txs))"
proof (cases "txs = []")
  case True
  then show ?thesis by (simp add: group_by_sequence_def)
next
  case False
  then show ?thesis using group_by_sequence_ok [of txs] unfolding waves_ok_def one_sequence_def by blast
qed

section \<open>The schedule keeps every transaction\<close>

lemma extract_chains_mset:
  assumes "extract_conflict_free_chains txs = Some zone"
  shows "mset (concat zone) = mset (map to_finalized txs)"
proof -
  define ts where "ts = sort_key twk_id (map from_transaction txs)"
  have fin: "mset (map twk_finalized ts) = mset (map to_finalized txs)"
    by (simp add: ts_def image_mset.compositionality comp_def from_transaction_def)
  show ?thesis
  proof (cases "ts = []")
    case True
    with assms fin show ?thesis by (simp add: extract_conflict_free_chains_def ts_def [symmetric])
  next
    case False
    then obtain cs where cs: "build_conflict_free_chain_indices ts = Some cs"
      and zone: "zone = map (map (\<lambda>i. twk_finalized (ts ! i))) cs"
      using assms by (auto simp: extract_conflict_free_chains_def ts_def [symmetric])
    note S = chain_indices_SomeD(1,2) [OF cs]
    have perm: "mset (concat cs) = mset [0..<length ts]"
      using S by (metis atLeast_upt distinct_upt set_eq_iff_mset_eq_distinct)
    have "mset (concat zone) = image_mset (\<lambda>i. twk_finalized (ts ! i)) (mset (concat cs))"
      by (simp add: zone map_concat [symmetric])
    also have "\<dots> = mset (map twk_finalized (map ((!) ts) [0..<length ts]))"
      unfolding perm by (simp add: image_mset.compositionality comp_def)
    also have "\<dots> = mset (map twk_finalized ts)" by (simp only: map_nth)
    finally show ?thesis by (simp only: fin)
  qed
qed

lemma conflict_zone_finalized_mset:
  "mset (concat (schedule_conflict_zone_finalized txs)) = mset (map to_finalized txs)"
proof -
  define ts where "ts = sort_key twk_id (map from_transaction txs)"
  have "mset (concat (schedule_conflict_zone_finalized txs)) =
      image_mset twk_finalized (mset (concat (epochs_of twk_read_keys twk_write_keys ts)))"
    by (simp add: schedule_conflict_zone_finalized_def place_into_epochs_eq ts_def map_concat [symmetric])
  then show ?thesis by (simp add: mset_epochs_of ts_def from_transaction_def image_mset.compositionality comp_def)
qed

lemma to_finalized_clear: "to_finalized (clear_write_units t) = to_finalized t"
  by (simp add: to_finalized_def clear_write_units_def)

lemma build_cds_schedule_mset:
  assumes "build_cds_schedule dr txs ab = Some s"
  shows "mset (concat (conflict_free_zone s)) + mset (concat (conflict_zone_finalized s)) =
      mset (map to_finalized txs)"
    and "conflict_zone_aborted s = schedule_conflict_zone_aborted dr ab"
proof -
  define gs where "gs = group_by_sequence (map clear_write_units txs)"
  define first where "first = (case gs of [] \<Rightarrow> [] | g # _ \<Rightarrow> g)"
  obtain zone where z: "extract_conflict_free_chains first = Some zone"
    and s: "s = \<lparr>conflict_free_zone = zone,
      conflict_zone_finalized = schedule_conflict_zone_finalized (concat (tl gs)),
      conflict_zone_aborted = schedule_conflict_zone_aborted dr ab\<rparr>"
    using assms by (auto simp: build_cds_schedule_def Let_def gs_def first_def)
  have "mset first + mset (concat (tl gs)) = mset (concat gs)"
    by (cases gs) (simp_all add: first_def)
  also have "\<dots> = mset (map clear_write_units txs)"
    by (simp only: gs_def group_by_sequence_ok(2) mset_sort)
  finally have "mset (map to_finalized first) + mset (map to_finalized (concat (tl gs))) =
      image_mset to_finalized (mset (map clear_write_units txs))"
    by (simp flip: image_mset_union)
  then show "mset (concat (conflict_free_zone s)) + mset (concat (conflict_zone_finalized s)) =
      mset (map to_finalized txs)"
    using extract_chains_mset [OF z]
    by (simp add: s conflict_zone_finalized_mset image_mset.compositionality comp_def to_finalized_clear)
  show "conflict_zone_aborted s = schedule_conflict_zone_aborted dr ab" by (simp add: s)
qed


section \<open>Chains that run in parallel but depend on each other\<close>

definition sample_wave :: "Transaction list" where
  "sample_wave = map (fst \<circ> Transaction_from) [sample_sim 0 [] [1], sample_sim 1 [1] [], sample_sim 2 [1] []]"

definition sample_keys :: "TxWithKeys list" where
  "sample_keys = map from_transaction sample_wave"

text \<open>Chains are not independent.  One writer of a slot and two readers of it: the writer and
  the first reader form a chain, the second reader a chain of its own, although it depends on the
  writer as well.  The comment of \<open>extract_conflict_free_chains\<close> calls the chains independent and
  the commit phase runs them in parallel.\<close>

theorem chains_cross_dependency:
  "build_conflict_free_chain_indices sample_keys = Some [[0, 1], [2]] \<and>
   (0, 2) \<in> wave_dependencies sample_keys"
proof
  show "build_conflict_free_chain_indices sample_keys = Some [[0, 1], [2]]" by code_simp
  have "length sample_keys = 3" "twk_read_keys (sample_keys ! 2) \<inter> twk_write_keys (sample_keys ! 0) \<noteq> {}"
    by code_simp+
  then show "(0, 2) \<in> wave_dependencies sample_keys" by (simp add: wave_dependencies_def)
qed

section \<open>Witnesses\<close>

theorem chain_indices_topological_witness:
  "distinct [0::nat, 1, 2] \<and> set [0::nat, 1, 2] = {..<length sample_keys} \<and>
   (0, 1) \<in> wave_dependencies sample_keys"
proof -
  have c: "build_conflict_free_chain_indices sample_keys = Some [[0, 1], [2]]" by code_simp
  from chain_indices_topological [OF c] have
    "\<forall>q. Suc q < length [0::nat, 1] \<longrightarrow> ([0, 1] ! q, [0, 1] ! Suc q) \<in> wave_dependencies sample_keys"
    "set [0::nat, 1, 2] = {..<length sample_keys}"
    by simp_all
  then show ?thesis by auto
qed

theorem conflict_zone_finalized_epochs_witness:
  "\<exists>epochs :: TxWithKeys list list. schedule_conflict_zone_finalized sample_wave = map (map twk_finalized) epochs \<and>
     length epochs = 2 \<and> (\<exists>a\<in>set (epochs ! 0). \<exists>b\<in>set (epochs ! 1).
       (twk_read_keys b \<union> twk_write_keys b) \<inter> twk_write_keys a \<noteq> {})"
proof -
  have l: "length (schedule_conflict_zone_finalized sample_wave) = 2"
    "list_all (\<lambda>ep. ep \<noteq> []) (schedule_conflict_zone_finalized sample_wave)" by code_simp+
  obtain epochs :: "TxWithKeys list list" where e: "schedule_conflict_zone_finalized sample_wave = map (map twk_finalized) epochs"
    and min: "\<forall>e<length epochs. \<forall>b\<in>set (epochs ! e). \<forall>e'<e. \<exists>a\<in>set (epochs ! e').
        (twk_read_keys b \<union> twk_write_keys b) \<inter> twk_write_keys a \<noteq> {}"
    using conflict_zone_finalized_epochs [of sample_wave] by blast
  have len: "length epochs = 2" using l(1) e by simp
  have "epochs ! 1 \<noteq> []" using l(2) len by (simp add: e list_all_length)
  then obtain b where b: "b \<in> set (epochs ! 1)" by (cases "epochs ! 1") auto
  have "\<exists>a\<in>set (epochs ! 0). (twk_read_keys b \<union> twk_write_keys b) \<inter> twk_write_keys a \<noteq> {}"
    by (rule min [rule_format, of 1 b 0]) (use len b in simp_all)
  with e len b show ?thesis by blast
qed

theorem conflict_zone_aborted_epochs_witness:
  "mset (concat (schedule_conflict_zone_aborted False sample_wave)) = mset (map to_aborted sample_wave) \<and>
   length (schedule_conflict_zone_aborted False sample_wave) = 2 \<and>
   list_all (sorted_wrt (\<lambda>a b. AbortedTransaction_id a \<le> AbortedTransaction_id b))
     (schedule_conflict_zone_aborted False sample_wave)"
proof -
  have "length (schedule_conflict_zone_aborted False sample_wave) = 2" by code_simp
  then show ?thesis
    using conflict_zone_aborted_epochs [of sample_wave]
    by (auto simp: list_all_iff elim!: sorted_wrt_mono_rel [rotated])
qed

theorem group_by_sequence_waves_witness:
  "length (group_by_sequence sample_wave) = 1 \<and>
   concat (group_by_sequence sample_wave) = sort_key (\<lambda>t. (sequence t, tx_id t)) sample_wave \<and>
   group_by_sequence sample_wave ! 0 \<noteq> []"
proof -
  have "length (group_by_sequence sample_wave) = 1" by code_simp
  then show ?thesis using group_by_sequence_waves [of sample_wave] by (auto simp: in_set_conv_nth)
qed

end
