(* ===== verification/Evm_Storage.thy ===== *)
theory Evm_Storage
  imports Chase_Types
begin

text \<open>
  The state backends of the execution layer: the in-memory backends of
  \<open>crates/sslab-execution/evm/src/evm_storage/backend\<close> (\<open>MemoryBackend\<close> and the concurrent
  \<open>CMemoryBackend\<close>), the backend of the EVM crate (\<open>crates/chase-evm/src/backend/memory.rs\<close>), the
  RocksDB store (\<open>crates/sslab-execution/stack/src/rocksdb_store.rs\<close>) and the write-through backend on
  top of it (\<open>layered_backend.rs\<close>).  Maps are partial functions; a column family of RocksDB is a
  partial function too, and only runs in which the database reports no I/O error are modelled.
  A clone of a \<open>flurry\<close> hash map is a copy of its entries.  The interface locale states that a
  backend applies an effect to one account at a time; from it follows that effects on pairwise
  compatible accounts may be applied in any order, which is what committing an epoch in parallel
  relies on.  The RocksDB store refines the in-memory backend that deletes empty accounts.
\<close>

section \<open>Accounts\<close>

record Account =
  acc_nonce :: u256
  acc_balance :: u256
  acc_storage :: "h256 \<rightharpoonup> h256"
  acc_code :: "u8 list"

type_synonym accounts = "h160 \<rightharpoonup> Account"

definition Account_default :: Account where
  "Account_default = \<lparr>acc_nonce = 0, acc_balance = 0, acc_storage = Map.empty, acc_code = []\<rparr>"

definition account_is_empty :: "Account \<Rightarrow> bool" where
  "account_is_empty a = (acc_balance a = 0 \<and> acc_nonce a = 0 \<and> acc_code a = [])"

text \<open>Removing the slots that hold zero, and writing one slot.\<close>

definition remove_zeros :: "(h256 \<rightharpoonup> h256) \<Rightarrow> (h256 \<rightharpoonup> h256)" where
  "remove_zeros m = (\<lambda>k. if m k = Some 0 then None else m k)"

definition write_slot :: "h256 \<times> h256 \<Rightarrow> (h256 \<rightharpoonup> h256) \<Rightarrow> (h256 \<rightharpoonup> h256)" where
  "write_slot = (\<lambda>(index, val) m. if val = 0 then m(index := None) else m(index \<mapsto> val))"

definition modify_account :: "Basic \<Rightarrow> u8 list option \<Rightarrow> (h256, h256) hmap \<Rightarrow> bool \<Rightarrow> Account \<Rightarrow> Account" where
  "modify_account b code st reset_storage a =
     (let a1 = a\<lparr>acc_balance := balance b, acc_nonce := nonce b\<rparr>;
          a2 = (case code of Some c \<Rightarrow> a1\<lparr>acc_code := c\<rparr> | None \<Rightarrow> a1);
          s0 = (if reset_storage then Map.empty else acc_storage a2)
      in a2\<lparr>acc_storage := fold write_slot st (remove_zeros s0)\<rparr>)"

section \<open>MemoryBackend\<close>

record MemoryVicinity =
  vic_gas_price :: u256
  vic_origin :: h160
  vic_chain_id :: u256
  vic_block_hashes :: "h256 list"
  vic_block_number :: u256
  vic_block_coinbase :: h160
  vic_block_timestamp :: u256
  vic_block_difficulty :: u256
  vic_block_gas_limit :: u256
  vic_block_base_fee_per_gas :: u256
  vic_block_randomness :: "h256 option"

definition block_hash :: "MemoryVicinity \<Rightarrow> u256 \<Rightarrow> h256" where
  "block_hash v number =
     (if vic_block_number v \<le> number \<or>
         of_nat (length (vic_block_hashes v)) \<le> vic_block_number v - number - 1
      then 0
      else vic_block_hashes v ! unat (vic_block_number v - number - 1))"

definition backend_basic :: "accounts \<Rightarrow> h160 \<Rightarrow> Basic" where
  "backend_basic st a = (case st a of
     Some acc \<Rightarrow> \<lparr>balance = acc_balance acc, nonce = acc_nonce acc\<rparr>
   | None \<Rightarrow> \<lparr>balance = 0, nonce = 0\<rparr>)"

definition backend_code :: "accounts \<Rightarrow> h160 \<Rightarrow> u8 list" where
  "backend_code st a = (case st a of Some acc \<Rightarrow> acc_code acc | None \<Rightarrow> [])"

definition backend_storage :: "accounts \<Rightarrow> h160 \<Rightarrow> h256 \<Rightarrow> h256" where
  "backend_storage st a index = (case st a of
     Some acc \<Rightarrow> (case acc_storage acc index of Some v \<Rightarrow> v | None \<Rightarrow> 0)
   | None \<Rightarrow> 0)"

definition memory_apply_one :: "bool \<Rightarrow> Apply \<Rightarrow> accounts \<Rightarrow> accounts" where
  "memory_apply_one delete_empty ap st = (case ap of
     Modify address b code slots reset_storage \<Rightarrow>
       (let account = modify_account b code slots reset_storage
              (case st address of Some a \<Rightarrow> a | None \<Rightarrow> Account_default);
            st' = st(address \<mapsto> account)
        in if account_is_empty account \<and> delete_empty then st'(address := None) else st')
   | Delete address \<Rightarrow> st(address := None))"

definition memory_apply :: "bool \<Rightarrow> Apply list \<Rightarrow> accounts \<Rightarrow> accounts" where
  "memory_apply delete_empty vals st = fold (memory_apply_one delete_empty) vals st"

section \<open>CMemoryBackend\<close>

text \<open>The account is cloned out of the map, changed, and dropped: only the removal of an empty
  account touches the state.\<close>

definition cmemory_apply_one :: "bool \<Rightarrow> Apply \<Rightarrow> accounts \<Rightarrow> accounts" where
  "cmemory_apply_one delete_empty ap st = (case ap of
     Modify address b code slots reset_storage \<Rightarrow>
       (let account = modify_account b code slots reset_storage
              (case st address of Some a \<Rightarrow> a | None \<Rightarrow> Account_default)
        in if account_is_empty account \<and> delete_empty then st(address := None) else st)
   | Delete address \<Rightarrow> st(address := None))"

definition cmemory_apply :: "bool \<Rightarrow> Apply list \<Rightarrow> accounts \<Rightarrow> accounts" where
  "cmemory_apply delete_empty vals st = fold (cmemory_apply_one delete_empty) vals st"

section \<open>The memory backend of the EVM crate\<close>

record EvmMemoryBackend =
  emb_state :: accounts
  emb_logs :: "Log list"

definition evm_memory_apply :: "Apply list \<Rightarrow> Log list \<Rightarrow> bool \<Rightarrow> EvmMemoryBackend \<Rightarrow> EvmMemoryBackend" where
  "evm_memory_apply vals lgs delete_empty m =
     m\<lparr>emb_state := fold (memory_apply_one delete_empty) vals (emb_state m), emb_logs := emb_logs m @ lgs\<rparr>"

section \<open>The RocksDB store\<close>

record StoredAccount =
  sa_nonce :: u256
  sa_balance :: u256
  sa_code :: "u8 list"

record ChaseStorage =
  cs_accounts :: "h160 \<rightharpoonup> StoredAccount"
  cs_slots :: "h160 \<times> h256 \<rightharpoonup> h256"
  cs_execution_index :: "u64 option"

definition last_executed_sub_dag_index :: "ChaseStorage \<Rightarrow> u64" where
  "last_executed_sub_dag_index db = (case cs_execution_index db of Some i \<Rightarrow> i | None \<Rightarrow> 0)"

definition set_last_executed_sub_dag_index :: "u64 \<Rightarrow> ChaseStorage \<Rightarrow> ChaseStorage" where
  "set_last_executed_sub_dag_index i db = db\<lparr>cs_execution_index := Some i\<rparr>"

definition get_storage_slot :: "ChaseStorage \<Rightarrow> h160 \<Rightarrow> h256 \<Rightarrow> h256 option" where
  "get_storage_slot db a slot = cs_slots db (a, slot)"

definition put_storage_slot :: "h160 \<Rightarrow> h256 \<Rightarrow> h256 \<Rightarrow> ChaseStorage \<Rightarrow> ChaseStorage" where
  "put_storage_slot a slot val db =
     (if val = 0 then db\<lparr>cs_slots := (cs_slots db)((a, slot) := None)\<rparr>
      else db\<lparr>cs_slots := (cs_slots db)((a, slot) \<mapsto> val)\<rparr>)"

definition put_slot_entry :: "h160 \<Rightarrow> h256 \<times> h256 \<Rightarrow> ChaseStorage \<Rightarrow> ChaseStorage" where
  "put_slot_entry a e = put_storage_slot a (fst e) (snd e)"

definition remove_storage_for_address :: "h160 \<Rightarrow> ChaseStorage \<Rightarrow> ChaseStorage" where
  "remove_storage_for_address a db =
     db\<lparr>cs_slots := (\<lambda>k. if fst k = a then None else cs_slots db k)\<rparr>"

definition persist_apply :: "Apply \<Rightarrow> ChaseStorage \<Rightarrow> ChaseStorage" where
  "persist_apply ap db = (case ap of
     Modify address b code slots reset_storage \<Rightarrow>
       (let account0 = (case cs_accounts db address of Some a \<Rightarrow> a
              | None \<Rightarrow> \<lparr>sa_nonce = 0, sa_balance = 0, sa_code = []\<rparr>);
            account1 = account0\<lparr>sa_nonce := nonce b, sa_balance := balance b\<rparr>;
            account = (case code of Some c \<Rightarrow> account1\<lparr>sa_code := c\<rparr> | None \<Rightarrow> account1);
            db1 = (if reset_storage then remove_storage_for_address address db else db);
            db2 = fold (put_slot_entry address) slots db1
        in if sa_balance account = 0 \<and> sa_nonce account = 0 \<and> sa_code account = []
           then remove_storage_for_address address (db2\<lparr>cs_accounts := (cs_accounts db2)(address := None)\<rparr>)
           else db2\<lparr>cs_accounts := (cs_accounts db2)(address \<mapsto> account)\<rparr>)
   | Delete address \<Rightarrow>
       remove_storage_for_address address (db\<lparr>cs_accounts := (cs_accounts db)(address := None)\<rparr>))"

definition persist_applies :: "Apply list \<Rightarrow> ChaseStorage \<Rightarrow> ChaseStorage" where
  "persist_applies applies db = fold persist_apply applies db"

text \<open>The account that start-up builds from the two column families, and hydration of a state.\<close>

definition hydrate_account :: "ChaseStorage \<Rightarrow> h160 \<Rightarrow> Account option" where
  "hydrate_account db a = map_option (\<lambda>s.
     \<lparr>acc_nonce = sa_nonce s, acc_balance = sa_balance s,
      acc_storage = (\<lambda>k. cs_slots db (a, k)), acc_code = sa_code s\<rparr>) (cs_accounts db a)"

definition hydrate_memory_backend :: "ChaseStorage \<Rightarrow> accounts \<Rightarrow> accounts" where
  "hydrate_memory_backend db st = (\<lambda>a. case hydrate_account db a of Some acc \<Rightarrow> Some acc | None \<Rightarrow> st a)"

section \<open>The write-through backend\<close>

record PersistableCMemoryBackend =
  pb_inner :: accounts
  pb_store :: ChaseStorage

definition Persistable_new :: "ChaseStorage \<Rightarrow> PersistableCMemoryBackend" where
  "Persistable_new db = \<lparr>pb_inner = hydrate_memory_backend db Map.empty, pb_store = db\<rparr>"

definition persistable_apply :: "bool \<Rightarrow> Apply list \<Rightarrow> PersistableCMemoryBackend \<Rightarrow> PersistableCMemoryBackend" where
  "persistable_apply delete_empty vals pb =
     \<lparr>pb_inner = cmemory_apply delete_empty vals (pb_inner pb),
      pb_store = persist_applies vals (pb_store pb)\<rparr>"

section \<open>Effects act on one account at a time\<close>

locale account_backend =
  fixes apply_one :: "Apply \<Rightarrow> 's \<Rightarrow> 's"
    and account_view :: "'s \<Rightarrow> h160 \<Rightarrow> 'v"
    and step :: "Apply \<Rightarrow> 'v \<Rightarrow> 'v"
    and frame :: "'s \<Rightarrow> 'f"
  assumes view_apply: "account_view (apply_one ap s) a =
      (if a = apply_address ap then step ap (account_view s a) else account_view s a)"
    and frame_apply: "frame (apply_one ap s) = frame s"
    and view_ext: "(\<And>a. account_view s a = account_view s' a) \<Longrightarrow> frame s = frame s' \<Longrightarrow> s = s'"
begin

lemma apply_commute:
  assumes "apply_address x = apply_address y \<Longrightarrow> step x \<circ> step y = step y \<circ> step x"
  shows "apply_one x (apply_one y s) = apply_one y (apply_one x s)"
proof (rule view_ext)
  show "account_view (apply_one x (apply_one y s)) a = account_view (apply_one y (apply_one x s)) a" for a
    using assms by (auto simp: view_apply fun_eq_iff)
qed (simp add: frame_apply)

lemma apply_list_commute:
  assumes "\<And>x y. x \<in> set xs \<Longrightarrow> y \<in> set ys \<Longrightarrow> apply_address x = apply_address y \<Longrightarrow> step x \<circ> step y = step y \<circ> step x"
  shows "fold apply_one xs (fold apply_one ys s) = fold apply_one ys (fold apply_one xs s)"
proof -
  have one: "apply_one x (fold apply_one ys s) = fold apply_one ys (apply_one x s)" if "x \<in> set xs" for x s
  proof -
    have "\<And>y. y \<in> set ys \<Longrightarrow> apply_one x \<circ> apply_one y = apply_one y \<circ> apply_one x"
      using assms [OF that] by (auto simp: fun_eq_iff intro: apply_commute)
    then show ?thesis
    proof (induction ys arbitrary: s)
      case (Cons y ys)
      have "apply_one x (apply_one y s) = apply_one y (apply_one x s)"
        using Cons.prems [of y] by (simp add: fun_eq_iff)
      with Cons show ?case by simp
    qed simp
  qed
  show ?thesis
    using one by (induction xs arbitrary: s) simp_all
qed

text \<open>Applying the effects of several transactions in any order gives one result when every two of
  them commute.\<close>

theorem apply_any_order:
  assumes "\<And>x y. x \<in> set txs \<Longrightarrow> y \<in> set txs \<Longrightarrow>
      (\<forall>p\<in>set (eff x). \<forall>q\<in>set (eff y). apply_address p = apply_address q \<longrightarrow> step p \<circ> step q = step q \<circ> step p) \<or> x = y"
    and "mset txs' = mset txs"
  shows "fold (\<lambda>t. fold apply_one (eff t)) txs' s = fold (\<lambda>t. fold apply_one (eff t)) txs s"
proof -
  have "fold apply_one (eff x) \<circ> fold apply_one (eff y) = fold apply_one (eff y) \<circ> fold apply_one (eff x)"
    if "x \<in> set txs" "y \<in> set txs" for x y
  proof (cases "x = y")
    case False
    then show ?thesis using assms(1) [OF that] by (auto simp: fun_eq_iff intro!: apply_list_commute)
  qed simp
  then have "fold (\<lambda>t. fold apply_one (eff t)) txs = fold (\<lambda>t. fold apply_one (eff t)) txs'"
    by (rule fold_multiset_equiv) (simp_all add: assms(2))
  then show ?thesis by simp
qed

end

text \<open>The in-memory backends step the optional account at an address.\<close>

definition memory_step :: "bool \<Rightarrow> Apply \<Rightarrow> Account option \<Rightarrow> Account option" where
  "memory_step delete_empty ap oa = memory_apply_one delete_empty ap (\<lambda>_. oa) (apply_address ap)"

interpretation mem: account_backend "memory_apply_one de" "\<lambda>st. st" "memory_step de" "\<lambda>_. ()"
  for de
  by unfold_locales
    (auto simp: memory_apply_one_def memory_step_def Let_def split: Apply.splits)

definition cmemory_step :: "bool \<Rightarrow> Apply \<Rightarrow> Account option \<Rightarrow> Account option" where
  "cmemory_step delete_empty ap oa = cmemory_apply_one delete_empty ap (\<lambda>_. oa) (apply_address ap)"

interpretation cmem: account_backend "cmemory_apply_one de" "\<lambda>st. st" "cmemory_step de" "\<lambda>_. ()"
  for de
  by unfold_locales
    (auto simp: cmemory_apply_one_def cmemory_step_def Let_def split: Apply.splits)



definition storage_view :: "ChaseStorage \<Rightarrow> h160 \<Rightarrow> StoredAccount option \<times> (h256 \<rightharpoonup> h256)" where
  "storage_view db a = (cs_accounts db a, \<lambda>k. cs_slots db (a, k))"

definition storage_step :: "Apply \<Rightarrow> StoredAccount option \<times> (h256 \<rightharpoonup> h256) \<Rightarrow> StoredAccount option \<times> (h256 \<rightharpoonup> h256)" where
  "storage_step ap v = storage_view (persist_apply ap
     \<lparr>cs_accounts = (\<lambda>_. fst v), cs_slots = (\<lambda>(_, k). snd v k), cs_execution_index = None\<rparr>) (apply_address ap)"

lemma put_slot_entry_simps [simp]:
  "cs_accounts (put_slot_entry a x db) = cs_accounts db"
  "cs_execution_index (put_slot_entry a x db) = cs_execution_index db"
  "(\<lambda>k. cs_slots (put_slot_entry a x db) (a, k)) = write_slot x (\<lambda>k. cs_slots db (a, k))"
  "b \<noteq> a \<Longrightarrow> cs_slots (put_slot_entry a x db) (b, k) = cs_slots db (b, k)"
  by (auto simp: put_slot_entry_def put_storage_slot_def write_slot_def fun_eq_iff split: prod.splits)

lemma put_slots_accounts [simp]: "cs_accounts (fold (put_slot_entry a) xs db) = cs_accounts db"
  by (induction xs arbitrary: db) simp_all

lemma put_slots_index [simp]: "cs_execution_index (fold (put_slot_entry a) xs db) = cs_execution_index db"
  by (induction xs arbitrary: db) simp_all

lemma put_slots_other: "b \<noteq> a \<Longrightarrow> cs_slots (fold (put_slot_entry a) xs db) (b, k) = cs_slots db (b, k)"
  by (induction xs arbitrary: db) simp_all

lemma put_slots_same:
  "(\<lambda>k. cs_slots (fold (put_slot_entry a) xs db) (a, k)) = fold write_slot xs (\<lambda>k. cs_slots db (a, k))"
  by (induction xs arbitrary: db) simp_all

lemma put_slots_slot:
  "cs_slots (fold (put_slot_entry a) xs db) (b, k) =
     (if b = a then fold write_slot xs (\<lambda>k. cs_slots db (a, k)) k else cs_slots db (b, k))"
  using put_slots_other [of b a xs db k] fun_cong [OF put_slots_same [of a xs db], of k] by simp

lemmas persist_simps = persist_apply_def remove_storage_for_address_def put_slots_slot

interpretation rocks: account_backend persist_apply storage_view storage_step cs_execution_index
proof unfold_locales
  show "storage_view (persist_apply ap db) a =
      (if a = apply_address ap then storage_step ap (storage_view db a) else storage_view db a)" for ap db a
    by (cases ap) (simp_all add: storage_step_def storage_view_def persist_simps Let_def split: option.split)
  show "cs_execution_index (persist_apply ap db) = cs_execution_index db" for ap db
    by (cases ap) (simp_all add: persist_simps Let_def)
  show "db = db'" if "\<And>a. storage_view db a = storage_view db' a" "cs_execution_index db = cs_execution_index db'"
    for db db' :: ChaseStorage
    using that by (intro ChaseStorage.equality) (auto simp: storage_view_def fun_eq_iff)
qed


section \<open>What the backends hold after an effect\<close>

lemma fold_write_slot:
  "fold write_slot slots m k =
     (case map_of (rev slots) k of Some v \<Rightarrow> if v = 0 then None else Some v | None \<Rightarrow> m k)"
proof (induction slots rule: rev_induct)
  case (snoc e slots)
  then show ?case by (cases e) (simp add: write_slot_def)
qed simp

lemma modify_account_fields [simp]:
  "acc_balance (modify_account b code slots r a) = balance b"
  "acc_nonce (modify_account b code slots r a) = nonce b"
  "acc_code (modify_account b code slots r a) = (case code of Some c \<Rightarrow> c | None \<Rightarrow> acc_code a)"
  "acc_storage (modify_account b code slots r a) =
     fold write_slot slots (remove_zeros (if r then Map.empty else acc_storage a))"
  by (simp_all add: modify_account_def Let_def split: option.split)

text \<open>C27: Reading back an effect.  After the in-memory backend applies a modification without
  deleting empty accounts, the account has the new balance and nonce, its code is the new code if
  one was given, and a slot reads as the last value the effect gives it, as zero if the effect
  resets the storage and does not write the slot, and as before otherwise; every other account reads
  as before.\<close>

theorem memory_apply_reads:
  "let st' = memory_apply False [Modify a b code slots reset] st in
    backend_basic st' a' = (if a' = a then b else backend_basic st a') \<and>
    backend_code st' a' = (if a' = a then (case code of Some c \<Rightarrow> c | None \<Rightarrow> backend_code st a) else backend_code st a') \<and>
    backend_storage st' a' k =
      (if a' = a then (case map_of (rev slots) k of Some v \<Rightarrow> v
         | None \<Rightarrow> if reset then 0 else backend_storage st a k)
       else backend_storage st a' k)"
  by (auto simp: memory_apply_def memory_apply_one_def backend_basic_def backend_code_def
      backend_storage_def Account_default_def fold_write_slot remove_zeros_def Let_def split: option.splits)

text \<open>C29: The concurrent in-memory backend loses modifications.  \<open>CMemoryBackend::apply\<close>, called
  as every commit calls it (without deleting empty accounts), changes only a clone of the account: the
  state afterwards is the state before, minus the accounts the effects delete.\<close>

theorem cmemory_apply_drops_modifications:
  "cmemory_apply False vals st = (\<lambda>a. if Delete a \<in> set vals then None else st a)"
proof (induction vals arbitrary: st)
  case (Cons ap vals)
  have "cmemory_apply False (ap # vals) st = cmemory_apply False vals (cmemory_apply_one False ap st)"
    by (simp add: cmemory_apply_def)
  with Cons show ?case by (cases ap) (auto simp: cmemory_apply_one_def fun_eq_iff)
qed (simp add: cmemory_apply_def)

section \<open>The RocksDB store refines the in-memory backend\<close>

text \<open>A store is consistent when it keeps slots only for accounts it has, keeps no zero value and no
  empty account.  The abstraction is what start-up hydrates from it.\<close>

definition storage_ok :: "ChaseStorage \<Rightarrow> bool" where
  "storage_ok db \<longleftrightarrow> (\<forall>a k v. cs_slots db (a, k) = Some v \<longrightarrow> cs_accounts db a \<noteq> None \<and> v \<noteq> 0) \<and>
     (\<forall>a s. cs_accounts db a = Some s \<longrightarrow> \<not> (sa_balance s = 0 \<and> sa_nonce s = 0 \<and> sa_code s = []))"

definition view_ok :: "StoredAccount option \<times> (h256 \<rightharpoonup> h256) \<Rightarrow> bool" where
  "view_ok v \<longleftrightarrow> (\<forall>k x. snd v k = Some x \<longrightarrow> fst v \<noteq> None \<and> x \<noteq> 0) \<and>
     (\<forall>s. fst v = Some s \<longrightarrow> \<not> (sa_balance s = 0 \<and> sa_nonce s = 0 \<and> sa_code s = []))"

definition view_account :: "StoredAccount option \<times> (h256 \<rightharpoonup> h256) \<Rightarrow> Account option" where
  "view_account v = map_option (\<lambda>s. \<lparr>acc_nonce = sa_nonce s, acc_balance = sa_balance s,
     acc_storage = snd v, acc_code = sa_code s\<rparr>) (fst v)"

lemma storage_ok_view: "storage_ok db \<longleftrightarrow> (\<forall>a. view_ok (storage_view db a))"
  by (auto simp: storage_ok_def view_ok_def storage_view_def)

lemma hydrate_account_view: "hydrate_account db a = view_account (storage_view db a)"
  by (simp add: hydrate_account_def view_account_def storage_view_def)

lemma view_ok_remove_zeros: "view_ok v \<Longrightarrow> remove_zeros (snd v) = snd v"
  by (auto simp: view_ok_def remove_zeros_def fun_eq_iff)

lemma view_ok_None: "view_ok v \<Longrightarrow> fst v = None \<Longrightarrow> snd v = Map.empty"
  by (auto simp: view_ok_def fun_eq_iff)

lemma fold_write_slot_nonzero:
  "(\<And>k. m k \<noteq> Some 0) \<Longrightarrow> fold write_slot slots m k \<noteq> Some 0"
  by (simp add: fold_write_slot split: option.split)

lemma storage_step_refines:
  assumes "view_ok v"
  shows "view_ok (storage_step ap v)" "view_account (storage_step ap v) = memory_step True ap (view_account v)"
proof -
  have nz: "snd v k \<noteq> Some 0" for k using assms by (auto simp: view_ok_def)
  note defs = storage_step_def storage_view_def persist_simps Let_def
  show "view_ok (storage_step ap v)"
  proof (cases ap)
    case (Modify a b code slots r)
    have "fold write_slot slots (\<lambda>k. if r then None else snd v k) k \<noteq> Some 0" for k
      using nz by (simp add: fold_write_slot_nonzero)
    then show ?thesis unfolding Modify
      by (cases r) (auto simp: view_ok_def defs split: option.splits)
  qed (simp add: view_ok_def defs)
  show "view_account (storage_step ap v) = memory_step True ap (view_account v)"
  proof (cases ap)
    case (Modify a b code slots r)
    obtain acc sl where v: "v = (acc, sl)" by (cases v)
    have rz: "remove_zeros sl = sl" "remove_zeros Map.empty = Map.empty"
      using view_ok_remove_zeros [OF assms] by (simp_all add: v remove_zeros_def fun_eq_iff)
    have none: "acc = None \<Longrightarrow> sl = Map.empty" using view_ok_None [OF assms] by (simp add: v)
    show ?thesis
      using none unfolding Modify v
      by (cases acc; cases code; cases r)
        (simp_all add: defs view_account_def memory_step_def memory_apply_one_def modify_account_def
          Account_default_def account_is_empty_def rz)
  qed (simp add: defs view_account_def memory_step_def memory_apply_one_def)
qed

lemma persist_apply_refines:
  assumes "storage_ok db"
  shows "storage_ok (persist_apply ap db)"
    and "hydrate_account (persist_apply ap db) = memory_apply_one True ap (hydrate_account db)"
proof -
  have v: "view_ok (storage_view db a)" for a using assms by (simp add: storage_ok_view)
  show "storage_ok (persist_apply ap db)"
    unfolding storage_ok_view rocks.view_apply using v storage_step_refines(1) by simp
  show "hydrate_account (persist_apply ap db) = memory_apply_one True ap (hydrate_account db)"
  proof
    fix a
    show "hydrate_account (persist_apply ap db) a = memory_apply_one True ap (hydrate_account db) a"
      unfolding hydrate_account_view rocks.view_apply mem.view_apply
      using storage_step_refines(2) [OF v] by (simp add: hydrate_account_view [symmetric])
  qed
qed

text \<open>C28: The RocksDB store implements the in-memory backend that deletes empty accounts.  From a
  consistent store, persisting any list of effects keeps the store consistent, and the accounts that
  a restart hydrates afterwards are exactly those of the in-memory backend after the same effects with
  deletion of empty accounts.\<close>

theorem persist_refines_memory:
  assumes "storage_ok db"
  shows "storage_ok (persist_applies applies db) \<and>
    hydrate_memory_backend (persist_applies applies db) Map.empty =
      memory_apply True applies (hydrate_memory_backend db Map.empty)"
proof -
  have H: "hydrate_memory_backend d Map.empty = hydrate_account d" for d
    by (auto simp: hydrate_memory_backend_def fun_eq_iff split: option.split)
  have "storage_ok (fold persist_apply applies db) \<and>
      hydrate_account (fold persist_apply applies db) = fold (memory_apply_one True) applies (hydrate_account db)"
    using assms
  proof (induction applies arbitrary: db)
    case (Cons ap applies)
    show ?case using Cons.IH [OF persist_apply_refines(1) [OF Cons.prems]] persist_apply_refines(2) [OF Cons.prems]
      by simp
  qed simp
  then show ?thesis by (simp add: persist_applies_def memory_apply_def H)
qed

theorem persist_refines_memory_witness:
  "storage_ok (persist_applies [Modify 9 \<lparr>balance = 5, nonce = 1\<rparr> None [(1, 7)] False]
      \<lparr>cs_accounts = Map.empty, cs_slots = Map.empty, cs_execution_index = None\<rparr>) \<and>
   backend_storage (hydrate_memory_backend
      (persist_applies [Modify 9 \<lparr>balance = 5, nonce = 1\<rparr> None [(1, 7)] False]
        \<lparr>cs_accounts = Map.empty, cs_slots = Map.empty, cs_execution_index = None\<rparr>) Map.empty) 9 1 = 7"
proof -
  have ok: "storage_ok \<lparr>cs_accounts = Map.empty, cs_slots = Map.empty, cs_execution_index = None\<rparr>"
    by (simp add: storage_ok_def)
  show ?thesis
    using persist_refines_memory [OF ok, of "[Modify 9 \<lparr>balance = 5, nonce = 1\<rparr> None [(1, 7)] False]"]
    by (simp add: memory_apply_def memory_apply_one_def modify_account_def account_is_empty_def
        hydrate_memory_backend_def hydrate_account_def Account_default_def backend_storage_def
        remove_zeros_def write_slot_def Let_def)
qed

end
