(* ===== verification/Chase_Core.thy ===== *)
theory Chase_Core
  imports Cds_Scheduler Evm_Storage
begin

text \<open>
  The execution driver (\<open>crates/sslab-execution/chase/src/chase_core.rs\<close>): batches are unpacked and
  numbered, simulated on the current state, scheduled through the conflict graph and the conflict
  detection scheduler, committed, and the aborted transactions are re-executed epoch by epoch and
  validated.  Parameters of the definitions: \<open>sim\<close>, the simulation of one transaction on a state
  (\<open>evm_utils::simulate_tx\<close>); \<open>app\<close>, the backend's \<open>apply_local_effect\<close>; and \<open>sched\<close>, the order in
  which the thread pool happens to run the transactions of one parallel loop, of which only
  the hypothesis that it permutes its input is ever used.  A panic is \<^const>\<open>None\<close>.
\<close>

section \<open>Batches\<close>

definition unpack_batches :: "ExecutableEthereumBatch list \<Rightarrow> BatchDigest list \<times> IndexedEthereumTransaction list" where
  "unpack_batches batches =
     (map batch_digest batches,
      map (\<lambda>(i, tx). \<lparr>itx_tx = tx, itx_id = of_nat i\<rparr>) (enumerate 0 (concat (map batch_data batches))))"

section \<open>Simulation\<close>

datatype ('e, 'a) sim_result = Sim_Err 'e | Sim_Ok "'a option"

type_synonym ('s, 'e) simulator =
  "EthereumTransaction \<Rightarrow> 's \<Rightarrow> ('e, Apply list \<times> Log list \<times> RwSet) sim_result"

definition simulate_one :: "('s, 'e) simulator \<Rightarrow> 's \<Rightarrow> IndexedEthereumTransaction \<Rightarrow> SimulatedTransaction option" where
  "simulate_one sim st tx = (case sim (itx_tx tx) st of
     Sim_Ok (Some (effect, lg, rw)) \<Rightarrow> Some (SimulatedTransaction_new rw effect lg tx)
   | _ \<Rightarrow> None)"

definition simulate :: "('s, 'e) simulator \<Rightarrow> 's \<Rightarrow> IndexedEthereumTransaction list \<Rightarrow> SimulatedTransaction list" where
  "simulate sim st txs = List.map_filter (simulate_one sim st) txs"

definition re_execute_one :: "('s, 'e) simulator \<Rightarrow> 's \<Rightarrow> IndexedEthereumTransaction \<Rightarrow> ReExecutedTransaction option" where
  "re_execute_one sim st tx = (case sim (itx_tx tx) st of
     Sim_Ok (Some (effect, lg, rw)) \<Rightarrow>
       Some \<lparr>re_tx = tx, re_effect = effect, re_log = lg, re_rw_set = rw\<rparr>
   | _ \<Rightarrow> None)"

definition re_execute :: "('s, 'e) simulator \<Rightarrow> 's \<Rightarrow> IndexedEthereumTransaction list \<Rightarrow> ReExecutedTransaction list" where
  "re_execute sim st txs = List.map_filter (re_execute_one sim st) txs"

section \<open>Commit\<close>

record 's exec_state =
  es_state :: 's
  es_collector :: "Apply list option"

definition commit_tx :: "(Apply list \<Rightarrow> 's \<Rightarrow> 's) \<Rightarrow> FinalizedTransaction \<Rightarrow> 's exec_state \<Rightarrow> 's exec_state" where
  "commit_tx app t es =
     es\<lparr>es_collector := map_option (\<lambda>sink. sink @ fin_effect t) (es_collector es),
        es_state := app (fin_effect t) (es_state es)\<rparr>"

text \<open>Chains run in parallel, so \<open>chain_sched\<close> picks an interleaving of them.\<close>

definition commit_cds_conflict_free_zone ::
    "(FinalizedTransaction list list \<Rightarrow> FinalizedTransaction list) \<Rightarrow> (Apply list \<Rightarrow> 's \<Rightarrow> 's) \<Rightarrow>
     FinalizedTransaction list list \<Rightarrow> 's exec_state \<Rightarrow> 's exec_state" where
  "commit_cds_conflict_free_zone chain_sched app zone es = fold (commit_tx app) (chain_sched zone) es"

definition concurrent_commit ::
    "(FinalizedTransaction list \<Rightarrow> FinalizedTransaction list) \<Rightarrow> (Apply list \<Rightarrow> 's \<Rightarrow> 's) \<Rightarrow>
     FinalizedTransaction list list \<Rightarrow> 's exec_state \<Rightarrow> 's exec_state" where
  "concurrent_commit sched app scheduled_txs es =
     fold (\<lambda>txs es. fold (commit_tx app) (sched txs) es) scheduled_txs es"

record commit_order =
  co_chains :: "FinalizedTransaction list list \<Rightarrow> FinalizedTransaction list"
  co_epoch :: "FinalizedTransaction list \<Rightarrow> FinalizedTransaction list"

definition commit_cds_schedule ::
    "commit_order \<Rightarrow> (Apply list \<Rightarrow> 's \<Rightarrow> 's) \<Rightarrow> ScheduledInfo \<Rightarrow> 's exec_state \<Rightarrow>
     AbortedTransaction list list \<times> 's exec_state" where
  "commit_cds_schedule ord app s es =
     (let es1 = commit_cds_conflict_free_zone (co_chains ord) app (conflict_free_zone s) es;
          es2 = concurrent_commit (co_epoch ord) app (conflict_zone_finalized s) es1
      in (conflict_zone_aborted s, es2))"

definition concurrent_commit_2 ::
    "commit_order \<Rightarrow> (Apply list \<Rightarrow> 's \<Rightarrow> 's) \<Rightarrow> ReExecutedTransaction list \<Rightarrow> 's exec_state \<Rightarrow> 's exec_state" where
  "concurrent_commit_2 ord app txs es =
     concurrent_commit (co_epoch ord) app [map Finalized_from_ReExecuted txs] es"

section \<open>Validation of re-executed transactions\<close>

definition validate_step :: "ReExecutedTransaction \<Rightarrow>
    ReExecutedTransaction list \<times> ReExecutedTransaction list \<times> h256 set \<Rightarrow>
    ReExecutedTransaction list \<times> ReExecutedTransaction list \<times> h256 set" where
  "validate_step t = (\<lambda>(valid_txs, invalid_txs, ws).
     if is_disjoint (re_write_set t) ws then (valid_txs @ [t], invalid_txs, ws \<union> re_write_set t)
     else (valid_txs, invalid_txs @ [t], ws))"

definition split_valid :: "ReExecutedTransaction list \<Rightarrow> ReExecutedTransaction list \<times> ReExecutedTransaction list" where
  "split_valid txs = (let (valid_txs, invalid_txs, _) = fold validate_step txs ([], [], {}) in (valid_txs, invalid_txs))"

definition validate_optimistic_assumption ::
    "commit_order \<Rightarrow> (Apply list \<Rightarrow> 's \<Rightarrow> 's) \<Rightarrow> ReExecutedTransaction list \<Rightarrow> 's exec_state \<Rightarrow>
     ReExecutedTransaction list option \<times> 's exec_state" where
  "validate_optimistic_assumption ord app txs es =
     (if length txs = 1 then (None, concurrent_commit_2 ord app txs es)
      else let (valid_txs, invalid_txs) = split_valid txs
           in (if invalid_txs = [] then None else Some invalid_txs,
               concurrent_commit_2 ord app valid_txs es))"

section \<open>The driver\<close>

record features =
  last_committer_wins :: bool
  disable_rescheduling :: bool

text \<open>\<open>_execute\<close>: first pass through the graph and the scheduler, then one validation per epoch of
  aborted transactions.  Invalidated transactions are only logged.\<close>

definition re_execute_epoch ::
    "commit_order \<Rightarrow> ('s, 'e) simulator \<Rightarrow> (Apply list \<Rightarrow> 's \<Rightarrow> 's) \<Rightarrow> AbortedTransaction list \<Rightarrow>
     's exec_state \<Rightarrow> 's exec_state" where
  "re_execute_epoch ord sim app txs es =
     snd (validate_optimistic_assumption ord app (re_execute sim (es_state es) (map ab_raw_tx txs)) es)"

definition schedule_batch :: "features \<Rightarrow> nat \<Rightarrow> tx_store \<Rightarrow> SimulatedTransaction list \<Rightarrow> ScheduledInfo option" where
  "schedule_batch ft ncpu h rw_sets = do {
     g0 \<leftarrow> par_construct ncpu h rw_sets;
     g1 \<leftarrow> hierarchcial_sort (last_committer_wins ft) g0;
     g2 \<leftarrow> reorder g1;
     fst (extract_schedule (disable_rescheduling ft) g2) }"

definition execute ::
    "features \<Rightarrow> nat \<Rightarrow> tx_store \<Rightarrow> commit_order \<Rightarrow> ('s, 'e) simulator \<Rightarrow> (Apply list \<Rightarrow> 's \<Rightarrow> 's) \<Rightarrow>
     ExecutableEthereumBatch list \<Rightarrow> 's exec_state \<Rightarrow> (BatchDigest list \<times> 's exec_state) option" where
  "execute ft ncpu h ord sim app batches es =
     (let (digests, txs) = unpack_batches batches;
          rw_sets = simulate sim (es_state es) txs
      in do {
        schedule \<leftarrow> schedule_batch ft ncpu h rw_sets;
        let (aborted_epochs, es1) = commit_cds_schedule ord app schedule es;
        Some (digests, fold (re_execute_epoch ord sim app) aborted_epochs es1) })"

definition execute_batch_with_effects ::
    "(ExecutableEthereumBatch list \<Rightarrow> 's exec_state \<Rightarrow> (BatchDigest list \<times> 's exec_state) option) \<Rightarrow>
     ExecutableEthereumBatch \<Rightarrow> 's exec_state \<Rightarrow> (BatchDigest list \<times> Apply list \<times> 's exec_state) option" where
  "execute_batch_with_effects exec batch es = do {
     (digests, es') \<leftarrow> exec [batch] (es\<lparr>es_collector := Some []\<rparr>);
     Some (digests, case es_collector es' of Some effs \<Rightarrow> effs | None \<Rightarrow> [], es'\<lparr>es_collector := None\<rparr>) }"

text \<open>\<open>prepare_execution\<close> loops while batches remain.  The outer \<^const>\<open>None\<close> means that the loop
  does not end, \<open>Some None\<close> that it panics.\<close>

partial_function (option) prepare_loop ::
    "(ExecutableEthereumBatch list \<Rightarrow> 's exec_state \<Rightarrow> (BatchDigest list \<times> 's exec_state) option) \<Rightarrow> nat \<Rightarrow>
     ExecutableEthereumBatch list \<Rightarrow> BatchDigest list \<Rightarrow> 's exec_state \<Rightarrow>
     (BatchDigest list \<times> 's exec_state) option option" where
  "prepare_loop exec concurrency_level target result es =
     (if target = [] then Some (Some (result, es))
      else let split_idx = min concurrency_level (length target)
           in case exec (take split_idx target) es of
                None \<Rightarrow> Some None
              | Some (digests, es') \<Rightarrow>
                  prepare_loop exec concurrency_level (drop split_idx target) (result @ digests) es')"

definition prepare_execution ::
    "(ExecutableEthereumBatch list \<Rightarrow> 's exec_state \<Rightarrow> (BatchDigest list \<times> 's exec_state) option) \<Rightarrow> nat \<Rightarrow>
     ExecutableEthereumBatch list \<Rightarrow> 's exec_state \<Rightarrow> (BatchDigest list \<times> 's exec_state) option option" where
  "prepare_execution exec concurrency_level consensus_output es =
     prepare_loop exec concurrency_level consensus_output [] es"

section \<open>Metrics of a schedule\<close>

text \<open>The integer components of \<open>parallism_metric\<close>: total, maximal width and depth.\<close>

definition parallism_counts :: "ScheduledInfo \<Rightarrow> nat \<times> nat \<times> nat" where
  "parallism_counts s =
     (let epochs = first_pass_epochs s
      in (scheduled_txs_len s + aborted_txs_len s,
          fold (\<lambda>ep m. max (length ep) m) epochs 0, max (length epochs) 1))"

section \<open>Unpacking and simulation\<close>

lemma unpack_ids:
  "map itx_id (snd (unpack_batches bs)) = map of_nat [0..<length (concat (map batch_data bs))]"
proof -
  have "map itx_id (map (\<lambda>(i, tx). \<lparr>itx_tx = tx, itx_id = of_nat i\<rparr>) ps) = map (\<lambda>p. of_nat (fst p)) ps"
    for ps :: "(nat \<times> EthereumTransaction) list"
    by (simp add: case_prod_beta)
  also have "map (\<lambda>p. of_nat (fst p)) ps = map of_nat (map fst ps)" for ps :: "(nat \<times> EthereumTransaction) list"
    by simp
  finally show ?thesis by (simp add: unpack_batches_def del: map_map)
qed

lemma distinct_unpack_ids:
  assumes "length (concat (map batch_data bs)) < 2 ^ 64"
  shows "distinct (map itx_id (snd (unpack_batches bs)))"
proof -
  have "inj_on (of_nat :: nat \<Rightarrow> u64) (set [0..<length (concat (map batch_data bs))])"
    using assms by (intro inj_onI) (auto simp: word_of_nat_eq_iff take_bit_nat_eq_self)
  then show ?thesis unfolding unpack_ids by (simp add: distinct_map)
qed

lemma simulate_one_id: "simulate_one sim st tx = Some s \<Longrightarrow> sim_id s = itx_id tx"
  by (auto simp: simulate_one_def SimulatedTransaction_new_def split: sim_result.splits option.splits)

lemma simulate_Cons:
  "simulate sim st (tx # txs) = (case simulate_one sim st tx of Some s \<Rightarrow> s # simulate sim st txs | None \<Rightarrow> simulate sim st txs)"
  by (simp add: simulate_def List.map_filter_def split: option.split)

lemma simulate_ids: "sim_id ` set (simulate sim st txs) \<subseteq> itx_id ` set txs"
proof (induction txs)
  case (Cons tx txs)
  then show ?case by (auto simp: simulate_Cons dest: simulate_one_id split: option.splits)
qed (simp add: simulate_def List.map_filter_def)

lemma distinct_simulate_ids:
  "distinct (map itx_id txs) \<Longrightarrow> distinct (map sim_id (simulate sim st txs))"
proof (induction txs)
  case (Cons tx txs)
  then have fresh: "itx_id tx \<notin> sim_id ` set (simulate sim st txs)" using simulate_ids [of sim st txs] by auto
  show ?case
  proof (cases "simulate_one sim st tx")
    case (Some s)
    then show ?thesis using Cons fresh simulate_one_id [OF Some] by (simp add: simulate_Cons)
  qed (use Cons in \<open>simp add: simulate_Cons\<close>)
qed (simp add: simulate_def List.map_filter_def)

section \<open>The schedule of a batch\<close>

lemma schedule_batch_SomeD:
  assumes "distinct (map sim_id sims)" "schedule_batch ft ncpu h sims = Some s"
  obtains g where "acg_wf g" "acg_ids g = mset (map sim_id sims)"
    "build_cds_schedule (disable_rescheduling ft) (map (store g) (tx_list g)) (map (store g) (aborted_txs g)) = Some s"
proof -
  obtain g0 g1 g where p: "par_construct ncpu h sims = Some g0"
      "hierarchcial_sort (last_committer_wins ft) g0 = Some g1" "reorder g1 = Some g"
    and e: "fst (extract_schedule (disable_rescheduling ft) g) = Some s"
    using assms(2) by (auto simp: schedule_batch_def bind_eq_Some_conv)
  note w0 = par_construct_wf [OF assms(1) p(1)]
  have w1: "acg_wf g1" "acg_ids g1 = acg_ids g0"
    using hierarchcial_sort_ok [OF w0(1), of "last_committer_wins ft"] p(2) by auto
  have w2: "acg_wf g" "acg_ids g = acg_ids g1" using reorder_ok [OF w1(1)] p(3) by auto
  show thesis by (rule that [OF w2(1)]) (use w0 w1 w2 e in \<open>simp_all add: extract_schedule_def\<close>)
qed

text \<open>C1: Scheduling loses and invents nothing.  When a batch with distinct ids is scheduled (with
  rescheduling enabled, whatever the number of workers), the two finalized zones and the aborted zone of
  the schedule together hold every simulated transaction exactly once.\<close>

theorem schedule_batch_complete:
  assumes "distinct (map sim_id sims)" "schedule_batch ft ncpu h sims = Some s" "\<not> disable_rescheduling ft"
  shows "mset (map fin_id (concat (conflict_free_zone s) @ concat (conflict_zone_finalized s)) @
      map AbortedTransaction_id (concat (conflict_zone_aborted s))) = mset (map sim_id sims)"
proof -
  obtain g where wf: "acg_wf g" and ids: "acg_ids g = mset (map sim_id sims)"
    and e: "build_cds_schedule (disable_rescheduling ft) (map (store g) (tx_list g)) (map (store g) (aborted_txs g)) = Some s"
    using assms(1,2) by (rule schedule_batch_SomeD)
  note B = build_cds_schedule_mset [OF e]
  have own: "tx_id (store g i) = i" "itx_id (raw_tx (store g i)) = i" if "i \<in> set (tx_list g @ aborted_txs g)" for i
    using wf that unfolding acg_wf_def by blast+
  have "mset (map fin_id (concat (conflict_free_zone s) @ concat (conflict_zone_finalized s))) =
      image_mset fin_id (mset (map to_finalized (map (store g) (tx_list g))))"
    using B(1) by (simp flip: image_mset_union)
  also have "\<dots> = mset (map (\<lambda>i. tx_id (store g i)) (tx_list g))"
    by (simp add: image_mset.compositionality comp_def to_finalized_def)
  also have "map (\<lambda>i. tx_id (store g i)) (tx_list g) = tx_list g"
    using own by (intro map_idI) auto
  finally have fin: "mset (map fin_id (concat (conflict_free_zone s) @ concat (conflict_zone_finalized s))) = mset (tx_list g)" .
  have "mset (concat (conflict_zone_aborted s)) = mset (map to_aborted (map (store g) (aborted_txs g)))"
    using assms(3) by (simp add: B(2) conflict_zone_aborted_eq mset_epochs_of)
  then have "mset (map AbortedTransaction_id (concat (conflict_zone_aborted s))) =
      mset (map (\<lambda>i. itx_id (raw_tx (store g i))) (aborted_txs g))"
    by (simp add: image_mset.compositionality comp_def AbortedTransaction_id_def to_aborted_def)
  also have "map (\<lambda>i. itx_id (raw_tx (store g i))) (aborted_txs g) = aborted_txs g"
    using own by (intro map_idI) auto
  finally show ?thesis using fin ids by (simp add: acg_ids_def flip: add.assoc)
qed

section \<open>Termination, order of the digests and panics of the driver\<close>

lemma execute_digests: "execute ft ncpu h ord sim app bs es = Some (ds, es') \<Longrightarrow> ds = map batch_digest bs"
  by (auto simp: execute_def unpack_batches_def Let_def bind_eq_Some_conv case_prod_beta)

lemma execute_empty: "execute ft ncpu h ord sim app bs es = None"
  if "simulate sim (es_state es) (snd (unpack_batches bs)) = []"
  using that par_construct_None_iff [of ncpu h "[]"]
  by (simp add: execute_def schedule_batch_def case_prod_beta Let_def)

lemma prepare_loop_ok:
  assumes "0 < lvl" and "\<And>bs es ds es'. exec bs es = Some (ds, es') \<Longrightarrow> ds = map batch_digest bs"
  shows "prepare_loop exec lvl bs result es = Some None \<or>
    (\<exists>es'. prepare_loop exec lvl bs result es = Some (Some (result @ map batch_digest bs, es')))"
proof (induction bs arbitrary: result es rule: length_induct)
  case (1 bs)
  show ?case
  proof (cases "bs = []")
    case True
    then show ?thesis by (simp add: prepare_loop.simps)
  next
    case False
    define k where "k = min lvl (length bs)"
    show ?thesis
    proof (cases "exec (take k bs) es")
      case None
      then show ?thesis using False by (simp add: prepare_loop.simps [of _ _ bs] k_def Let_def)
    next
      case (Some p)
      obtain ds es1 where p: "p = (ds, es1)" by (cases p)
      have ds: "ds = map batch_digest (take k bs)" using assms(2) Some p by blast
      have "length (drop k bs) < length bs" using assms(1) False by (simp add: k_def)
      from 1 [rule_format, OF this, of "result @ ds" es1]
      show ?thesis using False Some p ds
        by (simp add: prepare_loop.simps [of _ _ bs] k_def Let_def flip: map_append)
    qed
  qed
qed

text \<open>C25: The driver loop terminates.  For every concurrency level above zero \<open>prepare_execution\<close>
  returns or panics, and when it returns, it reports the digest of every batch of the consensus output,
  in order.\<close>

theorem prepare_execution_terminates:
  assumes "0 < lvl"
  shows "prepare_execution (execute ft ncpu h ord sim app) lvl bs es = Some None \<or>
    (\<exists>es'. prepare_execution (execute ft ncpu h ord sim app) lvl bs es = Some (Some (map batch_digest bs, es')))"
  using prepare_loop_ok [OF assms, of "execute ft ncpu h ord sim app" bs "[]" es] execute_digests
  by (fastforce simp: prepare_execution_def)

text \<open>C26: A round without a successful simulation panics.  When every simulation of a round fails,
  in particular when its batches are empty, \<open>_execute\<close> panics in the conflict graph; and with the
  concurrency level zero the driver's first round is empty, so every non-empty consensus output panics.\<close>

theorem execute_panics_without_simulations:
  "(simulate sim (es_state es) (snd (unpack_batches bs)) = [] \<longrightarrow> execute ft ncpu h ord sim app bs es = None) \<and>
   (bs \<noteq> [] \<longrightarrow> prepare_execution (execute ft ncpu h ord sim app) 0 bs es = Some None)"
proof -
  have "simulate sim (es_state es) (snd (unpack_batches [])) = []"
    by (simp add: unpack_batches_def simulate_def List.map_filter_def)
  then show ?thesis
    using execute_empty [of sim es bs] execute_empty [of sim es "[]"]
    by (simp add: prepare_execution_def prepare_loop.simps)
qed


section \<open>Validation accepts a conflict-free selection\<close>

definition validation_ok :: "ReExecutedTransaction list \<Rightarrow>
    ReExecutedTransaction list \<times> ReExecutedTransaction list \<times> h256 set \<Rightarrow> bool" where
  "validation_ok txs = (\<lambda>(v, i, ws). mset v + mset i = mset txs \<and> ws = \<Union> (re_write_set ` set v) \<and>
     sorted_wrt (\<lambda>a b. re_write_set a \<inter> re_write_set b = {}) v \<and>
     (\<forall>t\<in>set i. \<exists>u\<in>set v. re_write_set t \<inter> re_write_set u \<noteq> {}))"

lemma validate_fold_ok: "validation_ok txs (fold validate_step txs ([], [], {}))"
proof (induction txs rule: rev_induct)
  case (snoc t txs)
  obtain v i ws where p: "fold validate_step txs ([], [], {}) = (v, i, ws)" by (metis prod_cases3)
  show ?case
    using snoc unfolding p fold_append comp_apply
    by (auto simp: validation_ok_def validate_step_def sorted_wrt_append)
qed (simp add: validation_ok_def)

lemma split_valid_ok:
  assumes "split_valid txs = (v, i)"
  shows "mset v + mset i = mset txs" "sorted_wrt (\<lambda>a b. re_write_set a \<inter> re_write_set b = {}) v"
    "t \<in> set i \<Longrightarrow> \<exists>u\<in>set v. re_write_set t \<inter> re_write_set u \<noteq> {}"
  using validate_fold_ok [of txs] assms
  by (auto simp: validation_ok_def split_valid_def Let_def split: prod.splits)

lemma split_valid_single: "split_valid [t] = ([t], [])"
  by (simp add: split_valid_def validate_step_def)

text \<open>C24: Validation of a re-executed epoch.  It commits a sub-collection whose new write sets are
  pairwise disjoint, reports exactly the rest as invalid, and every transaction it reports writes a key
  that a committed one writes.\<close>

theorem validate_optimistic_assumption_sound:
  "\<exists>v i. mset v + mset i = mset txs \<and>
     sorted_wrt (\<lambda>a b. re_write_set a \<inter> re_write_set b = {}) v \<and>
     (\<forall>t\<in>set i. \<exists>u\<in>set v. re_write_set t \<inter> re_write_set u \<noteq> {}) \<and>
     validate_optimistic_assumption ord app txs es =
       (if i = [] then None else Some i, concurrent_commit_2 ord app v es)"
proof -
  obtain v i where s: "split_valid txs = (v, i)" by (metis surj_pair)
  have "validate_optimistic_assumption ord app txs es =
      (if i = [] then None else Some i, concurrent_commit_2 ord app v es)"
  proof (cases "length txs = 1")
    case True
    then obtain t where t: "txs = [t]" by (auto simp: length_Suc_conv)
    then have "v = [t]" "i = []" using s split_valid_single [of t] by auto
    then show ?thesis by (simp add: t validate_optimistic_assumption_def)
  qed (simp add: validate_optimistic_assumption_def s)
  with split_valid_ok [OF s] show ?thesis by blast
qed

section \<open>Committing an epoch in any order\<close>

text \<open>An effect that only writes slots from a given set of keys and sets the balance and nonce that
  the account has anyway.\<close>

definition storage_effect :: "(h160 \<Rightarrow> Basic) \<Rightarrow> h256 set \<Rightarrow> Apply \<Rightarrow> bool" where
  "storage_effect B K ap = (case ap of
     Modify a b code slots reset \<Rightarrow> b = B a \<and> code = None \<and> \<not> reset \<and> fst ` set slots \<subseteq> K
   | Delete _ \<Rightarrow> False)"

lemma remove_zeros_fold_write:
  "(\<And>k. m k \<noteq> Some 0) \<Longrightarrow> remove_zeros (fold write_slot slots m) = fold write_slot slots m"
  using fold_write_slot_nonzero [of m slots] by (auto simp: remove_zeros_def fun_eq_iff)

lemma remove_zeros_nonzero: "remove_zeros m k \<noteq> Some 0"
  by (simp add: remove_zeros_def)

lemma fold_write_slot_commute:
  assumes "fst ` set p \<inter> fst ` set q = {}"
  shows "fold write_slot p (fold write_slot q m) = fold write_slot q (fold write_slot p m)"
proof
  fix k
  have "map_of (rev p) k = None \<or> map_of (rev q) k = None"
    using assms by (auto simp: map_of_eq_None_iff)
  then show "fold write_slot p (fold write_slot q m) k = fold write_slot q (fold write_slot p m) k"
    by (elim disjE) (simp_all add: fold_write_slot split: option.split)
qed

lemma storage_effectE:
  assumes "storage_effect B K p"
  obtains a slots where "p = Modify a (B a) None slots False" "fst ` set slots \<subseteq> K"
  using assms by (cases p) (simp_all add: storage_effect_def)

lemma memory_step_slots:
  "memory_step False (Modify a b None slots False) oa =
     Some (modify_account b None slots False (case oa of Some acc \<Rightarrow> acc | None \<Rightarrow> Account_default))"
  by (simp add: memory_step_def memory_apply_one_def)

lemma modify_slots_twice:
  "modify_account b None ps False (modify_account b None qs False acc) =
     acc\<lparr>acc_balance := balance b, acc_nonce := nonce b,
         acc_storage := fold write_slot ps (fold write_slot qs (remove_zeros (acc_storage acc)))\<rparr>"
  by (simp add: modify_account_def remove_zeros_fold_write remove_zeros_nonzero)

lemma storage_effects_commute:
  assumes "storage_effect B K p" "storage_effect B L q" "K \<inter> L = {}" "apply_address p = apply_address q"
  shows "memory_step False p \<circ> memory_step False q = memory_step False q \<circ> memory_step False p"
proof -
  obtain a ps where p: "p = Modify a (B a) None ps False" "fst ` set ps \<subseteq> K"
    using assms(1) by (rule storage_effectE)
  obtain a' qs where q': "q = Modify a' (B a') None qs False" "fst ` set qs \<subseteq> L"
    using assms(2) by (rule storage_effectE)
  have q: "q = Modify a (B a) None qs False" using q'(1) assms(4) by (simp add: p(1))
  have "fst ` set ps \<inter> fst ` set qs = {}" using p(2) q'(2) assms(3) by blast
  from fold_write_slot_commute [OF this] show ?thesis
    unfolding p(1) q by (simp add: fun_eq_iff memory_step_slots modify_slots_twice)
qed

lemma es_state_commit_fold:
  "es_state (fold (commit_tx app) txs es) = fold (\<lambda>t. app (fin_effect t)) txs (es_state es)"
  by (induction txs arbitrary: es) (simp_all add: commit_tx_def)

lemma sorted_wrt_pair:
  "sorted_wrt P xs \<Longrightarrow> x \<in> set xs \<Longrightarrow> y \<in> set xs \<Longrightarrow> x = y \<or> P x y \<or> P y x"
  by (induction xs) auto

lemma commit_epoch_any_order:
  fixes ep :: "TxWithKeys list"
  assumes "\<And>xs. mset (sched xs) = mset xs"
    and "sorted_wrt (\<lambda>a b. twk_write_keys a \<inter> twk_write_keys b = {}) ep"
    and "\<And>t. t \<in> set ep \<Longrightarrow> list_all (storage_effect B (twk_write_keys t)) (fin_effect (twk_finalized t))"
  shows "fold (\<lambda>t. memory_apply False (fin_effect t)) (sched (map twk_finalized ep)) st =
    fold (\<lambda>t. memory_apply False (fin_effect t)) (map twk_finalized ep) st"
proof -
  have comm: "(\<forall>p\<in>set (fin_effect x). \<forall>q\<in>set (fin_effect y). apply_address p = apply_address q \<longrightarrow>
      memory_step False p \<circ> memory_step False q = memory_step False q \<circ> memory_step False p) \<or> x = y"
    if xy: "x \<in> set (map twk_finalized ep)" "y \<in> set (map twk_finalized ep)" for x y
  proof (cases "x = y")
    case False
    obtain a b :: TxWithKeys where ab: "a \<in> set ep" "b \<in> set ep" "x = twk_finalized a" "y = twk_finalized b"
      using xy by auto
    have d: "twk_write_keys a \<inter> twk_write_keys b = {}"
      using sorted_wrt_pair [OF assms(2) ab(1,2)] False ab(3,4) by (auto simp: Int_commute)
    have "memory_step False p \<circ> memory_step False q = memory_step False q \<circ> memory_step False p"
      if "p \<in> set (fin_effect x)" "q \<in> set (fin_effect y)" "apply_address p = apply_address q" for p q
      by (rule storage_effects_commute [OF _ _ d that(3), of B])
        (use assms(3) [OF ab(1)] assms(3) [OF ab(2)] that(1,2) in \<open>simp_all add: ab(3,4) list_all_iff\<close>)
    then show ?thesis by blast
  qed simp
  show ?thesis
    unfolding memory_apply_def by (rule mem.apply_any_order [OF comm assms(1)])
qed

text \<open>C23: Parallel commit of the conflict zone is deterministic.  If the effects of every
  transaction only write slots of its write set and repeat the balance and nonce of the accounts they
  touch, the state after committing the epochs of the scheduler does not depend on the order in which
  the thread pool runs the transactions of an epoch.\<close>

theorem conflict_zone_commit_deterministic:
  assumes "\<And>xs. mset (sched xs) = mset xs"
    and "\<And>t. t \<in> set txs \<Longrightarrow> list_all (storage_effect B (ai_write_keys (abort_info t))) (effects t)"
  shows "es_state (concurrent_commit sched (memory_apply False) (schedule_conflict_zone_finalized txs) es) =
    es_state (concurrent_commit (\<lambda>xs. xs) (memory_apply False) (schedule_conflict_zone_finalized txs) es)"
proof -
  define eps where "eps = epochs_of twk_read_keys twk_write_keys (sort_key twk_id (map from_transaction txs))"
  have sch: "schedule_conflict_zone_finalized txs = map (map twk_finalized) eps"
    by (simp add: schedule_conflict_zone_finalized_def place_into_epochs_eq eps_def)
  have disj: "sorted_wrt (\<lambda>a b. twk_write_keys a \<inter> twk_write_keys b = {}) ep" if "ep \<in> set eps" for ep
    by (rule sorted_wrt_mono_rel [OF _ epochs_of_conflict_free [OF that [unfolded eps_def]]]) auto
  have all: "set (concat eps) = from_transaction ` set txs"
    unfolding eps_def using mset_eq_setD [OF mset_epochs_of] by (metis set_map set_sort)
  have eff: "list_all (storage_effect B (twk_write_keys t)) (fin_effect (twk_finalized t))"
    if ep: "ep \<in> set eps" "t \<in> set ep" for ep t
  proof -
    have "t \<in> set (concat eps)" using ep by auto
    then obtain x where x: "x \<in> set txs" "t = from_transaction x" unfolding all by blast
    show ?thesis using assms(2) [OF x(1)] by (simp add: x(2) from_transaction_def to_finalized_def)
  qed
  have "es_state (concurrent_commit sched (memory_apply False) (map (map twk_finalized) es') e1) =
      es_state (concurrent_commit (\<lambda>xs. xs) (memory_apply False) (map (map twk_finalized) es') e2)"
    if "set es' \<subseteq> set eps" "es_state e1 = es_state e2" for es' and e1 e2 :: "accounts exec_state"
    using that
  proof (induction es' arbitrary: e1 e2)
    case (Cons ep es')
    have e: "ep \<in> set eps" using Cons.prems(1) by simp
    have "es_state (fold (commit_tx (memory_apply False)) (sched (map twk_finalized ep)) e1) =
        es_state (fold (commit_tx (memory_apply False)) (map twk_finalized ep) e2)"
      using commit_epoch_any_order [OF assms(1) disj [OF e] eff [OF e]] Cons.prems(2)
      by (simp add: es_state_commit_fold)
    with Cons.IH Cons.prems(1) show ?case by (simp add: concurrent_commit_def)
  qed (simp add: concurrent_commit_def)
  then show ?thesis unfolding sch by blast
qed


section \<open>A race that the lost units cause\<close>

definition sample_features :: features where
  "sample_features = \<lparr>last_committer_wins = False, disable_rescheduling = False\<rparr>"

definition sample_order :: "(FinalizedTransaction list list \<Rightarrow> FinalizedTransaction list list) \<Rightarrow> commit_order" where
  "sample_order f = \<lparr>co_chains = concat \<circ> f, co_epoch = (\<lambda>xs. xs)\<rparr>"

definition racing_batch :: "SimulatedTransaction list" where
  "racing_batch = [sample_sim 0 [1] [1], sample_sim 1 [5] [], sample_sim 2 [5] [],
     sample_sim 3 [1] [1], sample_sim 4 [] [1], sample_sim 5 [] [1]]"

definition racing_zone :: "FinalizedTransaction list list" where
  "racing_zone = (case schedule_batch sample_features 2 sample_store racing_batch of
     Some s \<Rightarrow> conflict_free_zone s | None \<Rightarrow> [])"

definition racing_slot :: "(FinalizedTransaction list list \<Rightarrow> FinalizedTransaction list) \<Rightarrow> h256" where
  "racing_slot chain_sched = backend_storage
     (es_state (commit_cds_conflict_free_zone chain_sched (memory_apply False) racing_zone
        \<lparr>es_state = Map.empty, es_collector = None\<rparr>)) 9 1"


section \<open>Witnesses\<close>

definition sample_simulator :: "(accounts, unit) simulator" where
  "sample_simulator tx st = (case tt_nonce tx of
     None \<Rightarrow> Sim_Err ()
   | Some n \<Rightarrow> Sim_Ok (Some ([Modify 9 \<lparr>balance = 0, nonce = 0\<rparr> None [(n, n + 1)] False], [],
       \<lparr>read_set = [(9, [(n, backend_storage st 9 n)])], write_set = [(9, [(n, n + 1)])]\<rparr>)))"

definition sample_batch :: "h256 \<Rightarrow> u256 option list \<Rightarrow> ExecutableEthereumBatch" where
  "sample_batch d ns = \<lparr>batch_digest = d, batch_data = map (\<lambda>n. sample_tx\<lparr>tt_nonce := n\<rparr>) ns\<rparr>"

abbreviation sample_execute :: "ExecutableEthereumBatch list \<Rightarrow> accounts exec_state \<Rightarrow>
    (BatchDigest list \<times> accounts exec_state) option" where
  "sample_execute \<equiv> execute sample_features 2 sample_store (sample_order (\<lambda>x. x)) sample_simulator (memory_apply False)"

abbreviation sample_state :: "accounts exec_state" where
  "sample_state \<equiv> \<lparr>es_state = Map.empty, es_collector = None\<rparr>"

theorem schedule_batch_complete_witness:
  "\<exists>s. schedule_batch sample_features 2 sample_store racing_batch = Some s \<and>
     mset (map fin_id (concat (conflict_free_zone s) @ concat (conflict_zone_finalized s)) @
      map AbortedTransaction_id (concat (conflict_zone_aborted s))) = mset (map sim_id racing_batch)"
proof -
  have d: "distinct (map sim_id racing_batch)" by code_simp
  have "schedule_batch sample_features 2 sample_store racing_batch \<noteq> None" by code_simp
  then obtain s where s: "schedule_batch sample_features 2 sample_store racing_batch = Some s" by auto
  have "\<not> disable_rescheduling sample_features" by (simp add: sample_features_def)
  from schedule_batch_complete [OF d s this] s show ?thesis by blast
qed

theorem prepare_execution_terminates_witness:
  "prepare_execution sample_execute 1 [sample_batch 3 [Some 1], sample_batch 4 [Some 1, None]] sample_state = Some None \<or>
   (\<exists>es'. prepare_execution sample_execute 1 [sample_batch 3 [Some 1], sample_batch 4 [Some 1, None]] sample_state =
      Some (Some ([3, 4], es')))"
  using prepare_execution_terminates [where lvl = 1 and ft = sample_features and ncpu = 2 and h = sample_store and
      ord = "sample_order (\<lambda>x. x)" and sim = sample_simulator and app = "memory_apply False" and
      bs = "[sample_batch 3 [Some 1], sample_batch 4 [Some 1, None]]" and es = sample_state]
  by (simp add: sample_batch_def)

theorem execute_panics_without_simulations_witness:
  "sample_execute [sample_batch 3 [None]] sample_state = None \<and>
   prepare_execution sample_execute 0 [sample_batch 3 [Some 1]] sample_state = Some None"
proof -
  have "simulate sample_simulator (es_state sample_state) (snd (unpack_batches [sample_batch 3 [None]])) = []"
    by code_simp
  then show ?thesis
    using execute_panics_without_simulations [of sample_simulator sample_state "[sample_batch 3 [None]]"
        sample_features 2 sample_store "sample_order (\<lambda>x. x)" "memory_apply False"]
      execute_panics_without_simulations [of sample_simulator sample_state "[sample_batch 3 [Some 1]]"
        sample_features 2 sample_store "sample_order (\<lambda>x. x)" "memory_apply False"] by blast
qed

definition sample_re :: "u64 \<Rightarrow> h256 list \<Rightarrow> ReExecutedTransaction" where
  "sample_re i ws = \<lparr>re_tx = \<lparr>itx_tx = sample_tx, itx_id = i\<rparr>, re_effect = [], re_log = [],
     re_rw_set = \<lparr>read_set = [], write_set = [(9, map (\<lambda>k. (k, 1)) ws)]\<rparr>\<rparr>"

theorem validate_optimistic_assumption_sound_witness:
  "\<exists>v i. mset v + mset i = mset [sample_re 0 [1], sample_re 1 [1]] \<and>
     sorted_wrt (\<lambda>a b. re_write_set a \<inter> re_write_set b = {}) v \<and>
     validate_optimistic_assumption (sample_order (\<lambda>x. x)) (memory_apply False)
       [sample_re 0 [1], sample_re 1 [1]] sample_state =
       (if i = [] then None else Some i, concurrent_commit_2 (sample_order (\<lambda>x. x)) (memory_apply False) v sample_state)"
  using validate_optimistic_assumption_sound [of "[sample_re 0 [1], sample_re 1 [1]]"
      "sample_order (\<lambda>x. x)" "memory_apply False" sample_state] by blast

theorem conflict_zone_commit_deterministic_witness:
  "es_state (concurrent_commit rev (memory_apply False) (schedule_conflict_zone_finalized
      (map (fst \<circ> Transaction_from) [sample_sim 0 [] [1], sample_sim 1 [] [2]])) sample_state) =
   es_state (concurrent_commit (\<lambda>xs. xs) (memory_apply False) (schedule_conflict_zone_finalized
      (map (fst \<circ> Transaction_from) [sample_sim 0 [] [1], sample_sim 1 [] [2]])) sample_state)"
proof (rule conflict_zone_commit_deterministic)
  fix t
  assume "t \<in> set (map (fst \<circ> Transaction_from) [sample_sim 0 [] [1], sample_sim 1 [] [2]])"
  then show "list_all (storage_effect (\<lambda>_. \<lparr>balance = 0, nonce = 0\<rparr>) (ai_write_keys (abort_info t))) (effects t)"
    by (auto simp: sample_sim_def SimulatedTransaction_new_def Transaction_from_simps storage_effect_def
        AbortInfo_new_def ai_write_keys_def)
qed simp

end
