(* ===== verification/Delta_Cache.thy ===== *)
theory Delta_Cache
  imports Evm_Storage
begin

text \<open>
  The two-level cache of the pipelined executor, from
  \<open>crates/sslab-execution/chase/src/executor/cache/\<close>: delta pages and the 32-byte key encoding
  (\<open>delta_page.rs\<close>, \<open>temp_buffer.rs\<close>, \<open>apply_buffer.rs\<close>), the in-memory index tables
  (\<open>mem_index_table.rs\<close>), the L1 cache of one active and several frozen tables (\<open>l1_cache.rs\<close>),
  the L2 LRU cache (\<open>l2_cache.rs\<close>), the durable store below them (\<open>StateStore\<close> with the in-memory
  implementation of \<open>two_level_cache.rs\<close> and the RocksDB one of
  \<open>crates/sslab-execution/stack/src/rocksdb_state_store.rs\<close>), their composition
  (\<open>two_level_cache.rs\<close>) and the backend overlay that reads through it (\<open>cache_overlay.rs\<close>).
  A 32-byte array is the 256-bit word it spells in big-endian order.  Index tables are shared
  through \<open>Arc\<close> and compared by pointer, so they live in an explicit store.  The LRU map is a
  third-party container: its operations are the parameter \<open>LruOps\<close> and \<open>lru_contract\<close> states what
  its documentation promises.  The eviction loop of L2 has one unit of fuel more than the container has entries, which
  suffices because every round removes one; \<^const>\<open>None\<close> is a loop that does not end or a failed
  assertion.
\<close>

section \<open>Delta pages\<close>

type_synonym Key = "256 word"
type_synonym Value = "256 word"

definition DELTA_PAGE_MAX_RECORDS :: nat where
  "DELTA_PAGE_MAX_RECORDS = 128"

record DeltaRecord =
  dr_key :: Key
  dr_value :: Value

record DeltaPage =
  block_start :: u64
  block_end :: u64
  records :: "DeltaRecord list"
  is_readonly :: bool

definition DeltaPage_new :: "u64 \<Rightarrow> u64 \<Rightarrow> DeltaPage" where
  "DeltaPage_new s e = \<lparr>block_start = s, block_end = e, records = [], is_readonly = False\<rparr>"

definition page_is_full :: "DeltaPage \<Rightarrow> bool" where
  "page_is_full p \<longleftrightarrow> DELTA_PAGE_MAX_RECORDS \<le> length (records p)"

definition byte_size :: "DeltaPage \<Rightarrow> u64" where
  "byte_size p = of_nat (length (records p)) * (64 + 8)"

definition push_record :: "Key \<Rightarrow> Value \<Rightarrow> DeltaPage \<Rightarrow> DeltaPage" where
  "push_record k v p = p\<lparr>records := records p @ [\<lparr>dr_key = k, dr_value = v\<rparr>]\<rparr>"

definition page_freeze :: "DeltaPage \<Rightarrow> DeltaPage" where
  "page_freeze p = p\<lparr>is_readonly := True\<rparr>"

definition page_lookup :: "DeltaPage \<Rightarrow> Key \<Rightarrow> Value option" where
  "page_lookup p k = map_option dr_value (find (\<lambda>r. dr_key r = k) (rev (records p)))"

definition encode_key :: "h160 \<Rightarrow> h256 \<Rightarrow> Key" where
  "encode_key address slot = or (push_bit 96 (ucast address)) (take_bit 96 slot)"

definition encode_value :: "h256 \<Rightarrow> Value" where
  "encode_value v = v"

definition decode_value :: "Value \<Rightarrow> h256" where
  "decode_value v = v"

definition decode_key :: "Key \<Rightarrow> h160 \<times> h256" where
  "decode_key k = (ucast (drop_bit 96 k), take_bit 96 k)"

text \<open>The pairs that a page holds, in the order they were pushed.\<close>

definition record_pair :: "DeltaRecord \<Rightarrow> Key \<times> Value" where
  "record_pair r = (dr_key r, dr_value r)"

definition page_entries :: "DeltaPage \<Rightarrow> (Key \<times> Value) list" where
  "page_entries p = map record_pair (records p)"

definition pages_entries :: "DeltaPage list \<Rightarrow> (Key \<times> Value) list" where
  "pages_entries ps = concat (map page_entries ps)"

section \<open>The buffer of a batch\<close>

type_synonym TempBuffer = "(Key \<times> Value) list"

definition record_write :: "h160 \<Rightarrow> h256 \<Rightarrow> h256 \<Rightarrow> TempBuffer \<Rightarrow> TempBuffer" where
  "record_write address slot v buf = buf @ [(encode_key address slot, encode_value v)]"

definition delta_bytes :: "TempBuffer \<Rightarrow> u64" where
  "delta_bytes buf = of_nat (length buf) * 64"

fun fill_pages :: "nat \<Rightarrow> u64 \<Rightarrow> u64 \<Rightarrow> TempBuffer \<Rightarrow> DeltaPage \<Rightarrow> DeltaPage list \<Rightarrow> DeltaPage \<times> DeltaPage list" where
  "fill_pages limit s e [] current pages = (current, pages)"
| "fill_pages limit s e ((k, v) # rest) current pages =
     (if limit \<le> length (records current)
      then fill_pages limit s e rest (push_record k v (DeltaPage_new s e)) (pages @ [page_freeze current])
      else fill_pages limit s e rest (push_record k v current) pages)"

definition into_delta_pages :: "TempBuffer \<Rightarrow> u64 \<Rightarrow> u64 \<Rightarrow> nat \<Rightarrow> DeltaPage list" where
  "into_delta_pages buf s e max_records =
     (let limit = min max_records DELTA_PAGE_MAX_RECORDS;
          (current, pages) = fill_pages limit s e buf (DeltaPage_new s e) []
      in if records current = [] then pages else pages @ [page_freeze current])"

definition apply_to_temp_buffer :: "Apply \<Rightarrow> TempBuffer \<Rightarrow> TempBuffer" where
  "apply_to_temp_buffer a buf =
     (case a of
        Modify address basic code storage reset \<Rightarrow>
          fold (\<lambda>(slot, v). record_write address slot v) storage buf
      | Delete address \<Rightarrow> buf)"

definition applies_to_temp_buffer :: "Apply list \<Rightarrow> TempBuffer \<Rightarrow> TempBuffer" where
  "applies_to_temp_buffer applies buf = fold apply_to_temp_buffer applies buf"

definition applies_delta_bytes :: "Apply list \<Rightarrow> u64" where
  "applies_delta_bytes applies =
     fold (\<lambda>a count. case a of Modify _ _ _ storage _ \<Rightarrow> count + of_nat (length storage) | Delete _ \<Rightarrow> count)
       applies 0 * 64"

definition encode_account_slot :: h256 where
  "encode_account_slot = - 1"

section \<open>Index tables\<close>

record MemIndexTable =
  mit_index :: "Key \<rightharpoonup> nat"
  mit_pages :: "DeltaPage list"
  total_bytes :: u64
  is_frozen :: bool
  mit_capacity :: u64

definition MemIndexTable_new :: "u64 \<Rightarrow> MemIndexTable" where
  "MemIndexTable_new cap = \<lparr>mit_index = Map.empty, mit_pages = [], total_bytes = 0, is_frozen = False, mit_capacity = cap\<rparr>"

definition is_at_capacity :: "MemIndexTable \<Rightarrow> bool" where
  "is_at_capacity t \<longleftrightarrow> mit_capacity t \<le> total_bytes t"

definition insert_page :: "DeltaPage \<Rightarrow> MemIndexTable \<Rightarrow> MemIndexTable option" where
  "insert_page p t =
     (if is_readonly p
      then Some (t\<lparr>mit_pages := mit_pages t @ [p],
                   mit_index := fold (\<lambda>r ix. ix(dr_key r \<mapsto> length (mit_pages t))) (records p) (mit_index t),
                   total_bytes := total_bytes t + byte_size p\<rparr>)
      else None)"

definition table_lookup :: "MemIndexTable \<Rightarrow> Key \<Rightarrow> Value option" where
  "table_lookup t k = do {
     i \<leftarrow> mit_index t k;
     (if i < length (mit_pages t) then page_lookup (mit_pages t ! i) k else None) }"

definition table_freeze :: "MemIndexTable \<Rightarrow> MemIndexTable" where
  "table_freeze t = t\<lparr>is_frozen := True\<rparr>"

definition drain_pages :: "MemIndexTable \<Rightarrow> (DeltaPage list \<times> MemIndexTable) option" where
  "drain_pages t =
     (if is_frozen t
      then Some (mit_pages t, t\<lparr>mit_pages := [], mit_index := Map.empty, total_bytes := 0\<rparr>)
      else None)"

section \<open>The L1 cache\<close>

record L1Cache =
  tables :: "nat \<Rightarrow> MemIndexTable"
  next_ptr :: nat
  active :: nat
  frozen_tables :: "nat list"
  l1_capacity :: u64
  next_table_id :: u64
  table_order :: "(u64 \<times> nat) list"

definition L1Cache_new :: "u64 \<Rightarrow> L1Cache" where
  "L1Cache_new cap = \<lparr>tables = (\<lambda>_. MemIndexTable_new cap), next_ptr = 1, active = 0, frozen_tables = [],
     l1_capacity = cap, next_table_id = 0, table_order = []\<rparr>"

definition freeze_active :: "L1Cache \<Rightarrow> L1Cache" where
  "freeze_active l =
     (let old = active l in
      l\<lparr>tables := (tables l)(old := table_freeze (tables l old),
                            next_ptr l := MemIndexTable_new (l1_capacity l)),
        active := next_ptr l,
        next_ptr := Suc (next_ptr l),
        next_table_id := next_table_id l + 1,
        frozen_tables := frozen_tables l @ [old],
        table_order := table_order l @ [(next_table_id l, old)]\<rparr>)"

definition write_delta_page :: "DeltaPage \<Rightarrow> L1Cache \<Rightarrow> L1Cache option" where
  "write_delta_page p l = do {
     t \<leftarrow> insert_page p (tables l (active l));
     let l = l\<lparr>tables := (tables l)(active l := t)\<rparr>;
     Some (if is_at_capacity t then freeze_active l else l) }"

definition remove_frozen_table :: "nat \<Rightarrow> L1Cache \<Rightarrow> L1Cache" where
  "remove_frozen_table t l =
     l\<lparr>frozen_tables := filter (\<lambda>u. u \<noteq> t) (frozen_tables l),
       table_order := filter (\<lambda>u. snd u \<noteq> t) (table_order l)\<rparr>"

definition take_frozen_tables :: "L1Cache \<Rightarrow> nat list \<times> L1Cache" where
  "take_frozen_tables l =
     (frozen_tables l,
      l\<lparr>frozen_tables := [],
        table_order := filter (\<lambda>u. snd u \<notin> set (frozen_tables l)) (table_order l)\<rparr>)"

fun first_hit :: "(nat \<Rightarrow> MemIndexTable) \<Rightarrow> Key \<Rightarrow> (u64 \<times> nat) list \<Rightarrow> Value option" where
  "first_hit ts k [] = None"
| "first_hit ts k (e # es) =
     (case table_lookup (ts (snd e)) k of Some v \<Rightarrow> Some v | None \<Rightarrow> first_hit ts k es)"

definition l1_read :: "L1Cache \<Rightarrow> Key \<Rightarrow> Value option" where
  "l1_read l k =
     (case table_lookup (tables l (active l)) k of
        Some v \<Rightarrow> Some v
      | None \<Rightarrow> first_hit (tables l) k (rev (table_order l)))"

section \<open>The L2 cache\<close>

text \<open>The operations of the LRU container that the code calls.\<close>

record 'c LruOps =
  lru_new :: "nat \<Rightarrow> 'c"
  lru_get :: "Key \<Rightarrow> 'c \<Rightarrow> Value option \<times> 'c"
  lru_put :: "Key \<Rightarrow> Value \<Rightarrow> 'c \<Rightarrow> Value option \<times> 'c"
  lru_pop :: "'c \<Rightarrow> (Key \<times> Value) option \<times> 'c"
  lru_len :: "'c \<Rightarrow> nat"

record 'c L2Cache =
  l2_lru :: 'c
  l2_capacity_bytes :: u64
  l2_current_bytes :: u64

definition L2Cache_new :: "'c LruOps \<Rightarrow> u64 \<Rightarrow> 'c L2Cache" where
  "L2Cache_new ops cap = \<lparr>l2_lru = lru_new ops 1024, l2_capacity_bytes = cap, l2_current_bytes = 0\<rparr>"

definition l2_get :: "'c LruOps \<Rightarrow> Key \<Rightarrow> 'c L2Cache \<Rightarrow> Value option \<times> 'c L2Cache" where
  "l2_get ops k l2 = (let (v, c) = lru_get ops k (l2_lru l2) in (v, l2\<lparr>l2_lru := c\<rparr>))"

fun evict :: "nat \<Rightarrow> 'c LruOps \<Rightarrow> 'c L2Cache \<Rightarrow> 'c L2Cache option" where
  "evict 0 ops l2 = None"
| "evict (Suc n) ops l2 =
     (if l2_capacity_bytes l2 < l2_current_bytes l2 \<and> 1 < lru_len ops (l2_lru l2)
      then (case lru_pop ops (l2_lru l2) of
              (Some e, c) \<Rightarrow> evict n ops (l2\<lparr>l2_lru := c, l2_current_bytes := saturating_sub (l2_current_bytes l2) 64\<rparr>)
            | (None, c) \<Rightarrow> evict n ops (l2\<lparr>l2_lru := c\<rparr>))
      else Some l2)"

definition l2_insert :: "'c LruOps \<Rightarrow> Key \<Rightarrow> Value \<Rightarrow> 'c L2Cache \<Rightarrow> 'c L2Cache option" where
  "l2_insert ops k v l2 =
     (case lru_put ops k v (l2_lru l2) of
        (Some old, c) \<Rightarrow> evict (Suc (lru_len ops c)) ops (l2\<lparr>l2_lru := c\<rparr>)
      | (None, c) \<Rightarrow> evict (Suc (lru_len ops c)) ops
          (l2\<lparr>l2_lru := c, l2_current_bytes := l2_current_bytes l2 + 64\<rparr>))"

fun l2_insert_batch :: "'c LruOps \<Rightarrow> (Key \<times> Value) list \<Rightarrow> 'c L2Cache \<Rightarrow> 'c L2Cache option" where
  "l2_insert_batch ops [] l2 = Some l2"
| "l2_insert_batch ops ((k, v) # es) l2 = do { l2' \<leftarrow> l2_insert ops k v l2; l2_insert_batch ops es l2' }"

section \<open>Durable stores\<close>

text \<open>The trait \<open>StateStore\<close> with its two required methods; \<open>put_batch\<close> is the default method.\<close>

record 'd StateStore =
  ss_get :: "'d \<Rightarrow> Key \<Rightarrow> Value option"
  ss_put :: "Key \<Rightarrow> Value \<Rightarrow> 'd \<Rightarrow> (string + unit) \<times> 'd"

fun put_batch :: "'d StateStore \<Rightarrow> (Key \<times> Value) list \<Rightarrow> 'd \<Rightarrow> (string + unit) \<times> 'd" where
  "put_batch S [] d = (Inr (), d)"
| "put_batch S ((k, v) # es) d =
     (case ss_put S k v d of
        (Inl e, d') \<Rightarrow> (Inl e, d')
      | (Inr u, d') \<Rightarrow> put_batch S es d')"

definition InMemoryStateStore :: "(Key \<rightharpoonup> Value) StateStore" where
  "InMemoryStateStore = \<lparr>ss_get = (\<lambda>d k. d k), ss_put = (\<lambda>k v d. (Inr (), d(k \<mapsto> v)))\<rparr>"

definition RocksDbStateStore :: "ChaseStorage StateStore" where
  "RocksDbStateStore = \<lparr>
     ss_get = (\<lambda>d k. case decode_key k of (address, slot) \<Rightarrow>
                 map_option encode_value (get_storage_slot d address slot)),
     ss_put = (\<lambda>k v d. case decode_key k of (address, slot) \<Rightarrow>
                 (Inr (), put_storage_slot address slot (decode_value v) d))\<rparr>"

section \<open>The two-level cache\<close>

record CacheConfig =
  l1_capacity_bytes :: u64
  deltapage_max_records :: nat
  cfg_l2_capacity_bytes :: u64

definition CacheConfig_default :: CacheConfig where
  "CacheConfig_default = \<lparr>l1_capacity_bytes = 256 * 1024 * 1024, deltapage_max_records = 128,
     cfg_l2_capacity_bytes = 1024 * 1024 * 1024\<rparr>"

record ('c, 'd) TwoLevelCache =
  tl_l1 :: L1Cache
  tl_l2 :: "'c L2Cache"
  tl_db :: 'd
  completed_batch :: u64
  batch_delta_bytes :: "u64 \<rightharpoonup> u64"
  pending_batch_pages :: "u64 \<rightharpoonup> DeltaPage list"

definition TwoLevelCache_new :: "'c LruOps \<Rightarrow> CacheConfig \<Rightarrow> 'd \<Rightarrow> ('c, 'd) TwoLevelCache" where
  "TwoLevelCache_new ops config db = \<lparr>tl_l1 = L1Cache_new (l1_capacity_bytes config),
     tl_l2 = L2Cache_new ops (cfg_l2_capacity_bytes config), tl_db = db, completed_batch = 0,
     batch_delta_bytes = Map.empty, pending_batch_pages = Map.empty\<rparr>"

fun write_pages_l1 :: "DeltaPage list \<Rightarrow> L1Cache \<Rightarrow> L1Cache option" where
  "write_pages_l1 [] l = Some l"
| "write_pages_l1 (p # ps) l = do { l' \<leftarrow> write_delta_page p l; write_pages_l1 ps l' }"

definition write_delta_pages ::
  "u64 \<Rightarrow> DeltaPage list \<Rightarrow> ('c, 'd) TwoLevelCache \<Rightarrow> ('c, 'd) TwoLevelCache option" where
  "write_delta_pages b pages c = do {
     l \<leftarrow> write_pages_l1 pages (tl_l1 c);
     Some (c\<lparr>tl_l1 := l,
             batch_delta_bytes := (batch_delta_bytes c)(b \<mapsto> fold (\<lambda>p n. n + byte_size p) pages 0),
             pending_batch_pages := (pending_batch_pages c)(b \<mapsto> pages)\<rparr>) }"

definition mark_batch_complete :: "u64 \<Rightarrow> ('c, 'd) TwoLevelCache \<Rightarrow> ('c, 'd) TwoLevelCache" where
  "mark_batch_complete b c = c\<lparr>completed_batch := max (completed_batch c) b\<rparr>"

definition cache_read :: "'c LruOps \<Rightarrow> 'd StateStore \<Rightarrow> Key \<Rightarrow> u64 \<Rightarrow> ('c, 'd) TwoLevelCache \<Rightarrow>
    Value option \<times> ('c, 'd) TwoLevelCache" where
  "cache_read ops S k visible_up_to c =
     (if completed_batch c < visible_up_to then (None, c)
      else case l1_read (tl_l1 c) k of
          Some v \<Rightarrow> (Some v, c)
        | None \<Rightarrow> (case l2_get ops k (tl_l2 c) of
             (Some v, l2) \<Rightarrow> (Some v, c\<lparr>tl_l2 := l2\<rparr>)
           | (None, l2) \<Rightarrow> (ss_get S (tl_db c) k, c\<lparr>tl_l2 := l2\<rparr>)))"

definition delta_bytes_for_batch :: "u64 \<Rightarrow> ('c, 'd) TwoLevelCache \<Rightarrow> u64" where
  "delta_bytes_for_batch b c = (case batch_delta_bytes c b of Some n \<Rightarrow> n | None \<Rightarrow> 0)"

definition commit_batch :: "'c LruOps \<Rightarrow> 'd StateStore \<Rightarrow> u64 \<Rightarrow> ('c, 'd) TwoLevelCache \<Rightarrow>
    ((string + unit) \<times> ('c, 'd) TwoLevelCache) option" where
  "commit_batch ops S b c =
     (let pages = (case pending_batch_pages c b of Some ps \<Rightarrow> ps | None \<Rightarrow> []);
          c = c\<lparr>pending_batch_pages := (pending_batch_pages c)(b := None)\<rparr>;
          entries = pages_entries pages
      in if entries = [] then Some (Inr (), c)
         else case put_batch S entries (tl_db c) of
             (Inl e, d) \<Rightarrow> Some (Inl e, c\<lparr>tl_db := d\<rparr>)
           | (Inr u, d) \<Rightarrow> do {
               l2 \<leftarrow> l2_insert_batch ops entries (tl_l2 c);
               Some (Inr (), c\<lparr>tl_db := d, tl_l2 := l2\<rparr>) })"

fun flush_tables :: "'c LruOps \<Rightarrow> 'd StateStore \<Rightarrow> nat list \<Rightarrow> nat \<Rightarrow> ('c, 'd) TwoLevelCache \<Rightarrow>
    ((string + nat) \<times> ('c, 'd) TwoLevelCache) option" where
  "flush_tables ops S [] flushed c = Some (Inr flushed, c)"
| "flush_tables ops S (t # ts) flushed c =
     (let pages = mit_pages (tables (tl_l1 c) t) in
      if pages = [] then flush_tables ops S ts flushed (c\<lparr>tl_l1 := remove_frozen_table t (tl_l1 c)\<rparr>)
      else case put_batch S (pages_entries pages) (tl_db c) of
          (Inl e, d) \<Rightarrow> Some (Inl e, c\<lparr>tl_db := d\<rparr>)
        | (Inr u, d) \<Rightarrow> do {
            l2 \<leftarrow> l2_insert_batch ops (pages_entries pages) (tl_l2 c);
            (drained, tab) \<leftarrow> drain_pages (tables (tl_l1 c) t);
            flush_tables ops S ts (flushed + length pages)
              (c\<lparr>tl_db := d, tl_l2 := l2,
                 tl_l1 := remove_frozen_table t ((tl_l1 c)\<lparr>tables := (tables (tl_l1 c))(t := tab)\<rparr>)\<rparr>) })"

definition flush_frozen_tables :: "'c LruOps \<Rightarrow> 'd StateStore \<Rightarrow> ('c, 'd) TwoLevelCache \<Rightarrow>
    ((string + nat) \<times> ('c, 'd) TwoLevelCache) option" where
  "flush_frozen_tables ops S c = flush_tables ops S (frozen_tables (tl_l1 c)) 0 c"

datatype FlushError = FlushFailed (retries: u32) (last_error: string)

fun flush_attempts :: "'c LruOps \<Rightarrow> 'd StateStore \<Rightarrow> u32 \<Rightarrow> nat \<Rightarrow> string \<Rightarrow> ('c, 'd) TwoLevelCache \<Rightarrow>
    ((FlushError + nat) \<times> ('c, 'd) TwoLevelCache) option" where
  "flush_attempts ops S max_retries 0 last_err c = Some (Inl (FlushFailed max_retries last_err), c)"
| "flush_attempts ops S max_retries (Suc n) last_err c =
     (case flush_frozen_tables ops S c of
        None \<Rightarrow> None
      | Some (Inr flushed, c') \<Rightarrow> Some (Inr flushed, c')
      | Some (Inl e, c') \<Rightarrow> flush_attempts ops S max_retries n e c')"

definition try_flush_with_retry :: "'c LruOps \<Rightarrow> 'd StateStore \<Rightarrow> u32 \<Rightarrow> ('c, 'd) TwoLevelCache \<Rightarrow>
    ((FlushError + nat) \<times> ('c, 'd) TwoLevelCache) option" where
  "try_flush_with_retry ops S max_retries c = flush_attempts ops S max_retries (unat max_retries) [] c"

definition read_h256 :: "'c LruOps \<Rightarrow> 'd StateStore \<Rightarrow> Key \<Rightarrow> u64 \<Rightarrow> ('c, 'd) TwoLevelCache \<Rightarrow>
    h256 option \<times> ('c, 'd) TwoLevelCache" where
  "read_h256 ops S k visible_up_to c = apfst (map_option decode_value) (cache_read ops S k visible_up_to c)"

section \<open>The backend overlay\<close>

record ('c, 'd) L1Visibility =
  vis_cache :: "('c, 'd) TwoLevelCache"
  visible_batch :: u64

definition L1Visibility_new :: "('c, 'd) TwoLevelCache \<Rightarrow> ('c, 'd) L1Visibility" where
  "L1Visibility_new c = \<lparr>vis_cache = c, visible_batch = 0\<rparr>"

definition set_visible_batch :: "u64 \<Rightarrow> ('c, 'd) L1Visibility \<Rightarrow> ('c, 'd) L1Visibility" where
  "set_visible_batch b v = v\<lparr>visible_batch := b\<rparr>"

text \<open>\<open>CacheOverlayBackend::storage\<close>; \<open>inner\<close> is the storage read of the wrapped backend.\<close>

definition overlay_storage :: "'c LruOps \<Rightarrow> 'd StateStore \<Rightarrow> (h160 \<Rightarrow> h256 \<Rightarrow> h256) \<Rightarrow>
    ('c, 'd) L1Visibility option \<Rightarrow> h160 \<Rightarrow> h256 \<Rightarrow> h256 \<times> ('c, 'd) L1Visibility option" where
  "overlay_storage ops S inner visibility address index =
     (case visibility of
        None \<Rightarrow> (inner address index, None)
      | Some vis \<Rightarrow>
          (case cache_read ops S (encode_key address index) (visible_batch vis) (vis_cache vis) of
             (Some v, c) \<Rightarrow> (decode_value v, Some (vis\<lparr>vis_cache := c\<rparr>))
           | (None, c) \<Rightarrow> (inner address index, Some (vis\<lparr>vis_cache := c\<rparr>))))"

section \<open>Keys and pages\<close>

lemma decode_encode_key: "decode_key (encode_key a s) = (a, take_bit 96 s)"
proof -
  have "ucast (drop_bit 96 (encode_key a s)) = a"
    unfolding encode_key_def
    by (rule bit_word_eqI) (auto simp: bit_simps)
  moreover have "take_bit 96 (encode_key a s) = take_bit 96 s"
    unfolding encode_key_def
    by (rule bit_word_eqI) (auto simp: bit_simps)
  ultimately show ?thesis by (simp add: decode_key_def)
qed

text \<open>Code equations by arithmetic with the literal 2 to the 96.\<close>

lemma encode_key_code [code]:
  "encode_key a s = ucast a * 79228162514264337593543950336 + s mod 79228162514264337593543950336"
proof -
  have "push_bit 96 (ucast a) + take_bit 96 s = or (push_bit 96 (ucast a)) (take_bit 96 s :: Key)"
    by (rule disjunctive_add) (auto simp: bit_simps)
  then show ?thesis by (simp add: encode_key_def push_bit_eq_mult take_bit_eq_mod)
qed

lemma decode_key_code [code]:
  "decode_key k = (ucast (k div 79228162514264337593543950336), k mod 79228162514264337593543950336)"
  by (simp add: decode_key_def drop_bit_eq_div take_bit_eq_mod)

lemma decode_key_inj: "decode_key k = decode_key k' \<longleftrightarrow> k = k'"
proof
  assume eq: "decode_key k = decode_key k'"
  have hi: "bit k (n + 96) = bit k' (n + 96)" if "n < 160" for n
    using arg_cong [OF conjunct1 [OF eq [unfolded decode_key_def prod.inject]], of "\<lambda>w. bit w n"] that
    by (simp add: bit_simps add.commute)
  have lo: "bit k n = bit k' n" if "n < 96" for n
    using arg_cong [OF conjunct2 [OF eq [unfolded decode_key_def prod.inject]], of "\<lambda>w. bit w n"] that
    by (simp add: bit_simps)
  show "k = k'"
  proof (rule bit_word_eqI)
    fix n assume "n < LENGTH(256)"
    then show "bit k n = bit k' n"
      using lo [of n] hi [of "n - 96"] by (cases "n < 96") simp_all
  qed
qed simp

lemma page_lookup_map_of [cache_simps]: "page_lookup p k = map_of (rev (page_entries p)) k"
proof -
  have "map_option dr_value (find (\<lambda>r. dr_key r = k) rs) = map_of (map record_pair rs) k" for rs
    by (induction rs) (simp_all add: record_pair_def)
  from this [of "rev (records p)"] show ?thesis
    by (simp add: page_lookup_def page_entries_def rev_map)
qed

lemma page_entries_simps [simp]:
  "page_entries (push_record k v p) = page_entries p @ [(k, v)]"
  "page_entries (page_freeze p) = page_entries p"
  "page_entries (DeltaPage_new s e) = []"
  "is_readonly (page_freeze p)"
  "length (records p) = length (page_entries p)"
  by (simp_all add: page_entries_def push_record_def page_freeze_def DeltaPage_new_def record_pair_def)

lemma records_Nil_iff: "records p = [] \<longleftrightarrow> page_entries p = []"
  by (simp add: page_entries_def)

lemma pages_entries_simps [simp]:
  "pages_entries [] = []"
  "pages_entries (p # ps) = page_entries p @ pages_entries ps"
  "pages_entries (ps @ qs) = pages_entries ps @ pages_entries qs"
  by (simp_all add: pages_entries_def)

definition close_pages :: "DeltaPage \<times> DeltaPage list \<Rightarrow> DeltaPage list" where
  "close_pages r = (if records (fst r) = [] then snd r else snd r @ [page_freeze (fst r)])"

lemma chunks_single: "xs \<noteq> [] \<Longrightarrow> length xs \<le> k \<Longrightarrow> chunks k xs = [xs]"
  by (cases "k = 0") (simp_all add: chunks.simps [of k xs])

lemma chunks_full: "0 < k \<Longrightarrow> length xs = k \<Longrightarrow> ys \<noteq> [] \<Longrightarrow> chunks k (xs @ ys) = xs # chunks k ys"
  by (subst chunks.simps) auto

lemma fill_pages_chunks:
  assumes "0 < limit" "length (page_entries current) \<le> limit"
  shows "map page_entries (close_pages (fill_pages limit s e buf current pages))
    = map page_entries pages @ chunks limit (page_entries current @ buf)"
  using assms
proof (induction limit s e buf current pages rule: fill_pages.induct)
  case (1 limit s e current pages)
  then show ?case by (auto simp: close_pages_def records_Nil_iff chunks_single)
next
  case (2 limit s e k v rest current pages)
  show ?case
  proof (cases "limit \<le> length (page_entries current)")
    case True
    with 2 show ?thesis by (simp add: chunks_full)
  next
    case False
    with 2 show ?thesis by simp
  qed
qed

lemma fill_pages_zero:
  "map page_entries (close_pages (fill_pages 0 s e buf current pages))
    = map page_entries pages
      @ (if buf = [] then (if page_entries current = [] then [] else [page_entries current])
         else page_entries current # map (\<lambda>r. [r]) buf)"
proof (induction buf arbitrary: current pages)
  case Nil
  then show ?case by (simp add: close_pages_def records_Nil_iff)
next
  case (Cons r rest)
  obtain k v where r: "r = (k, v)" by (cases r)
  show ?case
    using Cons [of "push_record k v (DeltaPage_new s e)" "pages @ [page_freeze current]"]
    by (simp add: r)
qed

definition page_attrs :: "u64 \<Rightarrow> u64 \<Rightarrow> DeltaPage \<Rightarrow> bool" where
  "page_attrs s e p \<longleftrightarrow> block_start p = s \<and> block_end p = e"

lemma page_attrs_simps [simp]:
  "page_attrs s e (DeltaPage_new s e)"
  "page_attrs s e (push_record k v p) = page_attrs s e p"
  "page_attrs s e (page_freeze p) = page_attrs s e p"
  by (simp_all add: page_attrs_def DeltaPage_new_def push_record_def page_freeze_def)

lemma fill_pages_attrs:
  assumes "page_attrs s e current" "list_all (\<lambda>p. is_readonly p \<and> page_attrs s e p) pages"
  shows "list_all (\<lambda>p. is_readonly p \<and> page_attrs s e p) (close_pages (fill_pages limit s e buf current pages))"
  using assms
proof (induction buf arbitrary: current pages)
  case Nil
  then show ?case by (simp add: close_pages_def)
next
  case (Cons r rest)
  obtain k v where r: "r = (k, v)" by (cases r)
  show ?case
    using Cons.IH [of "push_record k v (DeltaPage_new s e)" "pages @ [page_freeze current]"]
      Cons.IH [of "push_record k v current" pages] Cons.prems
    by (simp add: r)
qed

lemma into_delta_pages_close:
  "into_delta_pages buf s e n = close_pages (fill_pages (min n DELTA_PAGE_MAX_RECORDS) s e buf (DeltaPage_new s e) [])"
  by (simp add: into_delta_pages_def close_pages_def split: prod.split)

lemma into_delta_pages_entries [simp]: "pages_entries (into_delta_pages buf s e n) = buf"
proof (cases "n = 0")
  case True
  then have "map page_entries (into_delta_pages buf s e n) = (if buf = [] then [] else [] # map (\<lambda>r. [r]) buf)"
    using fill_pages_zero [of s e buf "DeltaPage_new s e" "[]"] by (simp add: into_delta_pages_close)
  then show ?thesis by (simp add: pages_entries_def concat_map_singleton)
next
  case False
  then have "map page_entries (into_delta_pages buf s e n) = chunks (min n DELTA_PAGE_MAX_RECORDS) buf"
    using fill_pages_chunks [of "min n DELTA_PAGE_MAX_RECORDS" "DeltaPage_new s e" s e buf "[]"]
    by (simp add: into_delta_pages_close DELTA_PAGE_MAX_RECORDS_def)
  then show ?thesis using False by (simp add: pages_entries_def concat_chunks DELTA_PAGE_MAX_RECORDS_def)
qed

lemma into_delta_pages_attrs:
  "list_all (\<lambda>p. is_readonly p \<and> page_attrs s e p) (into_delta_pages buf s e n)"
  by (simp add: into_delta_pages_close fill_pages_attrs)

section \<open>Index tables and L1\<close>

definition mit_ok :: "MemIndexTable \<Rightarrow> bool" where
  "mit_ok t \<longleftrightarrow> (\<forall>k i. mit_index t k = Some i \<longrightarrow> i < length (mit_pages t)) \<and>
     (\<forall>k. table_lookup t k = map_of (rev (pages_entries (mit_pages t))) k)"

lemma mit_ok_new [simp]: "mit_ok (MemIndexTable_new cap)"
  by (simp add: mit_ok_def MemIndexTable_new_def table_lookup_def)

lemma fold_index: "fold (\<lambda>r ix. ix(dr_key r \<mapsto> n)) rs ix k = (if k \<in> dr_key ` set rs then Some n else ix k)"
  by (induction rs arbitrary: ix) auto

lemma keys_page_entries: "fst ` set (page_entries p) = dr_key ` set (records p)"
  by (force simp: page_entries_def record_pair_def)

lemma map_of_rev_None: "map_of (rev xs) k = None \<longleftrightarrow> k \<notin> fst ` set xs"
  by (simp add: map_of_eq_None_iff)

lemma insert_page_ok:
  assumes "mit_ok t" "is_readonly p"
  obtains t' where "insert_page p t = Some t'" "mit_ok t'" "mit_pages t' = mit_pages t @ [p]"
    "is_frozen t' = is_frozen t"
proof
  let ?t = "t\<lparr>mit_pages := mit_pages t @ [p],
     mit_index := fold (\<lambda>r ix. ix(dr_key r \<mapsto> length (mit_pages t))) (records p) (mit_index t),
     total_bytes := total_bytes t + byte_size p\<rparr>"
  show "insert_page p t = Some ?t" using assms by (simp add: insert_page_def)
  have old: "mit_index t k = Some i \<Longrightarrow> i < length (mit_pages t)"
    and lk: "table_lookup t k = map_of (rev (pages_entries (mit_pages t))) k" for k i
    using assms(1) by (auto simp: mit_ok_def)
  show "mit_ok ?t"
    unfolding mit_ok_def
  proof (intro conjI allI impI)
    fix k i assume "mit_index ?t k = Some i"
    then show "i < length (mit_pages ?t)"
      by (auto simp: fold_index less_SucI dest: old split: if_splits)
  next
    fix k
    show "table_lookup ?t k = map_of (rev (pages_entries (mit_pages ?t))) k"
    proof (cases "k \<in> dr_key ` set (records p)")
      case True
      then obtain v where "map_of (rev (page_entries p)) k = Some v"
        using map_of_rev_None [of "page_entries p" k] by (auto simp: keys_page_entries)
      with True show ?thesis
        by (simp add: table_lookup_def fold_index page_lookup_map_of map_add_Some_iff)
    next
      case False
      then have "map_of (rev (page_entries p)) k = None"
        by (simp add: map_of_rev_None keys_page_entries)
      with False lk [of k] show ?thesis
        by (cases "mit_index t k") (auto simp: table_lookup_def fold_index map_add_def nth_append dest: old)
    qed
  qed
qed simp_all

definition table_entries :: "L1Cache \<Rightarrow> nat \<Rightarrow> (Key \<times> Value) list" where
  "table_entries l t = pages_entries (mit_pages (tables l t))"

definition l1_entries :: "L1Cache \<Rightarrow> (Key \<times> Value) list" where
  "l1_entries l = concat (map (table_entries l) (frozen_tables l @ [active l]))"

definition l1_ok :: "L1Cache \<Rightarrow> bool" where
  "l1_ok l \<longleftrightarrow> map snd (table_order l) = frozen_tables l \<and> distinct (active l # frozen_tables l) \<and>
     (\<forall>t\<in>set (active l # frozen_tables l). t < next_ptr l \<and> mit_ok (tables l t)) \<and>
     (\<forall>t\<in>set (frozen_tables l). is_frozen (tables l t))"

lemma l1_ok_new [simp]: "l1_ok (L1Cache_new cap)" "l1_entries (L1Cache_new cap) = []"
  by (simp_all add: l1_ok_def L1Cache_new_def l1_entries_def table_entries_def MemIndexTable_new_def)
    (simp add: MemIndexTable_new_def [symmetric])

lemma first_hit_entries:
  "\<forall>e\<in>set es. mit_ok (ts (snd e)) \<Longrightarrow>
   first_hit ts k es = map_of (concat (map (\<lambda>e. rev (pages_entries (mit_pages (ts (snd e))))) es)) k"
proof (induction es)
  case (Cons e es)
  then show ?case
    by (auto simp: mit_ok_def map_add_def split: option.split)
qed simp

lemma l1_read_entries: "l1_ok l \<Longrightarrow> l1_read l k = map_of (rev (l1_entries l)) k"
proof -
  assume ok: "l1_ok l"
  have fr: "frozen_tables l = map snd (table_order l)"
    using ok by (simp add: l1_ok_def)
  have eq: "map (\<lambda>e. rev (pages_entries (mit_pages (tables l (snd e))))) (rev (table_order l))
      = map (\<lambda>t. rev (table_entries l t)) (rev (frozen_tables l))"
    unfolding fr by (simp add: table_entries_def rev_map)
  have "first_hit (tables l) k (rev (table_order l)) = map_of (concat (map (\<lambda>t. rev (table_entries l t)) (rev (frozen_tables l)))) k"
    by (subst first_hit_entries) (use ok in \<open>auto simp: l1_ok_def fr eq [unfolded fr]\<close>)
  moreover have "table_lookup (tables l (active l)) k = map_of (rev (table_entries l (active l))) k"
    using ok by (simp add: l1_ok_def mit_ok_def table_entries_def)
  ultimately show ?thesis
    by (simp add: l1_read_def l1_entries_def map_add_def rev_concat rev_map comp_def split: option.split)
qed

lemma l1_entries_active:
  assumes "l1_ok l" "mit_ok t" "mit_pages t = mit_pages (tables l (active l)) @ [p]"
  shows "l1_ok (l\<lparr>tables := (tables l)(active l := t)\<rparr>)"
    "l1_entries (l\<lparr>tables := (tables l)(active l := t)\<rparr>) = l1_entries l @ page_entries p"
proof -
  have "map (table_entries (l\<lparr>tables := (tables l)(active l := t)\<rparr>)) (frozen_tables l) = map (table_entries l) (frozen_tables l)"
    using assms(1) by (auto simp: l1_ok_def table_entries_def)
  then show "l1_entries (l\<lparr>tables := (tables l)(active l := t)\<rparr>) = l1_entries l @ page_entries p"
    using assms(3) by (simp add: l1_entries_def del: map_eq_conv) (simp add: table_entries_def)
  show "l1_ok (l\<lparr>tables := (tables l)(active l := t)\<rparr>)"
    using assms(1, 2) by (auto simp: l1_ok_def)
qed

lemma freeze_active_ok:
  assumes "l1_ok l"
  shows "l1_ok (freeze_active l)" "l1_entries (freeze_active l) = l1_entries l"
proof -
  have mem: "t < next_ptr l" "t \<noteq> active l" if "t \<in> set (frozen_tables l)" for t
    using assms that by (auto simp: l1_ok_def)
  have act: "active l < next_ptr l" using assms by (simp add: l1_ok_def)
  have "map (table_entries (freeze_active l)) (frozen_tables l) = map (table_entries l) (frozen_tables l)"
    using mem by (force simp: table_entries_def freeze_active_def Let_def)
  moreover have "table_entries (freeze_active l) (active l) = table_entries l (active l)"
    "table_entries (freeze_active l) (next_ptr l) = []"
    using act by (simp_all add: table_entries_def freeze_active_def Let_def table_freeze_def MemIndexTable_new_def)
  moreover have "frozen_tables (freeze_active l) = frozen_tables l @ [active l]" "active (freeze_active l) = next_ptr l"
    by (simp_all add: freeze_active_def Let_def)
  ultimately show "l1_entries (freeze_active l) = l1_entries l"
    by (simp add: l1_entries_def del: map_eq_conv)
  have "mit_ok (table_freeze t) = mit_ok t" for t
    by (simp add: mit_ok_def table_freeze_def table_lookup_def cong: if_cong)
  then show "l1_ok (freeze_active l)"
    using assms act mem
    by (auto simp: l1_ok_def freeze_active_def Let_def less_Suc_eq table_freeze_def)
qed

lemma write_delta_page_ok:
  assumes "l1_ok l" "is_readonly p"
  obtains l' where "write_delta_page p l = Some l'" "l1_ok l'" "l1_entries l' = l1_entries l @ page_entries p"
proof -
  have "mit_ok (tables l (active l))" using assms(1) by (simp add: l1_ok_def)
  then obtain t where t: "insert_page p (tables l (active l)) = Some t" "mit_ok t"
    "mit_pages t = mit_pages (tables l (active l)) @ [p]"
    using insert_page_ok assms(2) by blast
  note l = l1_entries_active [OF assms(1) t(2, 3)]
  show thesis
    using that [of "if is_at_capacity t then freeze_active (l\<lparr>tables := (tables l)(active l := t)\<rparr>)
        else l\<lparr>tables := (tables l)(active l := t)\<rparr>"] t(1) l freeze_active_ok [OF l(1)]
    by (simp add: write_delta_page_def)
qed

lemma write_pages_l1_ok:
  assumes "l1_ok l" "list_all is_readonly ps"
  obtains l' where "write_pages_l1 ps l = Some l'" "l1_ok l'" "l1_entries l' = l1_entries l @ pages_entries ps"
  using assms
proof (induction ps arbitrary: l thesis)
  case (Cons p ps)
  from Cons.prems obtain l1 where l1: "write_delta_page p l = Some l1" "l1_ok l1"
    "l1_entries l1 = l1_entries l @ page_entries p"
    using write_delta_page_ok by (metis list.pred_inject(2))
  with Cons.prems obtain l2 where "write_pages_l1 ps l1 = Some l2" "l1_ok l2"
    "l1_entries l2 = l1_entries l1 @ pages_entries ps"
    using Cons.IH [of l1] by auto
  with l1 show ?case by (intro Cons.prems(1)) simp_all
qed simp

lemma remove_frozen_ok:
  assumes ok: "l1_ok l" and fr: "frozen_tables l = t # ts"
  shows "l1_ok (remove_frozen_table t (l\<lparr>tables := (tables l)(t := tab)\<rparr>))"
    "l1_entries l = table_entries l t @ l1_entries (remove_frozen_table t (l\<lparr>tables := (tables l)(t := tab)\<rparr>))"
    "frozen_tables (remove_frozen_table t (l\<lparr>tables := (tables l)(t := tab)\<rparr>)) = ts"
proof -
  let ?l = "remove_frozen_table t (l\<lparr>tables := (tables l)(t := tab)\<rparr>)"
  have t: "t \<notin> set ts" "t \<noteq> active l" using assms by (auto simp: l1_ok_def)
  then show fr': "frozen_tables ?l = ts"
    by (simp add: remove_frozen_table_def fr filter_id_conv) (metis filter_True)
  have "map snd (filter (\<lambda>u. snd u \<noteq> t) (table_order l)) = filter (\<lambda>u. u \<noteq> t) (map snd (table_order l))"
    by (simp add: filter_map comp_def)
  also have "\<dots> = frozen_tables ?l"
    using ok by (simp add: l1_ok_def remove_frozen_table_def)
  finally have ord: "map snd (table_order ?l) = frozen_tables ?l"
    by (simp add: remove_frozen_table_def)
  have upd: "tables ?l u = tables l u" if "u \<noteq> t" for u
    using that by (simp add: remove_frozen_table_def)
  have same: "active ?l = active l" "next_ptr ?l = next_ptr l"
    by (simp_all add: remove_frozen_table_def)
  show "l1_ok ?l"
    unfolding l1_ok_def ord fr' same
  proof (intro conjI ballI)
    show "distinct (active l # ts)" using ok by (simp add: l1_ok_def fr)
  next
    fix u assume u: "u \<in> set (active l # ts)"
    then have "u \<noteq> t" using t by auto
    then have "tables ?l u = tables l u" by (rule upd)
    then show "u < next_ptr l" "mit_ok (tables ?l u)"
      using ok u by (auto simp: l1_ok_def fr)
  next
    fix u assume u: "u \<in> set ts"
    then have "u \<noteq> t" using t by auto
    then have "tables ?l u = tables l u" by (rule upd)
    then show "is_frozen (tables ?l u)"
      using ok u by (simp add: l1_ok_def fr)
  qed simp
  have te: "table_entries ?l u = table_entries l u" if "u \<noteq> t" for u
    using that by (simp add: table_entries_def upd)
  have "map (table_entries ?l) (ts @ [active l]) = map (table_entries l) (ts @ [active l])"
  proof (rule map_cong [OF refl])
    fix u assume "u \<in> set (ts @ [active l])"
    then have "u \<noteq> t" using t by auto
    then show "table_entries ?l u = table_entries l u" by (rule te)
  qed
  then show "l1_entries l = table_entries l t @ l1_entries ?l"
    by (simp add: l1_entries_def fr fr' same del: map_append map_eq_conv)
qed

section \<open>The LRU container and the L2 cache\<close>

text \<open>What the documentation of the LRU container promises; \<open>peek\<close> is its content.\<close>

definition lru_contract :: "'c LruOps \<Rightarrow> ('c \<Rightarrow> Key \<rightharpoonup> Value) \<Rightarrow> bool" where
  "lru_contract ops peek \<longleftrightarrow>
     (\<forall>n k. peek (lru_new ops n) k = None) \<and>
     (\<forall>k c. fst (lru_get ops k c) = peek c k \<and> (\<forall>k'. peek (snd (lru_get ops k c)) k' = peek c k')) \<and>
     (\<forall>k v c. fst (lru_put ops k v c) = peek c k \<and> peek (snd (lru_put ops k v c)) k = Some v \<and>
        (\<forall>k'. k' \<noteq> k \<longrightarrow> peek (snd (lru_put ops k v c)) k' \<in> {None, peek c k'})) \<and>
     (\<forall>c. 0 < lru_len ops c \<longrightarrow> fst (lru_pop ops c) \<noteq> None \<and>
        lru_len ops (snd (lru_pop ops c)) < lru_len ops c \<and>
        (\<forall>k'. peek (snd (lru_pop ops c)) k' \<in> {None, peek c k'}))"

lemma lru_contractD:
  assumes "lru_contract ops peek"
  shows "peek (lru_new ops n) = Map.empty"
    "fst (lru_get ops k c) = peek c k"
    "peek (snd (lru_get ops k c)) = peek c"
    "peek (snd (lru_put ops k v c)) k = Some v"
    "k' \<noteq> k \<Longrightarrow> peek (snd (lru_put ops k v c)) k' \<in> {None, peek c k'}"
    "0 < lru_len ops c \<Longrightarrow> fst (lru_pop ops c) \<noteq> None"
    "0 < lru_len ops c \<Longrightarrow> lru_len ops (snd (lru_pop ops c)) < lru_len ops c"
    "0 < lru_len ops c \<Longrightarrow> peek (snd (lru_pop ops c)) k' \<in> {None, peek c k'}"
  using assms unfolding lru_contract_def fun_eq_iff by blast+

text \<open>\<open>m'\<close> has lost entries of \<open>m\<close> but holds no other value.\<close>

definition forgets :: "(Key \<rightharpoonup> Value) \<Rightarrow> (Key \<rightharpoonup> Value) \<Rightarrow> bool" where
  "forgets m m' \<longleftrightarrow> (\<forall>k. m' k \<in> {None, m k})"

lemma forgets_refl [simp]: "forgets m m"
  by (simp add: forgets_def)

lemma forgets_trans: "forgets m m' \<Longrightarrow> forgets m' m'' \<Longrightarrow> forgets m m''"
  by (fastforce simp: forgets_def)

lemma forgets_upd: "forgets m m' \<Longrightarrow> forgets (m ++ e) (m' ++ e)"
  by (auto simp: forgets_def map_add_def split: option.split)

lemma evict_terminates:
  assumes "lru_contract ops peek" "lru_len ops (l2_lru l2) < n"
  shows "\<exists>l2'. evict n ops l2 = Some l2' \<and> forgets (peek (l2_lru l2)) (peek (l2_lru l2'))"
  using assms(2)
proof (induction n arbitrary: l2)
  case (Suc n)
  obtain r c where pop: "lru_pop ops (l2_lru l2) = (r, c)" by (cases "lru_pop ops (l2_lru l2)")
  show ?case
  proof (cases "l2_capacity_bytes l2 < l2_current_bytes l2 \<and> 1 < lru_len ops (l2_lru l2)")
    case False
    then show ?thesis by auto
  next
    case True
    let ?l2 = "l2\<lparr>l2_lru := c, l2_current_bytes := saturating_sub (l2_current_bytes l2) 64\<rparr>"
    have facts: "r \<noteq> None" "lru_len ops c < lru_len ops (l2_lru l2)" "forgets (peek (l2_lru l2)) (peek c)"
      using lru_contractD(6-8) [OF assms(1), of "l2_lru l2"] True pop unfolding forgets_def by auto
    obtain l2' where "evict n ops ?l2 = Some l2'" "forgets (peek c) (peek (l2_lru l2'))"
      using Suc.IH [of ?l2] Suc.prems facts(2) by auto
    moreover have "evict (Suc n) ops l2 = evict n ops ?l2"
      using True facts(1) pop by auto
    ultimately show ?thesis using forgets_trans [OF facts(3)] by auto
  qed
qed simp

lemma l2_insert_ok:
  assumes "lru_contract ops peek"
  shows "\<exists>l2'. l2_insert ops k v l2 = Some l2' \<and> forgets ((peek (l2_lru l2))(k \<mapsto> v)) (peek (l2_lru l2'))"
proof -
  obtain r c where put: "lru_put ops k v (l2_lru l2) = (r, c)" by (cases "lru_put ops k v (l2_lru l2)")
  have "peek c k' \<in> {None, ((peek (l2_lru l2))(k \<mapsto> v)) k'}" for k'
    using lru_contractD(4) [OF assms, of k v "l2_lru l2"] lru_contractD(5) [OF assms, of k' k v "l2_lru l2"] put
    by (cases "k' = k") auto
  then have f: "forgets ((peek (l2_lru l2))(k \<mapsto> v)) (peek c)" by (simp only: forgets_def) blast
  define x where "x = (if r = None then l2\<lparr>l2_lru := c, l2_current_bytes := l2_current_bytes l2 + 64\<rparr> else l2\<lparr>l2_lru := c\<rparr>)"
  have x: "l2_insert ops k v l2 = evict (Suc (lru_len ops c)) ops x" "l2_lru x = c"
    by (auto simp: l2_insert_def put x_def split: option.split)
  obtain l2' where "evict (Suc (lru_len ops c)) ops x = Some l2'" "forgets (peek c) (peek (l2_lru l2'))"
    using evict_terminates [OF assms, of x "Suc (lru_len ops c)"] unfolding x by blast
  then show ?thesis using forgets_trans [OF f] unfolding x by blast
qed

lemma l2_insert_batch_ok:
  assumes "lru_contract ops peek"
  shows "\<exists>l2'. l2_insert_batch ops es l2 = Some l2' \<and>
    forgets (peek (l2_lru l2) ++ map_of (rev es)) (peek (l2_lru l2'))"
proof (induction es arbitrary: l2)
  case (Cons e es)
  obtain k v where e: "e = (k, v)" by (cases e)
  obtain l2a where a: "l2_insert ops k v l2 = Some l2a" "forgets ((peek (l2_lru l2))(k \<mapsto> v)) (peek (l2_lru l2a))"
    using l2_insert_ok [OF assms] by blast
  obtain l2b where b: "l2_insert_batch ops es l2a = Some l2b" "forgets (peek (l2_lru l2a) ++ map_of (rev es)) (peek (l2_lru l2b))"
    using Cons by blast
  have "forgets ((peek (l2_lru l2))(k \<mapsto> v) ++ map_of (rev es)) (peek (l2_lru l2b))"
    by (rule forgets_trans [OF forgets_upd [OF a(2)] b(2)])
  then have "forgets (peek (l2_lru l2) ++ map_of (rev (e # es))) (peek (l2_lru l2b))"
    by (simp add: e)
  then show ?case using a(1) b(1) by (simp add: e del: rev.simps)
qed simp

section \<open>The contract of a durable store\<close>

text \<open>A slot without an entry reads as zero, which is how the EVM sees it.\<close>

definition store_value :: "'d StateStore \<Rightarrow> 'd \<Rightarrow> Key \<Rightarrow> Value" where
  "store_value S d k = (case ss_get S d k of Some v \<Rightarrow> v | None \<Rightarrow> 0)"

locale state_store =
  fixes S :: "'d StateStore"
  assumes put_ok: "ss_put S k v d = (Inr u, d') \<Longrightarrow> store_value S d' k' = (if k' = k then v else store_value S d k')"
    and put_err: "ss_put S k v d = (Inl e, d') \<Longrightarrow> k' \<noteq> k \<Longrightarrow> store_value S d' k' = store_value S d k'"
begin

lemma put_batch_ok:
  "put_batch S es d = (Inr u, d') \<Longrightarrow>
   store_value S d' k = (case map_of (rev es) k of Some v \<Rightarrow> v | None \<Rightarrow> store_value S d k)"
proof (induction es arbitrary: d)
  case (Cons e es)
  obtain ke ve where e: "e = (ke, ve)" by (cases e)
  from Cons.prems obtain u' d1 where d1: "ss_put S ke ve d = (Inr u', d1)" "put_batch S es d1 = (Inr u, d')"
    by (auto simp: e split: prod.splits sum.splits)
  show ?case
    using Cons.IH [OF d1(2)] put_ok [OF d1(1), of k] by (auto simp: e map_add_def split: option.splits)
qed simp

lemma put_batch_other:
  "put_batch S es d = (r, d') \<Longrightarrow> k \<notin> fst ` set es \<Longrightarrow> store_value S d' k = store_value S d k"
proof (induction es arbitrary: d)
  case (Cons e es)
  obtain ke ve where e: "e = (ke, ve)" by (cases e)
  obtain r1 d1 where d1: "ss_put S ke ve d = (r1, d1)" by (cases "ss_put S ke ve d")
  have "k \<noteq> ke" using Cons.prems by (auto simp: e)
  then have "store_value S d1 k = store_value S d k"
    using d1 put_ok [of ke ve d _ d1 k] put_err [of ke ve d _ d1 k] by (cases r1) simp_all
  then show ?case
    using Cons.prems Cons.IH [of d1] d1 by (cases r1) (auto simp: e)
qed simp

end

interpretation mem_store: state_store InMemoryStateStore
  by unfold_locales (auto simp: InMemoryStateStore_def store_value_def)

lemma rocks_store_value:
  "store_value RocksDbStateStore d k = (case cs_slots d (decode_key k) of Some v \<Rightarrow> v | None \<Rightarrow> 0)"
  by (simp add: store_value_def RocksDbStateStore_def get_storage_slot_def encode_value_def
      split: prod.split option.split)

interpretation rocks_store: state_store RocksDbStateStore
proof
  fix k k' :: Key and v :: Value and d d' :: ChaseStorage and u :: unit
  assume "ss_put RocksDbStateStore k v d = (Inr u, d')"
  then have "cs_slots d' = (cs_slots d)(decode_key k := if v = 0 then None else Some v)"
    by (auto simp: RocksDbStateStore_def put_storage_slot_def decode_value_def split: prod.splits if_splits)
  then show "store_value RocksDbStateStore d' k' = (if k' = k then v else store_value RocksDbStateStore d k')"
    by (simp add: rocks_store_value decode_key_inj)
qed (simp add: RocksDbStateStore_def split: prod.splits)

section \<open>The cache as one map\<close>

text \<open>
  What the layers must agree on for a key: the newest entry of L1 is its value; a key that L1 does
  not hold has its value in the store, and L2 holds that value or nothing.
\<close>

definition key_ok :: "'d StateStore \<Rightarrow> (Key \<times> Value) list \<Rightarrow> (Key \<rightharpoonup> Value) \<Rightarrow> 'd \<Rightarrow> (Key \<Rightarrow> Value) \<Rightarrow> Key \<Rightarrow> bool" where
  "key_ok S es l2 d m k \<longleftrightarrow>
     (case map_of (rev es) k of
        Some v \<Rightarrow> m k = v
      | None \<Rightarrow> m k = store_value S d k \<and> l2 k \<in> {None, Some (m k)})"

definition tl_ok :: "'d StateStore \<Rightarrow> ('c \<Rightarrow> Key \<rightharpoonup> Value) \<Rightarrow> (Key \<Rightarrow> Value) \<Rightarrow> ('c, 'd) TwoLevelCache \<Rightarrow> bool" where
  "tl_ok S peek m c \<longleftrightarrow> l1_ok (tl_l1 c) \<and>
     (\<forall>k. key_ok S (l1_entries (tl_l1 c)) (peek (l2_lru (tl_l2 c))) (tl_db c) m k) \<and>
     (\<forall>b ps. pending_batch_pages c b = Some ps \<longrightarrow>
        fst ` set (pages_entries ps) \<subseteq> fst ` set (l1_entries (tl_l1 c)))"

text \<open>The specification: writing pages overwrites the map, nothing else changes it.\<close>

definition overwrite :: "(Key \<times> Value) list \<Rightarrow> (Key \<Rightarrow> Value) \<Rightarrow> Key \<Rightarrow> Value" where
  "overwrite es m k = (case map_of (rev es) k of Some v \<Rightarrow> v | None \<Rightarrow> m k)"

lemma key_ok_write: "key_ok S es l2 d m k \<Longrightarrow> key_ok S (es @ new) l2 d (overwrite new m) k"
  by (auto simp: key_ok_def overwrite_def map_add_def split: option.splits)

context state_store
begin

lemma key_ok_persist:
  assumes "key_ok S es l2 d m k" "put_batch S new d = (r, d')" "fst ` set new \<subseteq> fst ` set es"
    "forgets (l2 ++ map_of (rev new)) l2' \<or> l2' = l2"
  shows "key_ok S es l2' d' m k"
proof (cases "map_of (rev es) k")
  case None
  then have "k \<notin> fst ` set es" by (simp add: map_of_rev_None)
  then have k: "k \<notin> fst ` set new" using assms(3) by blast
  then have "(l2 ++ map_of (rev new)) k = l2 k"
    using map_of_rev_None [of new k] by (simp add: map_add_def)
  with assms(4) have "l2' k \<in> {None, l2 k}" by (auto simp: forgets_def)
  with None assms(1) put_batch_other [OF assms(2) k] show ?thesis
    by (auto simp: key_ok_def)
qed (use assms(1) in \<open>simp add: key_ok_def\<close>)

lemma key_ok_flush:
  assumes "key_ok S (new @ rest) l2 d m k" "put_batch S new d = (Inr u, d')"
    "forgets (l2 ++ map_of (rev new)) l2'"
  shows "key_ok S rest l2' d' m k"
proof -
  have "l2' k \<in> {None, (l2 ++ map_of (rev new)) k}" using assms(3) by (simp add: forgets_def)
  with assms(1) put_batch_ok [OF assms(2), of k] show ?thesis
    by (auto simp: key_ok_def map_add_def split: option.splits)
qed

end

lemma tl_ok_new:
  assumes "lru_contract ops peek"
  shows "tl_ok S peek (store_value S d) (TwoLevelCache_new ops config d)"
  by (simp add: tl_ok_def TwoLevelCache_new_def L2Cache_new_def key_ok_def lru_contractD(1) [OF assms])

lemma write_delta_pages_ok:
  assumes "tl_ok S peek m c" "list_all is_readonly ps"
  obtains c' where "write_delta_pages b ps c = Some c'" "tl_ok S peek (overwrite (pages_entries ps) m) c'"
    "l1_entries (tl_l1 c') = l1_entries (tl_l1 c) @ pages_entries ps"
    "dom (pending_batch_pages c') = insert b (dom (pending_batch_pages c))"
    "completed_batch c' = completed_batch c"
proof -
  obtain l where l: "write_pages_l1 ps (tl_l1 c) = Some l" "l1_ok l" "l1_entries l = l1_entries (tl_l1 c) @ pages_entries ps"
    using write_pages_l1_ok assms by (metis tl_ok_def)
  define c' where "c' = c\<lparr>tl_l1 := l,
     batch_delta_bytes := (batch_delta_bytes c)(b \<mapsto> fold (\<lambda>p n. n + byte_size p) ps 0),
     pending_batch_pages := (pending_batch_pages c)(b \<mapsto> ps)\<rparr>"
  have c': "tl_l1 c' = l" "tl_l2 c' = tl_l2 c" "tl_db c' = tl_db c" "completed_batch c' = completed_batch c"
    "pending_batch_pages c' = (pending_batch_pages c)(b \<mapsto> ps)"
    by (simp_all add: c'_def)
  have pend: "pending_batch_pages c b' = Some qs \<Longrightarrow>
      fst ` set (pages_entries qs) \<subseteq> fst ` set (l1_entries (tl_l1 c))" for b' qs
    using assms(1) by (simp add: tl_ok_def)
  have "key_ok S (l1_entries l) (peek (l2_lru (tl_l2 c))) (tl_db c) (overwrite (pages_entries ps) m) k" for k
    unfolding l(3) by (rule key_ok_write) (use assms(1) in \<open>simp add: tl_ok_def\<close>)
  moreover have "fst ` set (pages_entries qs) \<subseteq> fst ` set (l1_entries l)"
    if "((pending_batch_pages c)(b \<mapsto> ps)) b' = Some qs" for b' qs
    using that pend [of b' qs] unfolding l(3) by (cases "b' = b") auto
  ultimately have "tl_ok S peek (overwrite (pages_entries ps) m) c'"
    using l(2) by (simp add: tl_ok_def c')
  then show thesis
    by (rule that [rotated]) (simp_all add: write_delta_pages_def l(1) c'_def l(3))
qed

lemma mark_batch_complete_ok: "tl_ok S peek m (mark_batch_complete b c) = tl_ok S peek m c"
  by (simp add: tl_ok_def mark_batch_complete_def)

lemma cache_read_ok:
  assumes "lru_contract ops peek" "tl_ok S peek m c"
  shows "tl_ok S peek m (snd (cache_read ops S k b c))"
    and "b \<le> completed_batch c \<Longrightarrow> (case fst (cache_read ops S k b c) of Some v \<Rightarrow> v | None \<Rightarrow> 0) = m k"
proof -
  obtain v l2 where get: "lru_get ops k (l2_lru (tl_l2 c)) = (v, l2)" by (cases "lru_get ops k (l2_lru (tl_l2 c))")
  then have v: "v = peek (l2_lru (tl_l2 c)) k" "peek l2 = peek (l2_lru (tl_l2 c))"
    using lru_contractD(2, 3) [OF assms(1), of k "l2_lru (tl_l2 c)"] by simp_all
  note split = cache_read_def l2_get_def get Let_def
  show "tl_ok S peek m (snd (cache_read ops S k b c))"
    using assms(2) v(2) by (auto simp: tl_ok_def split split: option.split)
  have "key_ok S (l1_entries (tl_l1 c)) (peek (l2_lru (tl_l2 c))) (tl_db c) m k" "l1_ok (tl_l1 c)"
    using assms(2) by (simp_all add: tl_ok_def)
  then show "(case fst (cache_read ops S k b c) of Some v \<Rightarrow> v | None \<Rightarrow> 0) = m k" if "b \<le> completed_batch c"
    using that v by (auto simp: split l1_read_entries key_ok_def store_value_def not_less split: option.splits)
qed

context state_store
begin

lemma commit_batch_ok:
  assumes "lru_contract ops peek" "tl_ok S peek m c"
  shows "\<exists>r c'. commit_batch ops S b c = Some (r, c') \<and> tl_ok S peek m c' \<and>
    pending_batch_pages c' = (pending_batch_pages c)(b := None) \<and> completed_batch c' = completed_batch c"
proof -
  define ps where "ps = (case pending_batch_pages c b of Some ps \<Rightarrow> ps | None \<Rightarrow> [])"
  define c1 where "c1 = c\<lparr>pending_batch_pages := (pending_batch_pages c)(b := None)\<rparr>"
  have sub: "fst ` set (pages_entries ps) \<subseteq> fst ` set (l1_entries (tl_l1 c))"
    using assms(2) by (auto simp: tl_ok_def ps_def split: option.splits)
  have c1: "tl_ok S peek m c1"
    using assms(2) by (auto simp: tl_ok_def c1_def)
  obtain r d where put: "put_batch S (pages_entries ps) (tl_db c) = (r, d)"
    by (cases "put_batch S (pages_entries ps) (tl_db c)")
  obtain l2 where l2: "l2_insert_batch ops (pages_entries ps) (tl_l2 c) = Some l2"
    "forgets (peek (l2_lru (tl_l2 c)) ++ map_of (rev (pages_entries ps))) (peek (l2_lru l2))"
    using l2_insert_batch_ok [OF assms(1)] by blast
  have key: "key_ok S (l1_entries (tl_l1 c)) pk d m k" if "pk = peek (l2_lru (tl_l2 c)) \<or> pk = peek (l2_lru l2)" for k pk
    by (rule key_ok_persist [OF _ put sub, of "peek (l2_lru (tl_l2 c))"]) (use assms(2) l2(2) that in \<open>auto simp: tl_ok_def\<close>)
  have "tl_ok S peek m (c1\<lparr>tl_db := d\<rparr>)" "tl_ok S peek m (c1\<lparr>tl_db := d, tl_l2 := l2\<rparr>)"
    using c1 key by (auto simp: tl_ok_def c1_def)
  with c1 put l2(1) show ?thesis
    unfolding commit_batch_def ps_def [symmetric]
    by (cases r) (auto simp: c1_def Let_def)
qed

lemma flush_tables_ok:
  assumes "lru_contract ops peek" "tl_ok S peek m c" "\<forall>b. pending_batch_pages c b = None"
    "frozen_tables (tl_l1 c) = ts"
  shows "\<exists>r c'. flush_tables ops S ts n c = Some (r, c') \<and> tl_ok S peek m c' \<and>
    pending_batch_pages c' = pending_batch_pages c \<and> completed_batch c' = completed_batch c"
  using assms(2-)
proof (induction ts arbitrary: n c)
  case (Cons t ts)
  let ?es = "pages_entries (mit_pages (tables (tl_l1 c) t))"
  have ok: "l1_ok (tl_l1 c)"
    and keys: "\<And>k. key_ok S (l1_entries (tl_l1 c)) (peek (l2_lru (tl_l2 c))) (tl_db c) m k"
    using Cons.prems(1) by (simp_all add: tl_ok_def)
  note rem = remove_frozen_ok [OF ok Cons.prems(3)]
  obtain r d where put: "put_batch S ?es (tl_db c) = (r, d)" by (cases "put_batch S ?es (tl_db c)")
  obtain l2 where l2: "l2_insert_batch ops ?es (tl_l2 c) = Some l2"
    "forgets (peek (l2_lru (tl_l2 c)) ++ map_of (rev ?es)) (peek (l2_lru l2))"
    using l2_insert_batch_ok [OF assms(1)] by blast
  show ?case
  proof (cases "mit_pages (tables (tl_l1 c) t) = []")
    case True
    let ?c = "c\<lparr>tl_l1 := remove_frozen_table t (tl_l1 c)\<rparr>"
    have same: "(tl_l1 c)\<lparr>tables := (tables (tl_l1 c))(t := tables (tl_l1 c) t)\<rparr> = tl_l1 c" by simp
    note rem1 = rem [where tab = "tables (tl_l1 c) t", unfolded same]
    have c: "tl_ok S peek m ?c"
      using Cons.prems(2) rem1(1) keys rem1(2) True by (simp add: tl_ok_def table_entries_def)
    have "\<forall>b. pending_batch_pages ?c b = None" "frozen_tables (tl_l1 ?c) = ts"
      using Cons.prems(2) rem1(3) by simp_all
    from Cons.IH [OF c this, of n] obtain r c' where "flush_tables ops S ts n ?c = Some (r, c') \<and> tl_ok S peek m c' \<and>
        pending_batch_pages c' = pending_batch_pages c \<and> completed_batch c' = completed_batch c"
      by auto
    with True show ?thesis by auto
  next
    case False
    have sub: "fst ` set ?es \<subseteq> fst ` set (l1_entries (tl_l1 c))"
      using rem(2) [of "tables (tl_l1 c) t"] by (auto simp: table_entries_def)
    show ?thesis
    proof (cases r)
      case (Inl e)
      have "tl_ok S peek m (c\<lparr>tl_db := d\<rparr>)"
        using Cons.prems(1) key_ok_persist [OF keys put sub disjI2 [OF refl]] by (simp add: tl_ok_def)
      with Inl put False show ?thesis by auto
    next
      case (Inr u)
      have "is_frozen (tables (tl_l1 c) t)"
        using ok Cons.prems(3) by (simp add: l1_ok_def)
      then obtain tab where drain: "drain_pages (tables (tl_l1 c) t) = Some (mit_pages (tables (tl_l1 c) t), tab)"
        by (simp add: drain_pages_def)
      let ?c = "c\<lparr>tl_db := d, tl_l2 := l2,
        tl_l1 := remove_frozen_table t ((tl_l1 c)\<lparr>tables := (tables (tl_l1 c))(t := tab)\<rparr>)\<rparr>"
      have "key_ok S (l1_entries (tl_l1 ?c)) (peek (l2_lru l2)) d m k" for k
        using key_ok_flush [OF _ put [unfolded Inr] l2(2), of "l1_entries (tl_l1 ?c)" m k] keys [of k]
        by (simp add: rem(2) [of tab] table_entries_def)
      then have c: "tl_ok S peek m ?c"
        using Cons.prems(2) rem(1) [of tab] by (simp add: tl_ok_def)
      have "\<forall>b. pending_batch_pages ?c b = None" "frozen_tables (tl_l1 ?c) = ts"
        using Cons.prems(2) rem(3) [of tab] by simp_all
      from Cons.IH [OF c this, of "n + length (mit_pages (tables (tl_l1 c) t))"] obtain r' c' where "flush_tables ops S ts (n + length (mit_pages (tables (tl_l1 c) t))) ?c = Some (r', c') \<and>
          tl_ok S peek m c' \<and> pending_batch_pages c' = pending_batch_pages c \<and> completed_batch c' = completed_batch c"
        by auto
      with Inr put False l2(1) drain show ?thesis by auto
    qed
  qed
qed simp

lemma flush_attempts_ok:
  assumes "lru_contract ops peek" "tl_ok S peek m c" "\<forall>b. pending_batch_pages c b = None"
  shows "\<exists>r c'. flush_attempts ops S mx n e c = Some (r, c') \<and> tl_ok S peek m c' \<and>
    pending_batch_pages c' = pending_batch_pages c \<and> completed_batch c' = completed_batch c"
  using assms(2-)
proof (induction n arbitrary: e c)
  case (Suc n)
  obtain r c' where c': "flush_frozen_tables ops S c = Some (r, c')" "tl_ok S peek m c'"
    "pending_batch_pages c' = pending_batch_pages c" "completed_batch c' = completed_batch c"
    using flush_tables_ok [OF assms(1) Suc.prems refl] unfolding flush_frozen_tables_def by blast
  show ?case
  proof (cases r)
    case (Inl err)
    have "\<forall>b. pending_batch_pages c' b = None" using Suc.prems(2) c'(3) by simp
    from Suc.IH [OF c'(2) this, of err] show ?thesis by (simp add: c' Inl)
  qed (use c' in auto)
qed simp

end

section \<open>Programs over the cache\<close>

text \<open>
  Any interleaving of the operations that the pipeline calls.  A program is disciplined when its
  pages are frozen and it flushes only while no batch waits for its commit, which is when the bridge
  calls \<open>try_flush_with_retry\<close>.
\<close>

datatype CacheOp =
    OpWrite u64 "DeltaPage list"
  | OpComplete u64
  | OpRead Key u64
  | OpCommit u64
  | OpFlush u32

fun run_op :: "'c LruOps \<Rightarrow> 'd StateStore \<Rightarrow> CacheOp \<Rightarrow> ('c, 'd) TwoLevelCache \<Rightarrow> ('c, 'd) TwoLevelCache option" where
  "run_op ops S (OpWrite b ps) c = write_delta_pages b ps c"
| "run_op ops S (OpComplete b) c = Some (mark_batch_complete b c)"
| "run_op ops S (OpRead k b) c = Some (snd (cache_read ops S k b c))"
| "run_op ops S (OpCommit b) c = map_option snd (commit_batch ops S b c)"
| "run_op ops S (OpFlush n) c = map_option snd (try_flush_with_retry ops S n c)"

fun run_ops :: "'c LruOps \<Rightarrow> 'd StateStore \<Rightarrow> CacheOp list \<Rightarrow> ('c, 'd) TwoLevelCache \<Rightarrow> ('c, 'd) TwoLevelCache option" where
  "run_ops ops S [] c = Some c"
| "run_ops ops S (x # xs) c = do { c' \<leftarrow> run_op ops S x c; run_ops ops S xs c' }"

fun disciplined :: "u64 list \<Rightarrow> CacheOp list \<Rightarrow> bool" where
  "disciplined pending [] = True"
| "disciplined pending (OpWrite b ps # xs) = (list_all is_readonly ps \<and> disciplined (b # pending) xs)"
| "disciplined pending (OpCommit b # xs) = disciplined (removeAll b pending) xs"
| "disciplined pending (OpFlush n # xs) = (pending = [] \<and> disciplined pending xs)"
| "disciplined pending (OpComplete b # xs) = disciplined pending xs"
| "disciplined pending (OpRead k b # xs) = disciplined pending xs"

fun written :: "CacheOp list \<Rightarrow> (Key \<times> Value) list" where
  "written [] = []"
| "written (OpWrite b ps # xs) = pages_entries ps @ written xs"
| "written (_ # xs) = written xs"

lemma overwrite_Nil [simp]: "overwrite [] m = m"
  by (simp add: overwrite_def fun_eq_iff)

lemma overwrite_append: "overwrite es' (overwrite es m) = overwrite (es @ es') m"
  by (auto simp: overwrite_def map_add_def fun_eq_iff split: option.split)

lemma cache_read_frame: "pending_batch_pages (snd (cache_read ops S k b c)) = pending_batch_pages c"
  by (simp add: cache_read_def l2_get_def split: option.split prod.split)

context state_store
begin

lemma run_op_ok:
  assumes lru: "lru_contract ops peek" and ok: "tl_ok S peek m c"
    and pend: "dom (pending_batch_pages c) \<subseteq> set pending" and disc: "disciplined pending (x # xs)"
  obtains c' pending' where "run_op ops S x c = Some c'" "tl_ok S peek (overwrite (written [x]) m) c'"
    "dom (pending_batch_pages c') \<subseteq> set pending'" "disciplined pending' xs"
proof (cases x)
  case (OpWrite b ps)
  then have "list_all is_readonly ps" using disc by simp
  then obtain c' where "write_delta_pages b ps c = Some c'" "tl_ok S peek (overwrite (pages_entries ps) m) c'"
    "dom (pending_batch_pages c') = insert b (dom (pending_batch_pages c))"
    using write_delta_pages_ok [OF ok] by metis
  then show thesis using that [of c' "b # pending"] OpWrite pend disc by auto
next
  case (OpComplete b)
  then show thesis
    using that [of "mark_batch_complete b c" pending] ok pend disc
    by (simp add: mark_batch_complete_ok) (simp add: mark_batch_complete_def)
next
  case (OpRead k b)
  then show thesis
    using that [of "snd (cache_read ops S k b c)" pending] cache_read_ok(1) [OF lru ok] pend disc
    by (simp add: cache_read_frame)
next
  case (OpCommit b)
  obtain r c' where c': "commit_batch ops S b c = Some (r, c')" "tl_ok S peek m c'"
    "pending_batch_pages c' = (pending_batch_pages c)(b := None)"
    using commit_batch_ok [OF lru ok] by blast
  then have "dom (pending_batch_pages c') \<subseteq> set (removeAll b pending)" using pend by auto
  with c' show thesis using that [of c' "removeAll b pending"] OpCommit disc by simp
next
  case (OpFlush n)
  have "\<forall>b. pending_batch_pages c b = None"
    using pend disc OpFlush by (auto simp: dom_def)
  then obtain r c' where "try_flush_with_retry ops S n c = Some (r, c')" "tl_ok S peek m c'"
    "pending_batch_pages c' = pending_batch_pages c"
    using flush_attempts_ok [OF lru ok] unfolding try_flush_with_retry_def by blast
  then show thesis using that [of c' pending] OpFlush pend disc by auto
qed

lemma run_ops_ok:
  assumes lru: "lru_contract ops peek" and ok: "tl_ok S peek m c"
    and pend: "dom (pending_batch_pages c) \<subseteq> set pending" and disc: "disciplined pending xs"
  shows "\<exists>c'. run_ops ops S xs c = Some c' \<and> tl_ok S peek (overwrite (written xs) m) c'"
  using ok pend disc
proof (induction xs arbitrary: m c pending)
  case Nil
  then show ?case by simp
next
  case (Cons x xs)
  then obtain c1 pending' where c1: "run_op ops S x c = Some c1" "tl_ok S peek (overwrite (written [x]) m) c1"
    "dom (pending_batch_pages c1) \<subseteq> set pending'" "disciplined pending' xs"
    using run_op_ok [OF lru] by metis
  have "written (x # xs) = written [x] @ written xs" by (cases x) simp_all
  with Cons.IH [OF c1(2-4)] c1(1) show ?case by (simp add: overwrite_append)
qed

lemma run_ops_new:
  assumes "lru_contract ops peek" "disciplined [] xs"
  shows "\<exists>c. run_ops ops S xs (TwoLevelCache_new ops config d) = Some c \<and>
    (\<forall>k b. b \<le> completed_batch c \<longrightarrow>
       (case fst (cache_read ops S k b c) of Some v \<Rightarrow> v | None \<Rightarrow> 0) = overwrite (written xs) (store_value S d) k)"
proof -
  have "dom (pending_batch_pages (TwoLevelCache_new ops config d)) \<subseteq> set []"
    by (simp add: TwoLevelCache_new_def)
  from run_ops_ok [OF assms(1) tl_ok_new [OF assms(1)] this assms(2)] obtain c
    where c: "run_ops ops S xs (TwoLevelCache_new ops config d) = Some c"
      "tl_ok S peek (overwrite (written xs) (store_value S d)) c" by blast
  show ?thesis
    by (intro exI [of _ c] conjI allI impI c(1) cache_read_ok(2) [OF assms(1) c(2)])
qed

end

section \<open>A list as LRU container, and sample data\<close>

text \<open>Most recent entry first, and at most four entries.\<close>

definition list_lru :: "(Key \<times> Value) list LruOps" where
  "list_lru = \<lparr>
     lru_new = (\<lambda>n. []),
     lru_get = (\<lambda>k c. (map_of c k,
        case map_of c k of None \<Rightarrow> c | Some v \<Rightarrow> (k, v) # AList.delete k c)),
     lru_put = (\<lambda>k v c. (map_of c k, (k, v) # take 3 (AList.delete k c))),
     lru_pop = (\<lambda>c. (if c = [] then None else Some (last c), butlast c)),
     lru_len = length\<rparr>"

lemma map_of_take: "map_of (take n xs) k \<in> {None, map_of xs k}"
  by (induction xs arbitrary: n) (auto simp: take_Cons split: nat.splits)

lemma list_lru_contract: "lru_contract list_lru map_of"
proof -
  have "map_of (take n (AList.delete k xs)) k' \<in> {None, map_of xs k'}"
    if "k' \<noteq> k" for n k k' and xs :: "(Key \<times> Value) list"
    using map_of_take [of n "AList.delete k xs" k'] that by (simp add: delete_conv')
  moreover have "map_of (butlast xs) k' \<in> {None, map_of xs k'}" for k' and xs :: "(Key \<times> Value) list"
    using map_of_take [of "length xs - 1" xs k'] by (simp add: butlast_conv_take)
  ultimately show ?thesis
    unfolding lru_contract_def list_lru_def
    by (auto simp: delete_conv' split: option.split)
qed

definition empty_storage :: ChaseStorage where
  "empty_storage = \<lparr>cs_accounts = Map.empty, cs_slots = Map.empty, cs_execution_index = None\<rparr>"

definition small_config :: CacheConfig where
  "small_config = \<lparr>l1_capacity_bytes = 144, deltapage_max_records = 128, cfg_l2_capacity_bytes = 128\<rparr>"

definition sample_page :: "u64 \<Rightarrow> (Key \<times> Value) list \<Rightarrow> DeltaPage" where
  "sample_page b ws = \<lparr>block_start = b, block_end = b,
     records = map (\<lambda>(k, v). \<lparr>dr_key = k, dr_value = v\<rparr>) ws, is_readonly = True\<rparr>"

text \<open>Batch 1 writes slots 5 and 6 of account 0 and fills the first table; batch 2 writes slot 5 again.
  Both are committed, as the bridge does before it flushes.\<close>

definition two_commits :: "CacheOp list" where
  "two_commits = [OpWrite 1 [sample_page 1 [(5, 10), (6, 11)]], OpComplete 1,
     OpWrite 2 [sample_page 2 [(5, 20)]], OpComplete 2, OpCommit 1, OpCommit 2]"

definition storage_writes :: "Apply \<Rightarrow> (Key \<times> Value) list" where
  "storage_writes a =
     (case a of
        Modify address _ _ storage _ \<Rightarrow> map (\<lambda>e. (encode_key address (fst e), snd e)) storage
      | Delete _ \<Rightarrow> [])"

lemma applies_to_temp_buffer_writes:
  "applies_to_temp_buffer applies buf = buf @ concat (map storage_writes applies)"
proof -
  have "fold (\<lambda>(slot, v). record_write address slot v) st buf
      = buf @ map (\<lambda>e. (encode_key address (fst e), snd e)) st" for address st and buf :: TempBuffer
    by (induction st arbitrary: buf) (auto simp: record_write_def encode_value_def)
  then have "apply_to_temp_buffer a buf = buf @ storage_writes a" for a buf
    by (simp add: apply_to_temp_buffer_def storage_writes_def split: Apply.split)
  then show ?thesis
    unfolding applies_to_temp_buffer_def by (induction applies arbitrary: buf) simp_all
qed

section \<open>Properties\<close>

text \<open>C39: A key decodes to its address and the low 96 bits of its slot, and two keys are equal exactly
  when the addresses are equal and the slots agree modulo 2 to the 96: distinct slots of one account
  that differ only in their upper 160 bits share a cache entry.\<close>

theorem encode_key_truncates:
  "decode_key (encode_key a s) = (a, take_bit 96 s) \<and>
   (encode_key a s = encode_key a' s' \<longleftrightarrow> a = a' \<and> unat s mod 2 ^ 96 = unat s' mod 2 ^ 96)"
proof -
  have "unat (take_bit 96 w) = unat w mod 2 ^ 96" for w :: h256
    by (simp only: unsigned_take_bit_eq take_bit_eq_mod [of _ "unat w"])
  then have "take_bit 96 s = take_bit 96 s' \<longleftrightarrow> unat s mod 2 ^ 96 = unat s' mod 2 ^ 96"
    by (simp only: word_unat_eq_iff)
  then show ?thesis
    using decode_key_inj [of "encode_key a s" "encode_key a' s'"] by (simp add: decode_encode_key)
qed

text \<open>Splitting a buffer into pages is chunking: the pages hold the records in order, each page
  is full but the last, and all are frozen and stamped with the block range.  A limit of zero gives an
  empty first page and then one record per page.\<close>

theorem into_delta_pages_chunks:
  "map page_entries (into_delta_pages buf s e n) =
     (if n = 0 then (if buf = [] then [] else [] # map (\<lambda>r. [r]) buf)
      else chunks (min n DELTA_PAGE_MAX_RECORDS) buf) \<and>
   list_all (\<lambda>p. is_readonly p \<and> block_start p = s \<and> block_end p = e) (into_delta_pages buf s e n)"
proof
  show "map page_entries (into_delta_pages buf s e n) =
     (if n = 0 then (if buf = [] then [] else [] # map (\<lambda>r. [r]) buf)
      else chunks (min n DELTA_PAGE_MAX_RECORDS) buf)"
    using fill_pages_zero [of s e buf "DeltaPage_new s e" "[]"]
      fill_pages_chunks [of "min n DELTA_PAGE_MAX_RECORDS" "DeltaPage_new s e" s e buf "[]"]
    by (cases "n = 0") (simp_all add: into_delta_pages_close DELTA_PAGE_MAX_RECORDS_def)
  show "list_all (\<lambda>p. is_readonly p \<and> block_start p = s \<and> block_end p = e) (into_delta_pages buf s e n)"
    using into_delta_pages_attrs [of s e buf n] by (simp add: page_attrs_def)
qed

text \<open>C4: Over the RocksDB store, every disciplined program of writes, completions, reads, commits and
  flushes runs to its end (the eviction loop of L2 included), and afterwards a read of any completed
  batch returns the last value written for its key, or what the store held at the start: L1, L2 and the
  store together are one map, whatever L1 froze and L2 evicted.\<close>

theorem two_level_cache_refines_map:
  assumes "lru_contract ops peek" and "disciplined [] prog"
  shows "\<exists>c. run_ops ops RocksDbStateStore prog (TwoLevelCache_new ops config d) = Some c \<and>
    (\<forall>k b. b \<le> completed_batch c \<longrightarrow>
       (case fst (cache_read ops RocksDbStateStore k b c) of Some v \<Rightarrow> v | None \<Rightarrow> 0)
         = overwrite (written prog) (store_value RocksDbStateStore d) k)"
  using rocks_store.run_ops_new [OF assms] .

theorem two_level_cache_refines_map_witness:
  "lru_contract list_lru map_of \<and> disciplined [] (two_commits @ [OpFlush 3]) \<and>
   (\<exists>c. run_ops list_lru RocksDbStateStore (two_commits @ [OpFlush 3])
          (TwoLevelCache_new list_lru small_config empty_storage) = Some c \<and>
        fst (cache_read list_lru RocksDbStateStore 5 0 c) = Some 20)"
proof -
  have d: "disciplined [] (two_commits @ [OpFlush 3])" by code_simp
  have w: "overwrite (written (two_commits @ [OpFlush 3])) (store_value RocksDbStateStore empty_storage) 5 = 20"
    by code_simp
  obtain c where c: "run_ops list_lru RocksDbStateStore (two_commits @ [OpFlush 3])
      (TwoLevelCache_new list_lru small_config empty_storage) = Some c"
    "(case fst (cache_read list_lru RocksDbStateStore 5 0 c) of Some v \<Rightarrow> v | None \<Rightarrow> 0) = 20"
    using two_level_cache_refines_map [OF list_lru_contract d, of small_config empty_storage] w by auto
  then have "fst (cache_read list_lru RocksDbStateStore 5 0 c) = Some 20"
    by (cases "fst (cache_read list_lru RocksDbStateStore 5 0 c)") simp_all
  with c(1) d list_lru_contract show ?thesis by auto
qed


text \<open>C37: What a batch wrote is visible to the next batch: when the effects of a batch go through the
  buffer and its delta pages into the cache and the batch is marked complete, the overlay returns, for
  every slot the batch wrote, the last value it wrote there (or to a slot with the same key), whatever the
  wrapped backend holds.\<close>

theorem overlay_sees_executed_batch:
  fixes c :: "('c, 'd) TwoLevelCache"
  assumes "l1_ok (tl_l1 c)"
    and "map_of (rev (concat (map storage_writes applies))) (encode_key a s) = Some v"
  shows "\<exists>c'. write_delta_pages b (into_delta_pages (applies_to_temp_buffer applies []) b b n) c = Some c' \<and>
    fst (overlay_storage ops S inner
      (Some (set_visible_batch b (L1Visibility_new (mark_batch_complete b c')))) a s) = v"
proof -
  let ?ps = "into_delta_pages (applies_to_temp_buffer applies []) b b n"
  have "list_all is_readonly ?ps"
    using into_delta_pages_attrs [of b b "applies_to_temp_buffer applies []" n] by (simp add: list_all_iff)
  then obtain l where l: "write_pages_l1 ?ps (tl_l1 c) = Some l" "l1_ok l"
    "l1_entries l = l1_entries (tl_l1 c) @ pages_entries ?ps"
    using write_pages_l1_ok assms(1) by metis
  then have "l1_read l (encode_key a s) = Some v"
    using assms(2) by (simp add: l1_read_entries applies_to_temp_buffer_writes)
  with l(1) show ?thesis
    by (simp add: write_delta_pages_def overlay_storage_def set_visible_batch_def L1Visibility_new_def
        mark_batch_complete_def cache_read_def decode_value_def)
qed

definition sample_applies :: "Apply list" where
  "sample_applies = [Modify 1 \<lparr>balance = 0, nonce = 0\<rparr> None [(5, 10), (6, 11)] False,
     Modify 1 \<lparr>balance = 0, nonce = 0\<rparr> None [(5, 12)] False]"

theorem overlay_sees_executed_batch_witness:
  "\<exists>c'. write_delta_pages 1 (into_delta_pages (applies_to_temp_buffer sample_applies []) 1 1 128)
       (TwoLevelCache_new list_lru small_config empty_storage) = Some c' \<and>
     fst (overlay_storage list_lru RocksDbStateStore (\<lambda>_ _. 7)
       (Some (set_visible_batch 1 (L1Visibility_new (mark_batch_complete 1 c')))) 1 5) = 12"
proof (rule overlay_sees_executed_batch)
  show "l1_ok (tl_l1 (TwoLevelCache_new list_lru small_config empty_storage))"
    by (simp add: TwoLevelCache_new_def)
  show "map_of (rev (concat (map storage_writes sample_applies))) (encode_key 1 5) = Some 12"
    by code_simp
qed

end
