(* ===== verification/Pipeline_Control.thy ===== *)
theory Pipeline_Control
  imports Delta_Cache
begin

text \<open>
  The stages, window control and measurements of the pipelined executor, from
  \<open>crates/sslab-execution/chase/src/executor/pipeline/\<close>: stages and batches (\<open>stages.rs\<close>), the AIMD
  window controller (\<open>controller.rs\<close>), the sequential driver (\<open>ev_blp.rs\<close>), the counters
  (\<open>metrics.rs\<close>) and the calibration of thresholds (\<open>calibration.rs\<close>).  The arrays indexed by
  \<open>StageId::index\<close> are functions of the stage.  The trait \<open>BatchExecutor\<close> is a record of the two
  methods over the state of the executor.  The two waiting loops of the driver and its final drain loop
  carry fuel, and \<^const>\<open>None\<close> means that the fuel ran out or that an accessor panicked; the inner
  loop over pending commits terminates by itself.  Floating-point averages and the formatted reports
  are not modelled; the percentile index is computed exactly, which agrees with the \<open>f64\<close> expression
  for sample counts below 2 to the 45.
\<close>

section \<open>Stages and batches\<close>

datatype StageId = Order | Exec | Commit

definition STAGE_COUNT :: nat where
  "STAGE_COUNT = 3"

fun stage_index :: "StageId \<Rightarrow> nat" where
  "stage_index Order = 0"
| "stage_index Exec = 1"
| "stage_index Commit = 2"

fun next_stage :: "StageId \<Rightarrow> StageId option" where
  "next_stage Order = Some Exec"
| "next_stage Exec = Some Commit"
| "next_stage Commit = None"

definition from_index :: "nat \<Rightarrow> StageId option" where
  "from_index i = (if i = 0 then Some Order else if i = 1 then Some Exec else if i = 2 then Some Commit else None)"

record PipelineBatch =
  pb_batch_id :: u64
  pb_batch :: ExecutableEthereumBatch
  pb_gas_weight :: u64
  pb_delta_bytes :: u64

fun gas_weight_of :: "EthereumTransaction list \<Rightarrow> u64 \<Rightarrow> u64 option" where
  "gas_weight_of [] acc = Some acc"
| "gas_weight_of (tx # txs) acc = do { g \<leftarrow> gas_limit tx; gas_weight_of txs (saturating_add acc g) }"

definition PipelineBatch_new :: "u64 \<Rightarrow> ExecutableEthereumBatch \<Rightarrow> PipelineBatch option" where
  "PipelineBatch_new i b = do {
     g \<leftarrow> gas_weight_of (batch_data b) 0;
     Some \<lparr>pb_batch_id = i, pb_batch = b, pb_gas_weight = g, pb_delta_bytes = 0\<rparr> }"

definition with_delta_bytes :: "u64 \<Rightarrow> PipelineBatch \<Rightarrow> PipelineBatch" where
  "with_delta_bytes n pb = pb\<lparr>pb_delta_bytes := n\<rparr>"

section \<open>The window controller\<close>

record PipelineConfig =
  cfg_zeta_max :: u32
  lambda2 :: u64
  lambda3 :: u64

definition PipelineConfig_default :: PipelineConfig where
  "PipelineConfig_default = \<lparr>cfg_zeta_max = 8, lambda2 = 10000000, lambda3 = 64 * 1024 * 1024\<rparr>"

record PipelineController =
  zeta :: "StageId \<Rightarrow> u32"
  weight :: "StageId \<Rightarrow> u64"
  lambda :: "StageId \<Rightarrow> u64"
  zeta_max :: u32
  in_flight :: "StageId \<Rightarrow> u32"

definition PipelineController_new :: "PipelineConfig \<Rightarrow> PipelineController" where
  "PipelineController_new config = \<lparr>zeta = (\<lambda>_. 1), weight = (\<lambda>_. 0),
     lambda = (\<lambda>s. case s of Order \<Rightarrow> 0 | Exec \<Rightarrow> lambda2 config | Commit \<Rightarrow> lambda3 config),
     zeta_max = cfg_zeta_max config, in_flight = (\<lambda>_. 0)\<rparr>"

definition can_push :: "PipelineController \<Rightarrow> StageId \<Rightarrow> bool" where
  "can_push c stage = (let window = zeta c stage in if window = 0 then False else in_flight c stage < window)"

definition on_batch_enter :: "StageId \<Rightarrow> u64 \<Rightarrow> PipelineController \<Rightarrow> PipelineController" where
  "on_batch_enter stage n c =
     c\<lparr>weight := (weight c)(stage := weight c stage + n), in_flight := (in_flight c)(stage := in_flight c stage + 1)\<rparr>"

definition tick :: "StageId \<Rightarrow> PipelineController \<Rightarrow> PipelineController" where
  "tick stage c =
     (case next_stage stage of
        None \<Rightarrow> c
      | Some nxt \<Rightarrow>
          (let w_next = weight c nxt;
               lam = lambda c nxt;
               current = zeta c stage;
               new_zeta =
                 (if w_next = 0
                  then (let capped = min (saturating_mul current 2) (zeta_max c) in if capped = 0 then 1 else capped)
                  else if w_next < lam then min (saturating_add current 1) (zeta_max c)
                  else 0)
           in c\<lparr>zeta := (zeta c)(stage := new_zeta)\<rparr>))"

definition on_batch_exit :: "StageId \<Rightarrow> u64 \<Rightarrow> PipelineController \<Rightarrow> PipelineController" where
  "on_batch_exit stage n c =
     tick stage (c\<lparr>weight := (weight c)(stage := saturating_sub (weight c stage) n),
                   in_flight := (in_flight c)(stage := saturating_sub (in_flight c stage) 1)\<rparr>)"

section \<open>The sequential driver\<close>

record 'e BatchExecutor =
  execute_batch :: "ExecutableEthereumBatch \<Rightarrow> u64 \<Rightarrow> 'e \<Rightarrow> BatchDigest \<times> TempBuffer \<times> 'e"
  executor_commit_batch :: "PipelineBatch \<Rightarrow> 'e \<Rightarrow> (string + unit) \<times> 'e"

record ('c, 'd) EvBlpPipeline =
  ep_controller :: PipelineController
  ep_cache :: "('c, 'd) TwoLevelCache"
  ep_cache_config :: CacheConfig
  next_batch_id :: u64
  last_exec_complete :: u64

definition from_config :: "'c LruOps \<Rightarrow> PipelineConfig \<Rightarrow> CacheConfig \<Rightarrow> 'd \<Rightarrow> ('c, 'd) EvBlpPipeline" where
  "from_config ops pconfig cconfig db = \<lparr>ep_controller = PipelineController_new pconfig,
     ep_cache = TwoLevelCache_new ops cconfig db, ep_cache_config = cconfig,
     next_batch_id = 1, last_exec_complete = 0\<rparr>"

definition alloc_batch_id :: "('c, 'd) EvBlpPipeline \<Rightarrow> u64 \<times> ('c, 'd) EvBlpPipeline" where
  "alloc_batch_id p = (next_batch_id p, p\<lparr>next_batch_id := next_batch_id p + 1\<rparr>)"

definition on_batch_exec_complete ::
  "u64 \<Rightarrow> DeltaPage list \<Rightarrow> ('c, 'd) EvBlpPipeline \<Rightarrow> ('c, 'd) EvBlpPipeline option" where
  "on_batch_exec_complete b pages p = do {
     c \<leftarrow> write_delta_pages b pages (ep_cache p);
     Some (p\<lparr>ep_cache := mark_batch_complete b c, last_exec_complete := b\<rparr>) }"

function drain_from :: "'e BatchExecutor \<Rightarrow> nat \<Rightarrow> PipelineBatch list \<Rightarrow> PipelineController \<Rightarrow> 'e \<Rightarrow>
    PipelineBatch list \<times> PipelineController \<times> 'e" where
  "drain_from X i pending ctrl e =
     (if i < length pending then
        if \<not> can_push ctrl Commit then (pending, ctrl, e)
        else
          let batch = pending ! i;
              ctrl = on_batch_enter Commit (pb_delta_bytes batch) ctrl;
              (r, e) = executor_commit_batch X batch e;
              ctrl = on_batch_exit Commit (pb_delta_bytes batch) ctrl
          in case r of
               Inr u \<Rightarrow> drain_from X i (take i pending @ drop (Suc i) pending) ctrl e
             | Inl err \<Rightarrow> drain_from X (Suc i) pending ctrl e
      else (pending, ctrl, e))"
  by pat_completeness auto
termination by (relation "measure (\<lambda>(X, i, pending, ctrl, e). length pending - i)") auto

declare drain_from.simps [simp del]

definition drain_commit_stage :: "'e BatchExecutor \<Rightarrow> PipelineBatch list \<Rightarrow> PipelineController \<Rightarrow> 'e \<Rightarrow>
    PipelineBatch list \<times> PipelineController \<times> 'e" where
  "drain_commit_stage X pending ctrl e = drain_from X 0 pending ctrl e"

text \<open>\<open>while !controller.can_push(stage) { drain_commit_stage(...) }\<close>\<close>

fun wait_window :: "nat \<Rightarrow> 'e BatchExecutor \<Rightarrow> StageId \<Rightarrow> PipelineBatch list \<Rightarrow> PipelineController \<Rightarrow> 'e \<Rightarrow>
    (PipelineBatch list \<times> PipelineController \<times> 'e) option" where
  "wait_window 0 X stage pending ctrl e = None"
| "wait_window (Suc n) X stage pending ctrl e =
     (if can_push ctrl stage then Some (pending, ctrl, e)
      else case drain_commit_stage X pending ctrl e of
             (pending', ctrl', e') \<Rightarrow> wait_window n X stage pending' ctrl' e')"

text \<open>\<open>while !pending_commit.is_empty() { drain_commit_stage(...) }\<close>\<close>

fun drain_all :: "nat \<Rightarrow> 'e BatchExecutor \<Rightarrow> PipelineBatch list \<Rightarrow> PipelineController \<Rightarrow> 'e \<Rightarrow>
    (PipelineController \<times> 'e) option" where
  "drain_all 0 X pending ctrl e = None"
| "drain_all (Suc n) X pending ctrl e =
     (if pending = [] then Some (ctrl, e)
      else case drain_commit_stage X pending ctrl e of
             (pending', ctrl', e') \<Rightarrow> drain_all n X pending' ctrl' e')"

definition process_batch :: "nat \<Rightarrow> 'e BatchExecutor \<Rightarrow> ExecutableEthereumBatch \<Rightarrow>
    ('c, 'd) EvBlpPipeline \<times> PipelineBatch list \<times> 'e \<Rightarrow>
    (BatchDigest \<times> ('c, 'd) EvBlpPipeline \<times> PipelineBatch list \<times> 'e) option" where
  "process_batch fuel X batch st = (case st of (p, pending, e) \<Rightarrow> do {
     let (batch_id, p) = alloc_batch_id p;
     pb \<leftarrow> PipelineBatch_new batch_id batch;
     (pending, ctrl, e) \<leftarrow> wait_window fuel X Order pending (ep_controller p) e;
     let ctrl = on_batch_enter Order (pb_gas_weight pb) ctrl;
     (pending, ctrl, e) \<leftarrow> wait_window fuel X Exec pending ctrl e;
     let visible_up_to = last_exec_complete p;
     let ctrl = on_batch_enter Exec (pb_gas_weight pb) ctrl;
     let (digest, buffer, e) = execute_batch X (pb_batch pb) visible_up_to e;
     let pb = with_delta_bytes (delta_bytes buffer) pb;
     let pages = into_delta_pages buffer batch_id batch_id (deltapage_max_records (ep_cache_config p));
     cache \<leftarrow> write_delta_pages batch_id pages (ep_cache p);
     let p = p\<lparr>ep_cache := mark_batch_complete batch_id cache, last_exec_complete := batch_id\<rparr>;
     let ctrl = on_batch_exit Exec (pb_gas_weight pb) ctrl;
     let ctrl = on_batch_exit Order (pb_gas_weight pb) ctrl;
     let (pending, ctrl, e) = drain_commit_stage X (pending @ [pb]) ctrl e;
     Some (digest, p\<lparr>ep_controller := ctrl\<rparr>, pending, e) })"

fun process_loop :: "nat \<Rightarrow> 'e BatchExecutor \<Rightarrow> ExecutableEthereumBatch list \<Rightarrow>
    ('c, 'd) EvBlpPipeline \<times> PipelineBatch list \<times> 'e \<Rightarrow>
    (BatchDigest list \<times> ('c, 'd) EvBlpPipeline \<times> PipelineBatch list \<times> 'e) option" where
  "process_loop fuel X [] st = Some ([], st)"
| "process_loop fuel X (b # bs) st = do {
     (digest, st) \<leftarrow> process_batch fuel X b st;
     (digests, st) \<leftarrow> process_loop fuel X bs st;
     Some (digest # digests, st) }"

definition process_batches :: "nat \<Rightarrow> 'c LruOps \<Rightarrow> 'd StateStore \<Rightarrow> 'e BatchExecutor \<Rightarrow>
    ExecutableEthereumBatch list \<Rightarrow> ('c, 'd) EvBlpPipeline \<Rightarrow> 'e \<Rightarrow>
    (BatchDigest list \<times> ('c, 'd) EvBlpPipeline \<times> 'e) option" where
  "process_batches fuel ops S X batches p e = do {
     (digests, p, pending, e) \<leftarrow> process_loop fuel X batches (p, [], e);
     (ctrl, e) \<leftarrow> drain_all fuel X pending (ep_controller p) e;
     (r, cache) \<leftarrow> try_flush_with_retry ops S 3 (ep_cache p);
     Some (digests, p\<lparr>ep_controller := ctrl, ep_cache := cache\<rparr>, e) }"

section \<open>Counters and calibration\<close>

record StageStats =
  batch_count :: u64
  total_us :: u64
  max_us :: u64
  stall_count :: u64
  stall_us :: u64

definition update_max :: "u64 \<Rightarrow> u64 \<Rightarrow> u64" where
  "update_max v current = (if current < v then v else current)"

definition stats_record_batch :: "u64 \<Rightarrow> StageStats \<Rightarrow> StageStats" where
  "stats_record_batch us s = s\<lparr>batch_count := batch_count s + 1, total_us := total_us s + us,
     max_us := update_max us (max_us s)\<rparr>"

definition stats_record_stall :: "u64 \<Rightarrow> StageStats \<Rightarrow> StageStats" where
  "stats_record_stall us s = s\<lparr>stall_count := stall_count s + 1, stall_us := stall_us s + us\<rparr>"

record WorkloadSample =
  ws_gas_weight :: u64
  ws_delta_bytes :: u64

record PipelineMetrics =
  stage_stats :: "StageId \<Rightarrow> StageStats"
  samples :: "WorkloadSample list"
  max_w_exec :: u64
  max_w_commit :: u64

definition metrics_record_batch :: "StageId \<Rightarrow> u64 \<Rightarrow> PipelineMetrics \<Rightarrow> PipelineMetrics" where
  "metrics_record_batch stage us m =
     m\<lparr>stage_stats := (stage_stats m)(stage := stats_record_batch us (stage_stats m stage))\<rparr>"

definition metrics_record_stall :: "StageId \<Rightarrow> u64 \<Rightarrow> PipelineMetrics \<Rightarrow> PipelineMetrics" where
  "metrics_record_stall stage us m =
     m\<lparr>stage_stats := (stage_stats m)(stage := stats_record_stall us (stage_stats m stage))\<rparr>"

definition record_workload :: "u64 \<Rightarrow> u64 \<Rightarrow> PipelineMetrics \<Rightarrow> PipelineMetrics" where
  "record_workload gas delta m = m\<lparr>samples := samples m @ [\<lparr>ws_gas_weight = gas, ws_delta_bytes = delta\<rparr>]\<rparr>"

definition record_backpressure_peak :: "u64 \<Rightarrow> u64 \<Rightarrow> PipelineMetrics \<Rightarrow> PipelineMetrics" where
  "record_backpressure_peak w_exec w_commit m =
     m\<lparr>max_w_exec := update_max w_exec (max_w_exec m), max_w_commit := update_max w_commit (max_w_commit m)\<rparr>"

record LambdaRecommendation =
  rec_lambda2 :: u64
  rec_lambda3 :: u64
  p95_gas_per_batch :: u64
  p95_delta_bytes_per_batch :: u64
  rec_sample_count :: nat

definition percentile_u64 :: "u64 list \<Rightarrow> nat \<Rightarrow> u64 option" where
  "percentile_u64 vals pct =
     (if vals = [] then None
      else let srt = sort vals;
               idx = (2 * pct * (length srt - 1) + 100) div 200
           in Some (srt ! min idx (length srt - 1)))"

definition recommend_lambdas :: "WorkloadSample list \<Rightarrow> u32 \<Rightarrow> LambdaRecommendation" where
  "recommend_lambdas smp z =
     (let p95_gas = (case percentile_u64 (map ws_gas_weight smp) 95 of Some v \<Rightarrow> v | None \<Rightarrow> 1);
          p95_delta = (case percentile_u64 (map ws_delta_bytes smp) 95 of Some v \<Rightarrow> v | None \<Rightarrow> 1);
          z64 = (ucast (max z 1) :: u64)
      in \<lparr>rec_lambda2 = saturating_mul (saturating_mul p95_gas z64) 2,
          rec_lambda3 = saturating_mul (saturating_mul p95_delta z64) 2,
          p95_gas_per_batch = p95_gas, p95_delta_bytes_per_batch = p95_delta,
          rec_sample_count = length smp\<rparr>)"

section \<open>Reachable controller states\<close>

text \<open>
  The runs of the controller that its callers produce: a batch enters a stage only when
  \<open>can_push\<close> allows it and leaves with the weight it entered with.  The second component is the
  multiset of the weights inside each stage; \<open>B\<close> bounds a single weight.
\<close>

inductive ctrl_reach :: "PipelineConfig \<Rightarrow> nat \<Rightarrow> PipelineController \<Rightarrow> (StageId \<Rightarrow> u64 multiset) \<Rightarrow> bool"
  for config B where
  init: "ctrl_reach config B (PipelineController_new config) (\<lambda>_. {#})"
| enter: "ctrl_reach config B c ms \<Longrightarrow> can_push c s \<Longrightarrow> unat n \<le> B \<Longrightarrow>
    ctrl_reach config B (on_batch_enter s n c) (ms(s := add_mset n (ms s)))"
| exit: "ctrl_reach config B c ms \<Longrightarrow> n \<in># ms s \<Longrightarrow>
    ctrl_reach config B (on_batch_exit s n c) (ms(s := ms s - {#n#}))"

lemma tick_fields [simp]:
  "weight (tick s c) = weight c" "in_flight (tick s c) = in_flight c"
  "zeta_max (tick s c) = zeta_max c" "lambda (tick s c) = lambda c"
  by (simp_all add: tick_def Let_def split: option.split)

lemma on_batch_enter_fields [simp]:
  "zeta (on_batch_enter s n c) = zeta c" "zeta_max (on_batch_enter s n c) = zeta_max c"
  "lambda (on_batch_enter s n c) = lambda c"
  "weight (on_batch_enter s n c) = (weight c)(s := weight c s + n)"
  "in_flight (on_batch_enter s n c) = (in_flight c)(s := in_flight c s + 1)"
  by (simp_all add: on_batch_enter_def)

lemma on_batch_exit_fields [simp]:
  "zeta_max (on_batch_exit s n c) = zeta_max c" "lambda (on_batch_exit s n c) = lambda c"
  "weight (on_batch_exit s n c) = (weight c)(s := saturating_sub (weight c s) n)"
  "in_flight (on_batch_exit s n c) = (in_flight c)(s := saturating_sub (in_flight c s) 1)"
  by (simp_all add: on_batch_exit_def)

lemma zeta_tick_le: "(\<And>t. zeta c t \<le> max 1 (zeta_max c)) \<Longrightarrow> zeta (tick s c) t \<le> max 1 (zeta_max c)"
  by (simp add: tick_def Let_def split: option.split)
    (auto simp: le_max_iff_disj min_le_iff_disj)

lemma zeta_exit_le:
  "(\<And>t. zeta c t \<le> max 1 (zeta_max c)) \<Longrightarrow> zeta (on_batch_exit s n c) t \<le> max 1 (zeta_max c)"
  unfolding on_batch_exit_def by (rule order_trans [OF zeta_tick_le]) simp_all

lemma zeta_exit_Commit: "zeta (on_batch_exit s n c) Commit = zeta c Commit"
  by (cases s) (simp_all add: on_batch_exit_def tick_def Let_def)

lemma ctrl_reach_windows:
  "ctrl_reach config B c ms \<Longrightarrow>
   zeta_max c = cfg_zeta_max config \<and> (\<forall>s. zeta c s \<le> max 1 (cfg_zeta_max config)) \<and> zeta c Commit = 1"
proof (induction rule: ctrl_reach.induct)
  case init
  then show ?case by (simp add: PipelineController_new_def)
next
  case (exit c ms n s)
  then show ?case using zeta_exit_le [of c s n] by (simp add: zeta_exit_Commit)
qed simp

lemma can_push_iff: "can_push c s \<longleftrightarrow> in_flight c s < zeta c s"
  by (auto simp: can_push_def Let_def)

lemma unat_Suc_less: "(a::'a::len word) < b \<Longrightarrow> unat (a + 1) = Suc (unat a)"
proof -
  assume "a < b"
  then have "unat a < unat b" by (simp only: word_less_nat_alt)
  moreover have "unat b < 2 ^ LENGTH('a)" by (rule unsigned_less)
  ultimately have "unat a + unat (1::'a word) < 2 ^ LENGTH('a)"
    unfolding unsigned_1 by linarith
  then show ?thesis using unat_add_exact [of a 1] by simp
qed

lemma ctrl_reach_in_flight:
  "ctrl_reach config B c ms \<Longrightarrow>
   unat (in_flight c s) = size (ms s) \<and> size (ms s) \<le> unat (max 1 (cfg_zeta_max config)) \<and> (\<forall>n\<in>#ms s. unat n \<le> B)"
proof (induction arbitrary: s rule: ctrl_reach.induct)
  case init
  then show ?case by (simp add: PipelineController_new_def)
next
  case (enter c ms t n)
  have lt: "in_flight c t < zeta c t" using enter by (simp add: can_push_iff)
  then have "in_flight c t < max 1 (cfg_zeta_max config)"
    using ctrl_reach_windows [OF enter(1)] by (meson order_less_le_trans)
  then have "size (ms t) < unat (max 1 (cfg_zeta_max config))"
    using enter.IH [of t] by (simp add: word_less_nat_alt)
  then show ?case using enter.IH [of s] enter(3) unat_Suc_less [OF lt] by auto
next
  case (exit c ms n t)
  then obtain m where "ms t = add_mset n m" by (metis mset_add)
  then show ?case using exit.IH [of s] by (auto simp: rust_arith)
qed

lemma ctrl_reach_weight:
  assumes "ctrl_reach config B c ms" "unat (max 1 (cfg_zeta_max config)) * B < 2 ^ 64"
  shows "unat (weight c s) = (\<Sum>n\<in>#ms s. unat n)"
  using assms(1)
proof (induction arbitrary: s rule: ctrl_reach.induct)
  case init
  then show ?case by (simp add: PipelineController_new_def)
next
  case (enter c ms t n)
  have "ctrl_reach config B (on_batch_enter t n c) (ms(t := add_mset n (ms t)))"
    using enter by (intro ctrl_reach.enter)
  from ctrl_reach_in_flight [OF this, of t]
  have sz: "size (add_mset n (ms t)) \<le> unat (max 1 (cfg_zeta_max config))" "\<forall>k\<in>#add_mset n (ms t). unat k \<le> B"
    by auto
  have "(\<Sum>k\<in>#M. unat k) \<le> size M * B" if "\<forall>k\<in>#M. unat k \<le> B" for M :: "u64 multiset"
    using that by (induction M) auto
  from this [OF sz(2)] have "unat n + (\<Sum>k\<in>#ms t. unat k) \<le> size (add_mset n (ms t)) * B" by simp
  also have "\<dots> \<le> unat (max 1 (cfg_zeta_max config)) * B" using sz(1) by (rule mult_le_mono1)
  finally have "unat (weight c t) + unat n < 2 ^ 64" using enter.IH [of t] assms(2) by simp
  then show ?case using enter.IH [of s] enter.IH [of t] by (simp add: unat_add_exact)
next
  case (exit c ms n t)
  then obtain m where "ms t = add_mset n m" by (metis mset_add)
  then show ?case using exit.IH [of s] by (auto simp: rust_arith)
qed

section \<open>The sequential driver\<close>

text \<open>A controller with nothing in flight and open windows.\<close>

definition idle :: "PipelineController \<Rightarrow> bool" where
  "idle c \<longleftrightarrow> (\<forall>s. in_flight c s = 0 \<and> weight c s = 0 \<and> zeta c s \<noteq> 0)"

lemma idle_new: "idle (PipelineController_new config)"
  by (simp add: idle_def PipelineController_new_def)

lemma saturating_sub_self [simp]: "saturating_sub (a::'a::len word) a = 0" "saturating_sub 0 (a::'a::len word) = 0"
  by (simp_all add: word_unat_eq_iff rust_arith)

lemma next_stage_neq [simp]: "next_stage s \<noteq> Some s"
  by (cases s) simp_all

lemma zeta_exit_pos:
  assumes "\<And>n. next_stage s = Some n \<Longrightarrow> weight c n = 0" "zeta c t \<noteq> 0"
  shows "zeta (on_batch_exit s m c) t \<noteq> 0"
  using assms by (cases s) (auto simp: on_batch_exit_def tick_def Let_def)

lemma idle_round_trip: "idle c \<Longrightarrow> idle (on_batch_exit s n (on_batch_enter s n c))"
  unfolding idle_def
  by (intro allI conjI zeta_exit_pos) (auto split: if_splits)

lemma idle_two_stages:
  "idle c \<Longrightarrow> idle (on_batch_exit Order n (on_batch_exit Exec n (on_batch_enter Exec n (on_batch_enter Order n c))))"
  unfolding idle_def
  by (intro allI conjI zeta_exit_pos) (auto split: if_splits)

lemma idle_can_push: "idle c \<Longrightarrow> can_push c s"
  by (simp add: idle_def can_push_iff word_neq_0_conv)

lemma drain_single:
  assumes "idle ctrl" "executor_commit_batch X pb e = (Inr u, e')"
  obtains ctrl' where "drain_commit_stage X [pb] ctrl e = ([], ctrl', e')" "idle ctrl'"
proof
  let ?c = "on_batch_exit Commit (pb_delta_bytes pb) (on_batch_enter Commit (pb_delta_bytes pb) ctrl)"
  show "idle ?c" by (rule idle_round_trip [OF assms(1)])
  have "drain_from X 0 [] ?c e' = ([], ?c, e')" by (simp add: drain_from.simps)
  then show "drain_commit_stage X [pb] ctrl e = ([], ?c, e')"
    unfolding drain_commit_stage_def
    by (subst drain_from.simps) (simp add: idle_can_push [OF assms(1)] assms(2) Let_def)
qed

lemma write_buffer_ok:
  assumes "l1_ok (tl_l1 c)"
  obtains c' where "write_delta_pages b (into_delta_pages buf s e n) c = Some c'" "l1_ok (tl_l1 c')"
proof -
  have "list_all is_readonly (into_delta_pages buf s e n)"
    using into_delta_pages_attrs [of s e buf n] by (simp add: list_all_iff)
  then obtain l where "write_pages_l1 (into_delta_pages buf s e n) (tl_l1 c) = Some l" "l1_ok l"
    using write_pages_l1_ok assms by metis
  then show thesis using that by (simp add: write_delta_pages_def)
qed

definition honest :: "'e BatchExecutor \<Rightarrow> bool" where
  "honest X \<longleftrightarrow> (\<forall>b v e. fst (execute_batch X b v e) = batch_digest b) \<and>
     (\<forall>pb e. fst (executor_commit_batch X pb e) = Inr ())"

lemma process_batch_ok:
  assumes X: "honest X" and c: "idle (ep_controller p)" "l1_ok (tl_l1 (ep_cache p))"
    and g: "gas_weight_of (batch_data b) 0 \<noteq> None" and fuel: "0 < fuel"
  obtains p' e' where "process_batch fuel X b (p, [], e) = Some (batch_digest b, p', [], e')"
    "idle (ep_controller p')" "l1_ok (tl_l1 (ep_cache p'))"
proof -
  obtain n where n: "fuel = Suc n" using fuel by (cases fuel) auto
  obtain gw where gw: "gas_weight_of (batch_data b) 0 = Some gw" using g by auto
  obtain buf e1 where ex: "execute_batch X b (last_exec_complete p) e = (batch_digest b, buf, e1)"
    using X by (metis honest_def prod.collapse)
  define pb where "pb = \<lparr>pb_batch_id = next_batch_id p, pb_batch = b, pb_gas_weight = gw, pb_delta_bytes = delta_bytes buf\<rparr>"
  obtain e2 where cm: "executor_commit_batch X pb e1 = (Inr (), e2)"
    using X by (metis honest_def prod.collapse)
  obtain cache where cache: "write_delta_pages (next_batch_id p) (into_delta_pages buf (next_batch_id p) (next_batch_id p)
      (deltapage_max_records (ep_cache_config p))) (ep_cache p) = Some cache" "l1_ok (tl_l1 cache)"
    using write_buffer_ok [OF c(2)] by blast
  let ?c0 = "ep_controller p"
  let ?c1 = "on_batch_exit Order gw (on_batch_exit Exec gw (on_batch_enter Exec gw (on_batch_enter Order gw ?c0)))"
  obtain c2 where c2: "drain_commit_stage X [pb] ?c1 e1 = ([], c2, e2)" "idle c2"
    using drain_single [OF idle_two_stages [OF c(1)] cm] by blast
  have push: "can_push ?c0 Order" "can_push (on_batch_enter Order gw ?c0) Exec"
    using idle_can_push [OF c(1)] by (simp_all add: can_push_iff)
  define p' where "p' = p\<lparr>next_batch_id := next_batch_id p + 1,
     ep_cache := mark_batch_complete (next_batch_id p) cache, last_exec_complete := next_batch_id p, ep_controller := c2\<rparr>"
  have "process_batch fuel X b (p, [], e) = Some (batch_digest b, p', [], e2)"
    using c2(1) cache(1) ex push
    by (simp add: process_batch_def alloc_batch_id_def PipelineBatch_new_def gw n with_delta_bytes_def pb_def p'_def)
  moreover have "l1_ok (tl_l1 (ep_cache p'))" "idle (ep_controller p')"
    using cache(2) c2(2) by (simp_all add: p'_def mark_batch_complete_def)
  ultimately show thesis using that by blast
qed

lemma process_loop_ok:
  assumes X: "honest X" and fuel: "0 < fuel"
    and c: "idle (ep_controller p)" "l1_ok (tl_l1 (ep_cache p))"
    and g: "\<forall>b\<in>set bs. gas_weight_of (batch_data b) 0 \<noteq> None"
  shows "\<exists>p' e'. process_loop fuel X bs (p, [], e) = Some (map batch_digest bs, p', [], e') \<and>
    idle (ep_controller p') \<and> l1_ok (tl_l1 (ep_cache p'))"
  using c g
proof (induction bs arbitrary: p e)
  case (Cons b bs)
  have "gas_weight_of (batch_data b) 0 \<noteq> None" using Cons.prems by simp
  from process_batch_ok [OF X Cons.prems(1, 2) this fuel]
  obtain p1 e1 where p1: "process_batch fuel X b (p, [], e) = Some (batch_digest b, p1, [], e1)"
    "idle (ep_controller p1)" "l1_ok (tl_l1 (ep_cache p1))" by blast
  obtain p2 e2 where "process_loop fuel X bs (p1, [], e1) = Some (map batch_digest bs, p2, [], e2)"
    "idle (ep_controller p2)" "l1_ok (tl_l1 (ep_cache p2))"
    using Cons.IH [OF p1(2, 3), of e1] Cons.prems(3) by auto
  with p1(1) show ?case by auto
qed simp

lemma flush_tables_total:
  assumes "lru_contract ops peek" "l1_ok (tl_l1 c)" "frozen_tables (tl_l1 c) = ts"
  shows "\<exists>r c'. flush_tables ops S ts n c = Some (r, c') \<and> l1_ok (tl_l1 c')"
  using assms(2-)
proof (induction ts arbitrary: n c)
  case (Cons t ts)
  let ?es = "pages_entries (mit_pages (tables (tl_l1 c) t))"
  note rem = remove_frozen_ok [OF Cons.prems]
  obtain r d where put: "put_batch S ?es (tl_db c) = (r, d)" by (cases "put_batch S ?es (tl_db c)")
  obtain l2 where l2: "l2_insert_batch ops ?es (tl_l2 c) = Some l2"
    using l2_insert_batch_ok [OF assms(1)] by blast
  have "is_frozen (tables (tl_l1 c) t)" using Cons.prems by (simp add: l1_ok_def)
  then obtain tab where drain: "drain_pages (tables (tl_l1 c) t) = Some (mit_pages (tables (tl_l1 c) t), tab)"
    by (simp add: drain_pages_def)
  let ?c1 = "c\<lparr>tl_l1 := remove_frozen_table t (tl_l1 c)\<rparr>"
  let ?c2 = "c\<lparr>tl_db := d, tl_l2 := l2,
    tl_l1 := remove_frozen_table t ((tl_l1 c)\<lparr>tables := (tables (tl_l1 c))(t := tab)\<rparr>)\<rparr>"
  have same: "(tl_l1 c)\<lparr>tables := (tables (tl_l1 c))(t := tables (tl_l1 c) t)\<rparr> = tl_l1 c" by simp
  note rem1 = rem [where tab = "tables (tl_l1 c) t", unfolded same]
  have "\<exists>r c'. flush_tables ops S ts n ?c1 = Some (r, c') \<and> l1_ok (tl_l1 c')"
    "\<exists>r c'. flush_tables ops S ts (n + length (mit_pages (tables (tl_l1 c) t))) ?c2 = Some (r, c') \<and> l1_ok (tl_l1 c')"
    using Cons.IH [of ?c1] Cons.IH [of ?c2] rem1 rem [of tab] by simp_all
  with put l2 drain Cons.prems(1) show ?case
    by (cases r) (auto simp: Let_def)
qed simp

lemma try_flush_total:
  assumes "lru_contract ops peek" "l1_ok (tl_l1 c)"
  shows "\<exists>r c'. try_flush_with_retry ops S n c = Some (r, c')"
proof -
  have "\<exists>r c'. flush_attempts ops S mx k e c = Some (r, c')" if "l1_ok (tl_l1 c)" for mx k e c
    using that
  proof (induction k arbitrary: e c)
    case (Suc k)
    obtain r c' where "flush_frozen_tables ops S c = Some (r, c')" "l1_ok (tl_l1 c')"
      using flush_tables_total [OF assms(1) Suc.prems refl] unfolding flush_frozen_tables_def by blast
    then show ?case using Suc.IH [of c'] by (cases r) auto
  qed simp
  then show ?thesis using assms(2) by (simp add: try_flush_with_retry_def)
qed

definition refusing :: "'e BatchExecutor \<Rightarrow> bool" where
  "refusing X \<longleftrightarrow> (\<forall>pb e. isl (fst (executor_commit_batch X pb e)))"

lemma drain_from_refusing: "refusing X \<Longrightarrow> fst (drain_from X i pending ctrl e) = pending"
proof (induction X i pending ctrl e rule: drain_from.induct)
  case (1 X i pending ctrl e)
  show ?case
  proof (cases "i < length pending \<and> can_push ctrl Commit")
    case True
    let ?b = "pending ! i"
    obtain err e' where cm: "executor_commit_batch X ?b e = (Inl err, e')"
      using 1(3) unfolding refusing_def by (metis isl_def prod.collapse)
    have "drain_from X i pending ctrl e = drain_from X (Suc i) pending
        (on_batch_exit Commit (pb_delta_bytes ?b) (on_batch_enter Commit (pb_delta_bytes ?b) ctrl)) e'"
      by (subst drain_from.simps) (use True in \<open>simp add: cm Let_def\<close>)
    moreover have "fst (drain_from X (Suc i) pending
        (on_batch_exit Commit (pb_delta_bytes ?b) (on_batch_enter Commit (pb_delta_bytes ?b) ctrl)) e') = pending"
      using 1(1) [of ?b "on_batch_enter Commit (pb_delta_bytes ?b) ctrl" "(Inl err, e')" "Inl err" e'
          "on_batch_exit Commit (pb_delta_bytes ?b) (on_batch_enter Commit (pb_delta_bytes ?b) ctrl)" err] True cm 1(3)
      by simp
    ultimately show ?thesis by simp
  next
    case False
    then show ?thesis by (subst drain_from.simps) auto
  qed
qed

lemma wait_window_refusing:
  "refusing X \<Longrightarrow> wait_window n X stage pending ctrl e = Some (pending', r) \<Longrightarrow> pending' = pending"
proof (induction n arbitrary: ctrl e)
  case (Suc n)
  then show ?case
    using drain_from_refusing [of X 0 pending ctrl e]
    by (auto simp: drain_commit_stage_def split: if_splits prod.splits)
qed simp

lemma drain_all_refusing: "refusing X \<Longrightarrow> pending \<noteq> [] \<Longrightarrow> drain_all n X pending ctrl e = None"
proof (induction n arbitrary: ctrl e)
  case (Suc n)
  then show ?case
    using drain_from_refusing [of X 0 pending ctrl e]
    by (auto simp: drain_commit_stage_def split: prod.splits)
qed simp

lemma drain_refusing_eq: "refusing X \<Longrightarrow> drain_commit_stage X q ctrl e = (q', r) \<Longrightarrow> q' = q"
  using drain_from_refusing [of X 0 q ctrl e] by (simp add: drain_commit_stage_def)

lemma process_batch_refusing:
  assumes X: "refusing X" and run: "process_batch fuel X b (p, pending, e) = Some (digest, p', pending', e')"
  shows "length pending' = Suc (length pending)"
proof -
  obtain pb q c1 e1 q2 c2 e2 buf e3 c3 where
    w1: "wait_window fuel X Order pending (ep_controller p) e = Some (q, c1, e1)"
    and w2: "wait_window fuel X Exec q (on_batch_enter Order (pb_gas_weight pb) c1) e1 = Some (q2, c2, e2)"
    and d: "drain_commit_stage X (q2 @ [with_delta_bytes (delta_bytes buf) pb]) c3 e3 = (pending', ep_controller p', e')"
    using run unfolding process_batch_def alloc_batch_id_def Let_def
    by (auto split: prod.splits bind_splits)
  show ?thesis
    using wait_window_refusing [OF X w1] wait_window_refusing [OF X w2] drain_refusing_eq [OF X d] by simp
qed

lemma process_loop_refusing:
  "refusing X \<Longrightarrow> process_loop fuel X bs (p, pending, e) = Some (ds, p', pending', e') \<Longrightarrow>
   length pending' = length bs + length pending"
proof (induction bs arbitrary: p pending e ds)
  case (Cons b bs)
  then obtain d p1 pending1 e1 ds1 where
    "process_batch fuel X b (p, pending, e) = Some (d, p1, pending1, e1)"
    "process_loop fuel X bs (p1, pending1, e1) = Some (ds1, p', pending', e')"
    by (auto split: bind_splits prod.splits)
  then show ?case using Cons.IH process_batch_refusing Cons.prems(1) by fastforce
qed simp

section \<open>Sample executors\<close>

definition good_executor :: "nat BatchExecutor" where
  "good_executor = \<lparr>execute_batch = (\<lambda>b v e. (batch_digest b, [], e)),
     executor_commit_batch = (\<lambda>pb e. (Inr (), Suc e))\<rparr>"

definition bad_executor :: "nat BatchExecutor" where
  "bad_executor = good_executor\<lparr>executor_commit_batch := (\<lambda>pb e. (Inl ''disk'', e))\<rparr>"

definition sample_batch :: "h256 \<Rightarrow> ExecutableEthereumBatch" where
  "sample_batch d = \<lparr>batch_digest = d, batch_data = [\<lparr>tt_sighash = 0, tt_from = None, tt_to = None, tt_value = None,
     tt_data = None, tt_gas = Some 21000, tt_nonce = None, tt_access_list = None\<rparr>]\<rparr>"

section \<open>Properties\<close>



text \<open>C32: With an executor that returns the digest of its batch and whose commits succeed, the sequential
  driver finishes on every list of batches whose gas limits are present, needs a single round in each
  of its waiting loops (any positive fuel), returns the digests in order and leaves the controller idle
  with open windows.\<close>

theorem process_batches_completes:
  assumes "honest X" and "0 < fuel" and "lru_contract ops peek"
    and "idle (ep_controller p)" and "l1_ok (tl_l1 (ep_cache p))"
    and "\<forall>b\<in>set batches. gas_weight_of (batch_data b) 0 \<noteq> None"
  shows "\<exists>p' e'. process_batches fuel ops S X batches p e = Some (map batch_digest batches, p', e') \<and>
    idle (ep_controller p')"
proof -
  obtain p1 e1 where p1: "process_loop fuel X batches (p, [], e) = Some (map batch_digest batches, p1, [], e1)"
    "idle (ep_controller p1)" "l1_ok (tl_l1 (ep_cache p1))"
    using process_loop_ok [OF assms(1, 2, 4, 5, 6)] by blast
  obtain r c where flush: "try_flush_with_retry ops S 3 (ep_cache p1) = Some (r, c)"
    using try_flush_total [OF assms(3) p1(3)] by blast
  have drain: "drain_all fuel X [] (ep_controller p1) e1 = Some (ep_controller p1, e1)"
    using assms(2) by (cases fuel) simp_all
  have "process_batches fuel ops S X batches p e
      = Some (map batch_digest batches, p1\<lparr>ep_controller := ep_controller p1, ep_cache := c\<rparr>, e1)"
    by (simp only: process_batches_def p1(1) drain flush Option.bind.bind_lunit prod.case)
  moreover have "idle (ep_controller (p1\<lparr>ep_controller := ep_controller p1, ep_cache := c\<rparr>))"
    using p1(2) by simp
  ultimately show ?thesis by blast
qed

theorem process_batches_completes_witness:
  "\<exists>p' e'. process_batches 1 list_lru RocksDbStateStore good_executor [sample_batch 7, sample_batch 8]
     (from_config list_lru PipelineConfig_default small_config empty_storage) 0 = Some ([7, 8], p', e') \<and>
     idle (ep_controller p')"
proof -
  have g: "\<forall>b\<in>set [sample_batch 7, sample_batch 8]. gas_weight_of (batch_data b) 0 \<noteq> None"
    by (simp add: sample_batch_def gas_limit_def)
  have "idle (ep_controller (from_config list_lru PipelineConfig_default small_config empty_storage))"
    "l1_ok (tl_l1 (ep_cache (from_config list_lru PipelineConfig_default small_config empty_storage)))"
    by (simp_all add: from_config_def idle_new TwoLevelCache_new_def)
  from process_batches_completes [OF _ _ list_lru_contract this g, of good_executor 1]
  show ?thesis by (simp add: honest_def good_executor_def sample_batch_def)
qed

text \<open>C33: When the executor refuses every commit, the sequential driver never returns, with any fuel: the
  final loop drains the pending batches again and again.\<close>

theorem process_batches_spins:
  assumes "refusing X" and "batches \<noteq> []"
  shows "process_batches fuel ops S X batches p e = None"
proof (cases "process_loop fuel X batches (p, [], e)")
  case (Some r)
  obtain ds p' pending e' where r: "r = (ds, p', pending, e')" by (cases r)
  have "pending \<noteq> []"
    using process_loop_refusing [OF assms(1) Some [unfolded r]] assms(2) by auto
  then show ?thesis
    using Some r drain_all_refusing [OF assms(1)] by (simp add: process_batches_def)
qed (simp add: process_batches_def)

theorem process_batches_spins_witness:
  "process_batches 100 list_lru RocksDbStateStore bad_executor [sample_batch 7]
     (from_config list_lru PipelineConfig_default small_config empty_storage) 0 = None"
  by (rule process_batches_spins) (simp_all add: refusing_def bad_executor_def)

end
