(* ===== verification/Pipeline_Bridge.thy ===== *)
theory Pipeline_Bridge
  imports Pipeline_Control
begin

text \<open>
  The concurrent three-stage pipeline of \<open>crates/sslab-execution/chase/src/executor/chase_bridge.rs\<close>
  and the adapter that feeds it (\<open>crates/sslab-execution/stack/src/adapter.rs\<close>).  The three tasks
  (the ordering loop of \<open>execute\<close>, \<open>exec_worker\<close>, \<open>commit_worker\<close>) and the channels between them are
  one state; each piece of a task between two points where it can wait is an event, so every
  interleaving of the tasks is a sequence of events.  The channels hold as many messages as there are
  batches and never block.  Executing a batch (\<open>execute_batch_with_effects\<close> over the backend overlay)
  is the parameter \<open>run\<close>; it returns the digests, the effects, the keys it read through the overlay
  and the new backend.  Elapsed times are arguments of the events.
\<close>

section \<open>From consensus output to batches\<close>

record ConsensusBatch =
  cb_digest :: BatchDigest
  cb_transactions :: "u8 list list"

text \<open>\<open>parse\<close> is \<open>EthereumTransaction::from_json\<close>; a transaction it rejects is skipped.\<close>

definition consensus_output_to_executable_batches ::
  "(u8 list \<Rightarrow> EthereumTransaction option) \<Rightarrow> ConsensusBatch list list \<Rightarrow> ExecutableEthereumBatch list" where
  "consensus_output_to_executable_batches parse groups =
     map (\<lambda>b. \<lparr>batch_digest = cb_digest b, batch_data = List.map_filter parse (cb_transactions b)\<rparr>) (concat groups)"

section \<open>State\<close>

record CommitWork =
  cw_batch_id :: u64
  cw_delta_bytes :: u64

datatype ExecPhase = ExecIdle | ExecReceived PipelineBatch | ExecRunning PipelineBatch

datatype CommitPhase = CommitIdle | CommitReceived CommitWork | CommitRunning CommitWork

record ('c, 'd, 'b) Bridge =
  br_pipeline :: "('c, 'd) EvBlpPipeline"
  br_visible :: u64
  br_metrics :: PipelineMetrics
  br_backend :: 'b
  br_batches :: "ExecutableEthereumBatch list"
  br_exec_q :: "PipelineBatch list"
  br_exec :: ExecPhase
  br_commit_q :: "CommitWork list"
  br_commit :: CommitPhase
  br_results :: "(u64 \<times> BatchDigest) list"

type_synonym ('c, 'd, 'b) batch_run =
  "('c, 'd) L1Visibility \<Rightarrow> ExecutableEthereumBatch \<Rightarrow> 'b \<Rightarrow> BatchDigest list \<times> Apply list \<times> Key list \<times> 'b"

definition metrics_new :: PipelineMetrics where
  "metrics_new = \<lparr>stage_stats = (\<lambda>_. \<lparr>batch_count = 0, total_us = 0, max_us = 0, stall_count = 0, stall_us = 0\<rparr>),
     samples = [], max_w_exec = 0, max_w_commit = 0\<rparr>"

definition bridge_start :: "('c, 'd) EvBlpPipeline \<Rightarrow> u64 \<Rightarrow> PipelineMetrics \<Rightarrow> 'b \<Rightarrow>
    ExecutableEthereumBatch list \<Rightarrow> ('c, 'd, 'b) Bridge" where
  "bridge_start p visible m backend batches = \<lparr>br_pipeline = p, br_visible = visible, br_metrics = m,
     br_backend = backend, br_batches = batches, br_exec_q = [], br_exec = ExecIdle, br_commit_q = [],
     br_commit = CommitIdle, br_results = []\<rparr>"

section \<open>Events\<close>

abbreviation br_ctrl :: "('c, 'd, 'b) Bridge \<Rightarrow> PipelineController" where
  "br_ctrl s \<equiv> ep_controller (br_pipeline s)"

definition set_ctrl :: "PipelineController \<Rightarrow> ('c, 'd, 'b) Bridge \<Rightarrow> ('c, 'd, 'b) Bridge" where
  "set_ctrl c s = s\<lparr>br_pipeline := (br_pipeline s)\<lparr>ep_controller := c\<rparr>\<rparr>"

definition record_peak :: "('c, 'd, 'b) Bridge \<Rightarrow> ('c, 'd, 'b) Bridge" where
  "record_peak s = s\<lparr>br_metrics :=
     record_backpressure_peak (weight (br_ctrl s) Exec) (weight (br_ctrl s) Commit) (br_metrics s)\<rparr>"

text \<open>The end of \<open>wait_can_push\<close>: \<open>stall\<close> is the time waited, if the loop slept at all.\<close>

definition wait_can_push :: "StageId \<Rightarrow> u64 option \<Rightarrow> ('c, 'd, 'b) Bridge \<Rightarrow> ('c, 'd, 'b) Bridge option" where
  "wait_can_push stage stall s =
     (if can_push (br_ctrl s) stage
      then Some (case stall of
                   None \<Rightarrow> s
                 | Some us \<Rightarrow> s\<lparr>br_metrics := metrics_record_stall stage us (br_metrics s)\<rparr>)
      else None)"

definition order_event :: "u64 option \<Rightarrow> u64 \<Rightarrow> ('c, 'd, 'b) Bridge \<Rightarrow> ('c, 'd, 'b) Bridge option" where
  "order_event stall us s =
     (case br_batches s of
        [] \<Rightarrow> None
      | b # bs \<Rightarrow> do {
          s \<leftarrow> wait_can_push Order stall s;
          let (batch_id, p) = alloc_batch_id (br_pipeline s);
          pb \<leftarrow> PipelineBatch_new batch_id b;
          let s = s\<lparr>br_pipeline := p, br_batches := bs\<rparr>;
          let s = set_ctrl (on_batch_enter Order (pb_gas_weight pb) (br_ctrl s)) s;
          let s = record_peak (s\<lparr>br_metrics := metrics_record_batch Order us (br_metrics s)\<rparr>);
          Some (s\<lparr>br_exec_q := br_exec_q s @ [pb]\<rparr>) })"

definition exec_receive :: "('c, 'd, 'b) Bridge \<Rightarrow> ('c, 'd, 'b) Bridge option" where
  "exec_receive s =
     (case (br_exec s, br_exec_q s) of
        (ExecIdle, pb # q) \<Rightarrow>
          Some (set_ctrl (on_batch_exit Order (pb_gas_weight pb) (br_ctrl s))
                 (s\<lparr>br_exec_q := q, br_exec := ExecReceived pb\<rparr>))
      | _ \<Rightarrow> None)"

definition exec_enter :: "u64 option \<Rightarrow> ('c, 'd, 'b) Bridge \<Rightarrow> ('c, 'd, 'b) Bridge option" where
  "exec_enter stall s =
     (case br_exec s of
        ExecReceived pb \<Rightarrow> do {
          s \<leftarrow> wait_can_push Exec stall s;
          let s = record_peak (set_ctrl (on_batch_enter Exec (pb_gas_weight pb) (br_ctrl s)) s);
          Some (s\<lparr>br_visible := last_exec_complete (br_pipeline s), br_exec := ExecRunning pb\<rparr>) }
      | _ \<Rightarrow> None)"

definition exec_finish :: "'c LruOps \<Rightarrow> 'd StateStore \<Rightarrow> ('c, 'd, 'b) batch_run \<Rightarrow> u64 \<Rightarrow>
    ('c, 'd, 'b) Bridge \<Rightarrow> ('c, 'd, 'b) Bridge option" where
  "exec_finish ops S run us s =
     (case br_exec s of
        ExecRunning pb \<Rightarrow> do {
          let batch_id = pb_batch_id pb;
          let p = br_pipeline s;
          let (digests, applies, reads, backend) =
            run \<lparr>vis_cache = ep_cache p, visible_batch = br_visible s\<rparr> (pb_batch pb) (br_backend s);
          let p = p\<lparr>ep_cache := fold (\<lambda>k c. snd (cache_read ops S k (br_visible s) c)) reads (ep_cache p)\<rparr>;
          let digest = (case digests of d # _ \<Rightarrow> d | [] \<Rightarrow> batch_digest (pb_batch pb));
          let buffer = applies_to_temp_buffer applies [];
          let delta = delta_bytes buffer;
          let pages = into_delta_pages buffer batch_id batch_id (deltapage_max_records (ep_cache_config p));
          p \<leftarrow> on_batch_exec_complete batch_id pages p;
          let s = s\<lparr>br_pipeline := p, br_backend := backend, br_visible := batch_id\<rparr>;
          let s = set_ctrl (on_batch_exit Exec (pb_gas_weight pb) (br_ctrl s)) s;
          let s = s\<lparr>br_metrics :=
            record_workload (pb_gas_weight pb) delta (metrics_record_batch Exec us (br_metrics s))\<rparr>;
          let s = record_peak s;
          Some (s\<lparr>br_exec := ExecIdle, br_results := br_results s @ [(batch_id, digest)],
                  br_commit_q := br_commit_q s @ [\<lparr>cw_batch_id = batch_id, cw_delta_bytes = delta\<rparr>]\<rparr>) }
      | _ \<Rightarrow> None)"

definition commit_receive :: "('c, 'd, 'b) Bridge \<Rightarrow> ('c, 'd, 'b) Bridge option" where
  "commit_receive s =
     (case (br_commit s, br_commit_q s) of
        (CommitIdle, cw # q) \<Rightarrow> Some (s\<lparr>br_commit_q := q, br_commit := CommitReceived cw\<rparr>)
      | _ \<Rightarrow> None)"

definition commit_enter :: "u64 option \<Rightarrow> ('c, 'd, 'b) Bridge \<Rightarrow> ('c, 'd, 'b) Bridge option" where
  "commit_enter stall s =
     (case br_commit s of
        CommitReceived cw \<Rightarrow> do {
          s \<leftarrow> wait_can_push Commit stall s;
          let s = record_peak (set_ctrl (on_batch_enter Commit (cw_delta_bytes cw) (br_ctrl s)) s);
          Some (s\<lparr>br_commit := CommitRunning cw\<rparr>) }
      | _ \<Rightarrow> None)"

definition commit_finish :: "'c LruOps \<Rightarrow> 'd StateStore \<Rightarrow> u64 \<Rightarrow>
    ('c, 'd, 'b) Bridge \<Rightarrow> ('c, 'd, 'b) Bridge option" where
  "commit_finish ops S us s =
     (case br_commit s of
        CommitRunning cw \<Rightarrow> do {
          (r, cache) \<leftarrow> commit_batch ops S (cw_batch_id cw) (ep_cache (br_pipeline s));
          let s = s\<lparr>br_pipeline := (br_pipeline s)\<lparr>ep_cache := cache\<rparr>\<rparr>;
          let s = set_ctrl (on_batch_exit Commit (cw_delta_bytes cw) (br_ctrl s)) s;
          let s = record_peak (s\<lparr>br_metrics := metrics_record_batch Commit us (br_metrics s)\<rparr>);
          Some (s\<lparr>br_commit := CommitIdle\<rparr>) }
      | _ \<Rightarrow> None)"

datatype BridgeEvent =
    EvOrder "u64 option" u64
  | EvReceive
  | EvEnter "u64 option"
  | EvFinish u64
  | EvCommitReceive
  | EvCommitEnter "u64 option"
  | EvCommitFinish u64

fun bridge_event :: "'c LruOps \<Rightarrow> 'd StateStore \<Rightarrow> ('c, 'd, 'b) batch_run \<Rightarrow> BridgeEvent \<Rightarrow>
    ('c, 'd, 'b) Bridge \<Rightarrow> ('c, 'd, 'b) Bridge option" where
  "bridge_event ops S run (EvOrder stall us) s = order_event stall us s"
| "bridge_event ops S run EvReceive s = exec_receive s"
| "bridge_event ops S run (EvEnter stall) s = exec_enter stall s"
| "bridge_event ops S run (EvFinish us) s = exec_finish ops S run us s"
| "bridge_event ops S run EvCommitReceive s = commit_receive s"
| "bridge_event ops S run (EvCommitEnter stall) s = commit_enter stall s"
| "bridge_event ops S run (EvCommitFinish us) s = commit_finish ops S us s"

fun run_events :: "'c LruOps \<Rightarrow> 'd StateStore \<Rightarrow> ('c, 'd, 'b) batch_run \<Rightarrow> BridgeEvent list \<Rightarrow>
    ('c, 'd, 'b) Bridge \<Rightarrow> ('c, 'd, 'b) Bridge option" where
  "run_events ops S run [] s = Some s"
| "run_events ops S run (ev # evs) s = do { s' \<leftarrow> bridge_event ops S run ev s; run_events ops S run evs s' }"

definition bridge_done :: "('c, 'd, 'b) Bridge \<Rightarrow> bool" where
  "bridge_done s \<longleftrightarrow> br_batches s = [] \<and> br_exec_q s = [] \<and> br_exec s = ExecIdle \<and>
     br_commit_q s = [] \<and> br_commit s = CommitIdle"

text \<open>The end of \<open>execute\<close>, once the three tasks have ended: order the results, flush L1.\<close>

definition bridge_finish :: "'c LruOps \<Rightarrow> 'd StateStore \<Rightarrow> ('c, 'd, 'b) Bridge \<Rightarrow>
    (BatchDigest list \<times> ('c, 'd) EvBlpPipeline \<times> LambdaRecommendation) option" where
  "bridge_finish ops S s = do {
     let results = sort_key fst (br_results s);
     let p = br_pipeline s;
     (r, cache) \<leftarrow> try_flush_with_retry ops S 3 (ep_cache p);
     Some (map snd results, p\<lparr>ep_cache := cache\<rparr>,
           recommend_lambdas (samples (br_metrics s)) (zeta_max (ep_controller p))) }"

section \<open>What an event changes\<close>

lemma set_ctrl_fields [simp]:
  "br_pipeline (set_ctrl c s) = (br_pipeline s)\<lparr>ep_controller := c\<rparr>"
  "br_visible (set_ctrl c s) = br_visible s" "br_metrics (set_ctrl c s) = br_metrics s"
  "br_backend (set_ctrl c s) = br_backend s" "br_batches (set_ctrl c s) = br_batches s"
  "br_exec_q (set_ctrl c s) = br_exec_q s" "br_exec (set_ctrl c s) = br_exec s"
  "br_commit_q (set_ctrl c s) = br_commit_q s" "br_commit (set_ctrl c s) = br_commit s"
  "br_results (set_ctrl c s) = br_results s"
  by (simp_all add: set_ctrl_def)

lemma record_peak_fields [simp]:
  "br_pipeline (record_peak s) = br_pipeline s" "br_visible (record_peak s) = br_visible s"
  "br_backend (record_peak s) = br_backend s" "br_batches (record_peak s) = br_batches s"
  "br_exec_q (record_peak s) = br_exec_q s" "br_exec (record_peak s) = br_exec s"
  "br_commit_q (record_peak s) = br_commit_q s" "br_commit (record_peak s) = br_commit s"
  "br_results (record_peak s) = br_results s"
  by (simp_all add: record_peak_def)

lemma wait_can_pushE:
  assumes "wait_can_push stage stall s = Some s'"
  obtains m where "can_push (br_ctrl s) stage" "s' = s\<lparr>br_metrics := m\<rparr>"
proof (rule that)
  show "can_push (br_ctrl s) stage" using assms by (simp add: wait_can_push_def split: if_splits)
  show "s' = s\<lparr>br_metrics := br_metrics s'\<rparr>"
    using assms by (auto simp: wait_can_push_def split: if_splits option.splits)
qed

lemma wait_can_push_enabled: "can_push (br_ctrl s) stage \<Longrightarrow> wait_can_push stage None s = Some s"
  by (simp add: wait_can_push_def)

text \<open>The part of the state that control flow depends on, and the pipeline.\<close>

lemma order_eventE:
  assumes "order_event stall us s = Some s'"
  obtains b bs pb where "br_batches s = b # bs" "can_push (br_ctrl s) Order"
    "PipelineBatch_new (next_batch_id (br_pipeline s)) b = Some pb"
    "br_pipeline s' = (br_pipeline s)\<lparr>next_batch_id := next_batch_id (br_pipeline s) + 1,
       ep_controller := on_batch_enter Order (pb_gas_weight pb) (br_ctrl s)\<rparr>"
    "br_batches s' = bs" "br_exec_q s' = br_exec_q s @ [pb]" "br_exec s' = br_exec s"
    "br_commit_q s' = br_commit_q s" "br_commit s' = br_commit s" "br_results s' = br_results s"
  using assms
  by (fastforce simp: order_event_def alloc_batch_id_def split: list.splits bind_splits elim!: wait_can_pushE)

lemma exec_receiveE:
  assumes "exec_receive s = Some s'"
  obtains pb q where "br_exec s = ExecIdle" "br_exec_q s = pb # q"
    "br_pipeline s' = (br_pipeline s)\<lparr>ep_controller := on_batch_exit Order (pb_gas_weight pb) (br_ctrl s)\<rparr>"
    "br_batches s' = br_batches s" "br_exec_q s' = q" "br_exec s' = ExecReceived pb"
    "br_commit_q s' = br_commit_q s" "br_commit s' = br_commit s" "br_results s' = br_results s"
  using assms
  by (auto simp: exec_receive_def split: list.splits ExecPhase.splits)

lemma exec_enterE:
  assumes "exec_enter stall s = Some s'"
  obtains pb where "br_exec s = ExecReceived pb" "can_push (br_ctrl s) Exec"
    "br_pipeline s' = (br_pipeline s)\<lparr>ep_controller := on_batch_enter Exec (pb_gas_weight pb) (br_ctrl s)\<rparr>"
    "br_batches s' = br_batches s" "br_exec_q s' = br_exec_q s" "br_exec s' = ExecRunning pb"
    "br_commit_q s' = br_commit_q s" "br_commit s' = br_commit s" "br_results s' = br_results s"
  using assms
  by (fastforce simp: exec_enter_def split: ExecPhase.splits bind_splits elim!: wait_can_pushE)

lemma commit_receiveE:
  assumes "commit_receive s = Some s'"
  obtains cw q where "br_commit s = CommitIdle" "br_commit_q s = cw # q"
    "br_pipeline s' = br_pipeline s"
    "br_batches s' = br_batches s" "br_exec_q s' = br_exec_q s" "br_exec s' = br_exec s"
    "br_commit_q s' = q" "br_commit s' = CommitReceived cw" "br_results s' = br_results s"
  using assms
  by (auto simp: commit_receive_def split: list.splits CommitPhase.splits)

lemma commit_enterE:
  assumes "commit_enter stall s = Some s'"
  obtains cw where "br_commit s = CommitReceived cw" "can_push (br_ctrl s) Commit"
    "br_pipeline s' = (br_pipeline s)\<lparr>ep_controller := on_batch_enter Commit (cw_delta_bytes cw) (br_ctrl s)\<rparr>"
    "br_batches s' = br_batches s" "br_exec_q s' = br_exec_q s" "br_exec s' = br_exec s"
    "br_commit_q s' = br_commit_q s" "br_commit s' = CommitRunning cw" "br_results s' = br_results s"
  using assms
  by (fastforce simp: commit_enter_def split: CommitPhase.splits bind_splits elim!: wait_can_pushE)

lemma commit_finishE:
  assumes "commit_finish ops S us s = Some s'"
  obtains cw r cache where "br_commit s = CommitRunning cw"
    "commit_batch ops S (cw_batch_id cw) (ep_cache (br_pipeline s)) = Some (r, cache)"
    "br_pipeline s' = (br_pipeline s)\<lparr>ep_cache := cache,
       ep_controller := on_batch_exit Commit (cw_delta_bytes cw) (br_ctrl s)\<rparr>"
    "br_batches s' = br_batches s" "br_exec_q s' = br_exec_q s" "br_exec s' = br_exec s"
    "br_commit_q s' = br_commit_q s" "br_commit s' = CommitIdle" "br_results s' = br_results s"
  using assms
  by (auto simp: commit_finish_def Let_def split: CommitPhase.splits bind_splits prod.splits)

text \<open>What a run of a batch returns, and the cache after its overlay reads.\<close>

definition batch_applies :: "('c, 'd, 'b) batch_run \<Rightarrow> ('c, 'd) L1Visibility \<Rightarrow> ExecutableEthereumBatch \<Rightarrow> 'b \<Rightarrow> Apply list" where
  "batch_applies run vis b st = fst (snd (run vis b st))"

definition reads_cache :: "'c LruOps \<Rightarrow> 'd StateStore \<Rightarrow> Key list \<Rightarrow> u64 \<Rightarrow> ('c, 'd) TwoLevelCache \<Rightarrow> ('c, 'd) TwoLevelCache" where
  "reads_cache ops S ks v c = fold (\<lambda>k c. snd (cache_read ops S k v c)) ks c"

lemma reads_cache_l1 [simp]: "tl_l1 (reads_cache ops S ks v c) = tl_l1 c"
proof -
  have "tl_l1 (snd (cache_read ops S k v c)) = tl_l1 c" for k c
    by (simp add: cache_read_def l2_get_def split: option.split prod.split)
  then show ?thesis unfolding reads_cache_def by (induction ks arbitrary: c) simp_all
qed

lemma exec_finishE:
  assumes "exec_finish ops S run us s = Some s'"
  obtains pb digests applies reads backend cache digest where
    "br_exec s = ExecRunning pb"
    "run \<lparr>vis_cache = ep_cache (br_pipeline s), visible_batch = br_visible s\<rparr> (pb_batch pb) (br_backend s)
       = (digests, applies, reads, backend)"
    "digest = (case digests of d # _ \<Rightarrow> d | [] \<Rightarrow> batch_digest (pb_batch pb))"
    "write_delta_pages (pb_batch_id pb) (into_delta_pages (applies_to_temp_buffer applies []) (pb_batch_id pb) (pb_batch_id pb)
       (deltapage_max_records (ep_cache_config (br_pipeline s)))) (reads_cache ops S reads (br_visible s) (ep_cache (br_pipeline s)))
       = Some cache"
    "br_pipeline s' = (br_pipeline s)\<lparr>ep_cache := mark_batch_complete (pb_batch_id pb) cache,
       last_exec_complete := pb_batch_id pb,
       ep_controller := on_batch_exit Exec (pb_gas_weight pb) (br_ctrl s)\<rparr>"
    "br_batches s' = br_batches s" "br_exec_q s' = br_exec_q s" "br_exec s' = ExecIdle"
    "br_commit_q s' = br_commit_q s @ [\<lparr>cw_batch_id = pb_batch_id pb, cw_delta_bytes = delta_bytes (applies_to_temp_buffer applies [])\<rparr>]"
    "br_commit s' = br_commit s" "br_results s' = br_results s @ [(pb_batch_id pb, digest)]"
  using assms
  unfolding exec_finish_def reads_cache_def [symmetric] on_batch_exec_complete_def Let_def
  by (fastforce split: ExecPhase.splits bind_splits prod.splits)

lemmas event_elims = order_eventE exec_receiveE exec_enterE commit_receiveE commit_enterE commit_finishE

section \<open>Termination\<close>

fun exec_work :: "ExecPhase \<Rightarrow> nat" where
  "exec_work ExecIdle = 0"
| "exec_work (ExecReceived pb) = 5"
| "exec_work (ExecRunning pb) = 4"

fun commit_work :: "CommitPhase \<Rightarrow> nat" where
  "commit_work CommitIdle = 0"
| "commit_work (CommitReceived cw) = 2"
| "commit_work (CommitRunning cw) = 1"

definition work :: "('c, 'd, 'b) Bridge \<Rightarrow> nat" where
  "work s = 7 * length (br_batches s) + 6 * length (br_exec_q s) + exec_work (br_exec s)
     + 3 * length (br_commit_q s) + commit_work (br_commit s)"

lemma bridge_event_work: "bridge_event ops S run ev s = Some s' \<Longrightarrow> work s = Suc (work s')"
proof (cases ev)
  case (EvFinish us)
  assume "bridge_event ops S run ev s = Some s'"
  with EvFinish have "exec_finish ops S run us s = Some s'" by simp
  then show ?thesis by (rule exec_finishE) (simp add: work_def)
qed (auto simp: work_def elim: event_elims)

lemma run_events_work: "run_events ops S run evs s = Some s' \<Longrightarrow> work s = length evs + work s'"
proof (induction evs arbitrary: s)
  case (Cons ev evs)
  then obtain s1 where "bridge_event ops S run ev s = Some s1" "run_events ops S run evs s1 = Some s'"
    by (auto split: bind_splits)
  then show ?case using Cons.IH bridge_event_work by fastforce
qed simp

section \<open>Progress\<close>

definition running :: "ExecPhase \<Rightarrow> u32 \<times> u64" where
  "running ph = (case ph of ExecRunning pb \<Rightarrow> (1, pb_gas_weight pb) | _ \<Rightarrow> (0, 0))"

definition committing :: "CommitPhase \<Rightarrow> u32 \<times> u64" where
  "committing ph = (case ph of CommitRunning cw \<Rightarrow> (1, cw_delta_bytes cw) | _ \<Rightarrow> (0, 0))"

fun commit_jobs :: "CommitPhase \<Rightarrow> CommitWork list" where
  "commit_jobs CommitIdle = []"
| "commit_jobs (CommitReceived cw) = [cw]"
| "commit_jobs (CommitRunning cw) = [cw]"

text \<open>The counters of the controller describe the tasks, and all windows are open.\<close>

definition ctrl_ok :: "u64 \<Rightarrow> PipelineController \<Rightarrow> nat \<Rightarrow> ExecPhase \<Rightarrow> CommitPhase \<Rightarrow> bool" where
  "ctrl_ok lam c queued ex co \<longleftrightarrow>
     in_flight c Order = of_nat queued \<and>
     (in_flight c Exec, weight c Exec) = running ex \<and>
     (in_flight c Commit, weight c Commit) = committing co \<and>
     (\<forall>s. zeta c s \<noteq> 0) \<and> zeta_max c \<noteq> 0 \<and> lambda c Commit = lam"

definition bridge_ok :: "u64 \<Rightarrow> ('c, 'd, 'b) Bridge \<Rightarrow> bool" where
  "bridge_ok lam s \<longleftrightarrow>
     ctrl_ok lam (br_ctrl s) (length (br_exec_q s)) (br_exec s) (br_commit s) \<and>
     length (br_exec_q s) + length (br_batches s) < 2 ^ 32 \<and>
     (\<forall>cw\<in>set (commit_jobs (br_commit s) @ br_commit_q s). cw_delta_bytes cw < lam) \<and>
     (\<forall>b\<in>set (br_batches s). gas_weight_of (batch_data b) 0 \<noteq> None) \<and>
     l1_ok (tl_l1 (ep_cache (br_pipeline s)))"

lemma saturating_sub_of_nat: "k < 2 ^ 32 - 1 \<Longrightarrow> saturating_sub (1 + of_nat k :: u32) 1 = of_nat k"
proof -
  assume k: "k < 2 ^ 32 - 1"
  have "unat (of_nat (Suc k) :: u32) = Suc k" using k by (simp only: unat_of_nat) simp
  moreover have "unat (of_nat k :: u32) = k" using k by (simp only: unat_of_nat) simp
  ultimately show ?thesis by (simp add: word_unat_eq_iff rust_arith)
qed

lemma zeta_exit_other: "next_stage t \<noteq> None \<Longrightarrow> s \<noteq> t \<Longrightarrow> zeta (on_batch_exit t n c) s = zeta c s"
  by (cases t) (simp_all add: on_batch_exit_def tick_def Let_def)

lemma zeta_exit_open:
  assumes "\<forall>s. zeta c s \<noteq> 0" "zeta_max c \<noteq> 0"
    and "\<And>nxt. next_stage t = Some nxt \<Longrightarrow> weight c nxt = 0 \<or> weight c nxt < lambda c nxt"
  shows "zeta (on_batch_exit t n c) s \<noteq> 0"
proof -
  have "saturating_add x 1 \<noteq> 0" for x :: u32
    by (simp add: word_unat_eq_iff rust_arith)
  then show ?thesis
    using assms by (cases t; cases s) (auto simp: on_batch_exit_def tick_def Let_def min_def)
qed

lemma ctrl_ok_exit_open:
  "ctrl_ok lam c q ex co \<Longrightarrow> \<forall>nxt. next_stage t = Some nxt \<longrightarrow> weight c nxt = 0 \<or> weight c nxt < lambda c nxt \<Longrightarrow>
   \<forall>s. zeta (on_batch_exit t n c) s \<noteq> 0"
  by (intro allI zeta_exit_open) (simp_all add: ctrl_ok_def)

lemma ctrl_ok_order:
  "ctrl_ok lam c q ex co \<Longrightarrow> ctrl_ok lam (on_batch_enter Order n c) (Suc q) ex co"
  by (simp add: ctrl_ok_def add.commute)

lemma ctrl_ok_receive:
  "ctrl_ok lam c (Suc q) ExecIdle co \<Longrightarrow> q < 2 ^ 32 - 1 \<Longrightarrow>
   ctrl_ok lam (on_batch_exit Order n c) q (ExecReceived pb) co"
  using ctrl_ok_exit_open [of lam c "Suc q" ExecIdle co Order n]
  by (simp add: ctrl_ok_def running_def saturating_sub_of_nat)

lemma ctrl_ok_enter:
  "ctrl_ok lam c q (ExecReceived pb) co \<Longrightarrow>
   ctrl_ok lam (on_batch_enter Exec (pb_gas_weight pb) c) q (ExecRunning pb) co"
  by (simp add: ctrl_ok_def running_def)

lemma ctrl_ok_finish:
  "ctrl_ok lam c q (ExecRunning pb) co \<Longrightarrow> \<forall>cw\<in>set (commit_jobs co). cw_delta_bytes cw < lam \<Longrightarrow>
   ctrl_ok lam (on_batch_exit Exec (pb_gas_weight pb) c) q ExecIdle co"
  using ctrl_ok_exit_open [of lam c q "ExecRunning pb" co Exec "pb_gas_weight pb"]
  by (cases co) (simp_all add: ctrl_ok_def running_def committing_def)

lemma ctrl_ok_commit_enter:
  "ctrl_ok lam c q ex (CommitReceived cw) \<Longrightarrow>
   ctrl_ok lam (on_batch_enter Commit (cw_delta_bytes cw) c) q ex (CommitRunning cw)"
  by (simp add: ctrl_ok_def committing_def)

lemma ctrl_ok_commit_exit:
  "ctrl_ok lam c q ex (CommitRunning cw) \<Longrightarrow>
   ctrl_ok lam (on_batch_exit Commit (cw_delta_bytes cw) c) q ex CommitIdle"
  using ctrl_ok_exit_open [of lam c q ex "CommitRunning cw" Commit "cw_delta_bytes cw"]
  by (simp add: ctrl_ok_def committing_def)

lemma ctrl_ok_commit_receive:
  "ctrl_ok lam c q ex CommitIdle \<Longrightarrow> ctrl_ok lam c q ex (CommitReceived cw)"
  by (simp add: ctrl_ok_def committing_def)

lemma ctrl_ok_can_push:
  "ctrl_ok lam c 0 ex co \<Longrightarrow> can_push c Order"
  "ctrl_ok lam c q (ExecReceived pb) co \<Longrightarrow> can_push c Exec"
  "ctrl_ok lam c q ex (CommitReceived cw) \<Longrightarrow> can_push c Commit"
  by (simp_all add: ctrl_ok_def can_push_iff running_def committing_def word_neq_0_conv)

text \<open>The effects of every batch stay below the commit threshold.\<close>

definition small_deltas :: "u64 \<Rightarrow> ('c, 'd, 'b) batch_run \<Rightarrow> bool" where
  "small_deltas lam run \<longleftrightarrow>
     (\<forall>vis b st. delta_bytes (applies_to_temp_buffer (batch_applies run vis b st) []) < lam)"

lemma commit_batch_l1: "commit_batch ops S b c = Some (r, c') \<Longrightarrow> tl_l1 c' = tl_l1 c"
  by (auto simp: commit_batch_def Let_def split: if_splits prod.splits sum.splits bind_splits)

lemma commit_batch_total:
  assumes "lru_contract ops peek"
  shows "\<exists>r c'. commit_batch ops S b c = Some (r, c')"
proof -
  define es where "es = pages_entries (case pending_batch_pages c b of Some ps \<Rightarrow> ps | None \<Rightarrow> [])"
  obtain l2 where "l2_insert_batch ops es (tl_l2 c) = Some l2"
    using l2_insert_batch_ok [OF assms] by blast
  moreover obtain r d where "put_batch S es (tl_db c) = (r, d)" by (cases "put_batch S es (tl_db c)")
  ultimately show ?thesis
    unfolding commit_batch_def Let_def es_def [symmetric] by (cases r) auto
qed

lemma bridge_event_ok:
  assumes small: "small_deltas lam run" and ok: "bridge_ok lam s" and ev: "bridge_event ops S run ev s = Some s'"
  shows "bridge_ok lam s'"
proof (cases ev)
  case (EvOrder stall us)
  with ev have "order_event stall us s = Some s'" by simp
  then show ?thesis
    by (rule order_eventE) (use ok in \<open>auto simp: bridge_ok_def intro: ctrl_ok_order\<close>)
next
  case EvReceive
  with ev have "exec_receive s = Some s'" by simp
  then show ?thesis
    by (rule exec_receiveE) (use ok in \<open>auto simp: bridge_ok_def intro: ctrl_ok_receive\<close>)
next
  case (EvEnter stall)
  with ev have "exec_enter stall s = Some s'" by simp
  then show ?thesis
    by (rule exec_enterE) (use ok in \<open>auto simp: bridge_ok_def intro: ctrl_ok_enter\<close>)
next
  case (EvFinish us)
  with ev have "exec_finish ops S run us s = Some s'" by simp
  then show ?thesis
  proof (rule exec_finishE)
    fix pb digests applies reads backend cache digest
    let ?vis = "\<lparr>vis_cache = ep_cache (br_pipeline s), visible_batch = br_visible s\<rparr>"
    let ?buf = "applies_to_temp_buffer applies []"
    assume run: "br_exec s = ExecRunning pb" "run ?vis (pb_batch pb) (br_backend s) = (digests, applies, reads, backend)"
      and cache: "write_delta_pages (pb_batch_id pb) (into_delta_pages ?buf (pb_batch_id pb) (pb_batch_id pb)
          (deltapage_max_records (ep_cache_config (br_pipeline s)))) (reads_cache ops S reads (br_visible s) (ep_cache (br_pipeline s)))
          = Some cache"
      and p: "br_pipeline s' = (br_pipeline s)\<lparr>ep_cache := mark_batch_complete (pb_batch_id pb) cache,
          last_exec_complete := pb_batch_id pb, ep_controller := on_batch_exit Exec (pb_gas_weight pb) (br_ctrl s)\<rparr>"
      and rest: "br_batches s' = br_batches s" "br_exec_q s' = br_exec_q s" "br_exec s' = ExecIdle"
        "br_commit_q s' = br_commit_q s @ [\<lparr>cw_batch_id = pb_batch_id pb, cw_delta_bytes = delta_bytes ?buf\<rparr>]"
        "br_commit s' = br_commit s"
    have "batch_applies run ?vis (pb_batch pb) (br_backend s) = applies"
      using run(2) by (simp add: batch_applies_def)
    then have d: "delta_bytes ?buf < lam"
      using small unfolding small_deltas_def by metis
    have "l1_ok (tl_l1 (reads_cache ops S reads (br_visible s) (ep_cache (br_pipeline s))))"
      using ok by (simp add: bridge_ok_def)
    then have "l1_ok (tl_l1 cache)"
      using cache write_buffer_ok by (metis option.inject)
    then show ?thesis
      using ok run(1) p rest d ctrl_ok_finish [of lam "br_ctrl s" _ pb "br_commit s"]
      by (simp add: bridge_ok_def mark_batch_complete_def)
  qed
next
  case EvCommitReceive
  with ev have "commit_receive s = Some s'" by simp
  then show ?thesis
    by (rule commit_receiveE) (use ok in \<open>auto simp: bridge_ok_def intro: ctrl_ok_commit_receive\<close>)
next
  case (EvCommitEnter stall)
  with ev have "commit_enter stall s = Some s'" by simp
  then show ?thesis
    by (rule commit_enterE) (use ok in \<open>auto simp: bridge_ok_def intro: ctrl_ok_commit_enter\<close>)
next
  case (EvCommitFinish us)
  with ev have "commit_finish ops S us s = Some s'" by simp
  then show ?thesis
    by (rule commit_finishE) (use ok in \<open>auto simp: bridge_ok_def commit_batch_l1 intro: ctrl_ok_commit_exit\<close>)
qed

lemma run_events_ok:
  "small_deltas lam run \<Longrightarrow> bridge_ok lam s \<Longrightarrow> run_events ops S run evs s = Some s' \<Longrightarrow> bridge_ok lam s'"
proof (induction evs arbitrary: s)
  case (Cons ev evs)
  then obtain s1 where s1: "bridge_event ops S run ev s = Some s1" "run_events ops S run evs s1 = Some s'"
    by (auto split: bind_splits)
  then show ?case using Cons.IH [OF Cons.prems(1) bridge_event_ok [OF Cons.prems(1, 2) s1(1)]] by simp
qed simp

lemma bridge_progress:
  assumes lru: "lru_contract ops peek" and ok: "bridge_ok lam s" and "\<not> bridge_done s"
  shows "\<exists>ev s'. bridge_event ops S run ev s = Some s'"
proof (cases "br_exec s")
  case (ExecRunning pb)
  let ?vis = "\<lparr>vis_cache = ep_cache (br_pipeline s), visible_batch = br_visible s\<rparr>"
  obtain digests applies reads backend where r: "run ?vis (pb_batch pb) (br_backend s) = (digests, applies, reads, backend)"
    by (cases "run ?vis (pb_batch pb) (br_backend s)")
  have "l1_ok (tl_l1 (reads_cache ops S reads (br_visible s) (ep_cache (br_pipeline s))))"
    using ok by (simp add: bridge_ok_def)
  from write_buffer_ok [OF this] obtain cache where
    "write_delta_pages (pb_batch_id pb) (into_delta_pages (applies_to_temp_buffer applies []) (pb_batch_id pb) (pb_batch_id pb)
      (deltapage_max_records (ep_cache_config (br_pipeline s)))) (reads_cache ops S reads (br_visible s) (ep_cache (br_pipeline s)))
      = Some cache" by blast
  then have "\<exists>s'. exec_finish ops S run 0 s = Some s'"
    unfolding exec_finish_def reads_cache_def [symmetric] on_batch_exec_complete_def
    by (simp add: ExecRunning r Let_def)
  then show ?thesis by (metis bridge_event.simps(4))
next
  case (ExecReceived pb)
  then have "can_push (br_ctrl s) Exec"
    using ok unfolding bridge_ok_def by (metis ctrl_ok_can_push(2))
  then have "\<exists>s'. exec_enter None s = Some s'"
    by (simp add: exec_enter_def ExecReceived wait_can_push_enabled)
  then show ?thesis by (metis bridge_event.simps(3))
next
  case ExecIdle
  note idle = this
  show ?thesis
  proof (cases "br_exec_q s")
    case (Cons pb q)
    then have "\<exists>s'. exec_receive s = Some s'" by (simp add: exec_receive_def idle)
    then show ?thesis by (metis bridge_event.simps(2))
  next
    case Nil
    show ?thesis
    proof (cases "br_batches s")
      case (Cons b bs)
      have "can_push (br_ctrl s) Order"
        using ok Nil unfolding bridge_ok_def by (metis ctrl_ok_can_push(1) list.size(3))
      moreover have "gas_weight_of (batch_data b) 0 \<noteq> None" using ok Cons by (simp add: bridge_ok_def)
      ultimately have "\<exists>s'. order_event None 0 s = Some s'"
        by (auto simp: order_event_def Cons wait_can_push_enabled alloc_batch_id_def PipelineBatch_new_def)
      then show ?thesis by (metis bridge_event.simps(1))
    next
      case no_batches: Nil
      show ?thesis
      proof (cases "br_commit s")
        case (CommitRunning cw)
        have "\<exists>s'. commit_finish ops S 0 s = Some s'"
          using commit_batch_total [OF lru, of S "cw_batch_id cw" "ep_cache (br_pipeline s)"]
          by (auto simp: commit_finish_def CommitRunning)
        then show ?thesis by (metis bridge_event.simps(7))
      next
        case (CommitReceived cw)
        then have "can_push (br_ctrl s) Commit"
          using ok unfolding bridge_ok_def by (metis ctrl_ok_can_push(3))
        then have "\<exists>s'. commit_enter None s = Some s'"
          by (simp add: commit_enter_def CommitReceived wait_can_push_enabled)
        then show ?thesis by (metis bridge_event.simps(6))
      next
        case CommitIdle
        then have "br_commit_q s \<noteq> []" using assms(3) idle Nil no_batches by (simp add: bridge_done_def)
        then have "\<exists>s'. commit_receive s = Some s'"
          by (cases "br_commit_q s") (simp_all add: commit_receive_def CommitIdle)
        then show ?thesis by (metis bridge_event.simps(5))
      qed
    qed
  qed
qed

section \<open>Order of the results\<close>

fun exec_jobs :: "ExecPhase \<Rightarrow> PipelineBatch list" where
  "exec_jobs ExecIdle = []"
| "exec_jobs (ExecReceived pb) = [pb]"
| "exec_jobs (ExecRunning pb) = [pb]"

definition ids_from :: "u64 \<Rightarrow> nat \<Rightarrow> nat \<Rightarrow> u64 list" where
  "ids_from i m n = map (\<lambda>k. i + of_nat k) [m..<m + n]"

lemma ids_from_simps:
  "ids_from i m 0 = []"
  "ids_from i m (Suc n) = (i + of_nat m) # ids_from i (Suc m) n"
  "ids_from i m (Suc n) = ids_from i m n @ [i + of_nat (m + n)]"
  unfolding ids_from_def by (simp, simp add: upt_conv_Cons del: upt_Suc, simp)

lemma length_ids_from [simp]: "length (ids_from i m n) = n"
  by (simp add: ids_from_def)

text \<open>The batches a run was given are those with a result, those between ordering and execution, and
  those still to be ordered; batch ids count up from the first.\<close>

definition trace_ok :: "u64 \<Rightarrow> ExecutableEthereumBatch list \<Rightarrow> ('c, 'd, 'b) Bridge \<Rightarrow> bool" where
  "trace_ok i B s \<longleftrightarrow>
     (let L = exec_jobs (br_exec s) @ br_exec_q s; k = length (br_results s) in
      map fst (br_results s) = ids_from i 0 k \<and>
      map snd (br_results s) = map batch_digest (take k B) \<and>
      map pb_batch_id L = ids_from i k (length L) \<and>
      drop k B = map pb_batch L @ br_batches s \<and>
      next_batch_id (br_pipeline s) = i + of_nat (k + length L))"

text \<open>A run reports the digest of its batch, or nothing.\<close>

definition honest_run :: "('c, 'd, 'b) batch_run \<Rightarrow> bool" where
  "honest_run run \<longleftrightarrow> (\<forall>vis b st. fst (run vis b st) = [] \<or> hd (fst (run vis b st)) = batch_digest b)"

lemma trace_ok_order:
  assumes ok: "trace_ok i B s" and b: "br_batches s = b # bs"
    and pb: "PipelineBatch_new (next_batch_id (br_pipeline s)) b = Some pb"
    and s': "next_batch_id (br_pipeline s') = next_batch_id (br_pipeline s) + 1" "br_batches s' = bs"
      "br_exec_q s' = br_exec_q s @ [pb]" "br_exec s' = br_exec s" "br_results s' = br_results s"
  shows "trace_ok i B s'"
proof -
  have "pb_batch_id pb = next_batch_id (br_pipeline s)" "pb_batch pb = b"
    using pb by (auto simp: PipelineBatch_new_def split: bind_splits)
  then show ?thesis
    using ok b s' by (auto simp: trace_ok_def Let_def ids_from_simps(3) add_ac)
qed

lemma trace_ok_finish:
  assumes ok: "trace_ok i B s" and ex: "br_exec s = ExecRunning pb" "digest = batch_digest (pb_batch pb)"
    and s': "next_batch_id (br_pipeline s') = next_batch_id (br_pipeline s)" "br_batches s' = br_batches s"
      "br_exec_q s' = br_exec_q s" "br_exec s' = ExecIdle" "br_results s' = br_results s @ [(pb_batch_id pb, digest)]"
  shows "trace_ok i B s'"
proof -
  let ?k = "length (br_results s)"
  have d: "drop ?k B = pb_batch pb # map pb_batch (br_exec_q s) @ br_batches s"
    and id: "pb_batch_id pb = i + of_nat ?k" "map pb_batch_id (br_exec_q s) = ids_from i (Suc ?k) (length (br_exec_q s))"
    using ok ex by (simp_all add: trace_ok_def Let_def ids_from_simps(2))
  have k: "?k < length B" using d by (metis drop_eq_Nil2 list.distinct(1) not_le)
  then have B: "B ! ?k = pb_batch pb" using d by (metis Cons_nth_drop_Suc list.inject)
  have "take (Suc ?k) B = take ?k B @ [pb_batch pb]" using k B by (simp add: take_Suc_conv_app_nth)
  moreover have "drop (Suc ?k) B = map pb_batch (br_exec_q s) @ br_batches s"
    using d k by (metis Cons_nth_drop_Suc list.inject)
  ultimately show ?thesis
    using ok ex s' id by (simp add: trace_ok_def Let_def ids_from_simps(3))
qed

lemma bridge_event_trace:
  assumes run: "honest_run run" and ok: "trace_ok i B s" and ev: "bridge_event ops S run ev s = Some s'"
  shows "trace_ok i B s'"
proof (cases ev)
  case (EvOrder stall us)
  with ev have "order_event stall us s = Some s'" by simp
  then show ?thesis by (rule order_eventE) (rule trace_ok_order [OF ok], simp_all)
next
  case EvReceive
  with ev have "exec_receive s = Some s'" by simp
  then show ?thesis by (rule exec_receiveE) (use ok in \<open>simp add: trace_ok_def Let_def\<close>)
next
  case (EvEnter stall)
  with ev have "exec_enter stall s = Some s'" by simp
  then show ?thesis by (rule exec_enterE) (use ok in \<open>simp add: trace_ok_def Let_def\<close>)
next
  case (EvFinish us)
  with ev have "exec_finish ops S run us s = Some s'" by simp
  then show ?thesis
  proof (rule exec_finishE)
    fix pb digests applies reads backend cache digest
    assume r: "run \<lparr>vis_cache = ep_cache (br_pipeline s), visible_batch = br_visible s\<rparr> (pb_batch pb) (br_backend s)
        = (digests, applies, reads, backend)"
      and d: "digest = (case digests of d # _ \<Rightarrow> d | [] \<Rightarrow> batch_digest (pb_batch pb))"
      and p: "br_pipeline s' = (br_pipeline s)\<lparr>ep_cache := mark_batch_complete (pb_batch_id pb) cache,
        last_exec_complete := pb_batch_id pb, ep_controller := on_batch_exit Exec (pb_gas_weight pb) (br_ctrl s)\<rparr>"
      and rest: "br_exec s = ExecRunning pb" "br_batches s' = br_batches s" "br_exec_q s' = br_exec_q s" "br_exec s' = ExecIdle"
        "br_results s' = br_results s @ [(pb_batch_id pb, digest)]"
    have "digests = [] \<or> hd digests = batch_digest (pb_batch pb)"
      using run r unfolding honest_run_def by (metis fst_conv)
    then have "digest = batch_digest (pb_batch pb)" using d by (cases digests) auto
    with p rest show ?thesis by (intro trace_ok_finish [OF ok]) simp_all
  qed
next
  case EvCommitReceive
  with ev have "commit_receive s = Some s'" by simp
  then show ?thesis by (rule commit_receiveE) (use ok in \<open>simp add: trace_ok_def Let_def\<close>)
next
  case (EvCommitEnter stall)
  with ev have "commit_enter stall s = Some s'" by simp
  then show ?thesis by (rule commit_enterE) (use ok in \<open>simp add: trace_ok_def Let_def\<close>)
next
  case (EvCommitFinish us)
  with ev have "commit_finish ops S us s = Some s'" by simp
  then show ?thesis by (rule commit_finishE) (use ok in \<open>simp add: trace_ok_def Let_def\<close>)
qed

lemma run_events_trace:
  "honest_run run \<Longrightarrow> trace_ok i B s \<Longrightarrow> run_events ops S run evs s = Some s' \<Longrightarrow> trace_ok i B s'"
proof (induction evs arbitrary: s)
  case (Cons ev evs)
  then obtain s1 where s1: "bridge_event ops S run ev s = Some s1" "run_events ops S run evs s1 = Some s'"
    by (auto split: bind_splits)
  then show ?case using Cons.IH [OF Cons.prems(1) bridge_event_trace [OF Cons.prems(1, 2) s1(1)]] by simp
qed simp

lemma bridge_event_l1:
  assumes ok: "l1_ok (tl_l1 (ep_cache (br_pipeline s)))" and ev: "bridge_event ops S run ev s = Some s'"
  shows "l1_ok (tl_l1 (ep_cache (br_pipeline s')))"
proof (cases ev)
  case (EvFinish us)
  with ev have "exec_finish ops S run us s = Some s'" by simp
  then show ?thesis
  proof (rule exec_finishE)
    fix pb digests applies reads backend cache digest
    assume cache: "write_delta_pages (pb_batch_id pb) (into_delta_pages (applies_to_temp_buffer applies []) (pb_batch_id pb) (pb_batch_id pb)
          (deltapage_max_records (ep_cache_config (br_pipeline s)))) (reads_cache ops S reads (br_visible s) (ep_cache (br_pipeline s)))
          = Some cache"
      and p: "br_pipeline s' = (br_pipeline s)\<lparr>ep_cache := mark_batch_complete (pb_batch_id pb) cache,
          last_exec_complete := pb_batch_id pb, ep_controller := on_batch_exit Exec (pb_gas_weight pb) (br_ctrl s)\<rparr>"
    have "l1_ok (tl_l1 (reads_cache ops S reads (br_visible s) (ep_cache (br_pipeline s))))" using ok by simp
    then have "l1_ok (tl_l1 cache)" using cache write_buffer_ok by (metis option.inject)
    then show ?thesis by (simp add: p mark_batch_complete_def)
  qed
qed (use ev ok in \<open>auto elim!: event_elims dest!: commit_batch_l1\<close>)

lemma run_events_l1:
  "l1_ok (tl_l1 (ep_cache (br_pipeline s))) \<Longrightarrow> run_events ops S run evs s = Some s' \<Longrightarrow>
   l1_ok (tl_l1 (ep_cache (br_pipeline s')))"
proof (induction evs arbitrary: s)
  case (Cons ev evs)
  then obtain s1 where s1: "bridge_event ops S run ev s = Some s1" "run_events ops S run evs s1 = Some s'"
    by (auto split: bind_splits)
  then show ?case using Cons.IH [OF bridge_event_l1 [OF Cons.prems(1) s1(1)]] by simp
qed simp

lemma sorted_ids_from:
  assumes "unat i + n \<le> 2 ^ 64"
  shows "sorted (ids_from i 0 n)"
proof -
  have "unat (i + of_nat k) = unat i + k" if "k < n" for k
  proof -
    have "unat (of_nat k :: u64) = k" using that assms by (simp only: unat_of_nat) simp
    then show ?thesis using unat_add_exact [of i "of_nat k"] that assms by simp
  qed
  then show ?thesis
    by (auto simp: ids_from_def sorted_iff_nth_mono word_le_nat_alt)
qed

lemma bridge_start_ok:
  assumes "idle (ep_controller p)" "zeta_max (ep_controller p) \<noteq> 0" "lambda (ep_controller p) Commit = lam"
    "l1_ok (tl_l1 (ep_cache p))" "length B < 2 ^ 32" "\<forall>b\<in>set B. gas_weight_of (batch_data b) 0 \<noteq> None"
  shows "bridge_ok lam (bridge_start p v m st B)"
  using assms by (simp add: bridge_ok_def bridge_start_def ctrl_ok_def idle_def running_def committing_def)

lemma bridge_start_trace: "trace_ok (next_batch_id p) B (bridge_start p v m st B)"
  by (simp add: trace_ok_def bridge_start_def ids_from_simps(1))

lemma trace_ok_done:
  assumes ok: "trace_ok i B s" and fin: "bridge_done s" and B: "unat i + length B \<le> 2 ^ 64"
  shows "map snd (sort_key fst (br_results s)) = map batch_digest B"
proof -
  let ?k = "length (br_results s)"
  have d: "drop ?k B = []" and r: "map fst (br_results s) = ids_from i 0 ?k" "map snd (br_results s) = map batch_digest (take ?k B)"
    using ok fin by (simp_all add: trace_ok_def bridge_done_def Let_def)
  have len: "?k = length B" using arg_cong [OF r(2), of length] d by simp
  then have "sorted (map fst (br_results s))" using r(1) sorted_ids_from [OF B] by simp
  then have "sort_key fst (br_results s) = br_results s" by (rule sort_key_id_if_sorted)
  with r(2) len show ?thesis by simp
qed

lemma stuck_state:
  assumes "br_batches s = []" "br_exec_q s = []" "br_exec s = ExecReceived pb" "\<not> can_push (br_ctrl s) Exec"
    "br_commit_q s = []" "br_commit s = CommitIdle"
  shows "bridge_event ops S run ev s = None"
  using assms
  by (cases ev) (simp_all add: order_event_def exec_receive_def exec_enter_def exec_finish_def
      commit_receive_def commit_enter_def commit_finish_def wait_can_push_def)

section \<open>Sample runs\<close>

definition one_slot_run :: "('c, 'd, nat) batch_run" where
  "one_slot_run vis b st = ([], [Modify 0 \<lparr>balance = 0, nonce = 0\<rparr> None [(5, batch_digest b)] False], [], Suc st)"

definition bare_batch :: "h256 \<Rightarrow> ExecutableEthereumBatch" where
  "bare_batch d = \<lparr>batch_digest = d, batch_data = []\<rparr>"

definition sample_pipeline :: "u64 \<Rightarrow> ((Key \<times> Value) list, ChaseStorage) EvBlpPipeline" where
  "sample_pipeline lam =
     from_config list_lru \<lparr>cfg_zeta_max = 8, lambda2 = 10000000, lambda3 = lam\<rparr> CacheConfig_default empty_storage"

definition sample_bridge :: "u64 \<Rightarrow> ExecutableEthereumBatch list \<Rightarrow> ((Key \<times> Value) list, ChaseStorage, nat) Bridge" where
  "sample_bridge lam batches = bridge_start (sample_pipeline lam) 0 metrics_new 0 batches"

definition one_batch_events :: "BridgeEvent list" where
  "one_batch_events = [EvOrder None 1, EvReceive, EvEnter None, EvFinish 3, EvCommitReceive,
     EvCommitEnter (Some 2), EvCommitFinish 4]"

text \<open>The second batch ends its execution while the first one is being committed.\<close>

definition overlapping_events :: "BridgeEvent list" where
  "overlapping_events =
     [EvOrder None 1, EvReceive, EvEnter None, EvFinish 3, EvCommitReceive, EvCommitEnter None,
      EvOrder None 1, EvReceive, EvEnter None, EvFinish 3, EvCommitFinish 4,
      EvCommitReceive, EvCommitEnter None, EvCommitFinish 4, EvOrder None 1, EvReceive]"

lemma delta_bytes_one_slot: "delta_bytes (applies_to_temp_buffer (batch_applies one_slot_run vis b st) []) = 64"
  by (simp add: batch_applies_def one_slot_run_def applies_to_temp_buffer_writes storage_writes_def delta_bytes_def)

lemma one_batch_run:
  "\<exists>s. run_events list_lru RocksDbStateStore one_slot_run one_batch_events (sample_bridge 100 [bare_batch 9]) = Some s \<and>
     bridge_done s"
proof -
  have "(case run_events list_lru RocksDbStateStore one_slot_run one_batch_events (sample_bridge 100 [bare_batch 9]) of
      Some s \<Rightarrow> bridge_done s | None \<Rightarrow> False)" by code_simp
  then show ?thesis by (auto split: option.splits)
qed

lemma sample_pipeline_ok:
  "idle (ep_controller (sample_pipeline lam))"
  "zeta_max (ep_controller (sample_pipeline lam)) \<noteq> 0"
  "lambda (ep_controller (sample_pipeline lam)) Commit = lam"
  "l1_ok (tl_l1 (ep_cache (sample_pipeline lam)))"
  by (simp_all add: sample_pipeline_def from_config_def idle_new TwoLevelCache_new_def)
    (simp_all add: PipelineController_new_def)

section \<open>Properties\<close>



text \<open>C6: However the three tasks interleave, the digests that \<open>execute\<close> returns are those of the given
  batches in the given order, when executing a batch reports its own digest or none.\<close>

theorem bridge_results_in_order:
  assumes "lru_contract ops peek" and "honest_run run" and "l1_ok (tl_l1 (ep_cache p))"
    and "unat (next_batch_id p) + length batches \<le> 2 ^ 64"
    and "run_events ops S run evs (bridge_start p v m st batches) = Some s" and "bridge_done s"
  shows "\<exists>p' r. bridge_finish ops S s = Some (map batch_digest batches, p', r)"
proof -
  have "trace_ok (next_batch_id p) batches s"
    using run_events_trace [OF assms(2) bridge_start_trace assms(5)] .
  then have "map snd (sort_key fst (br_results s)) = map batch_digest batches"
    using assms(4, 6) by (intro trace_ok_done)
  moreover have "l1_ok (tl_l1 (ep_cache (br_pipeline s)))"
    using run_events_l1 [OF _ assms(5)] assms(3) by (simp add: bridge_start_def)
  then obtain r c where "try_flush_with_retry ops S 3 (ep_cache (br_pipeline s)) = Some (r, c)"
    using try_flush_total [OF assms(1)] by blast
  ultimately show ?thesis by (simp add: bridge_finish_def Let_def)
qed

theorem bridge_results_in_order_witness:
  "\<exists>s p' r. run_events list_lru RocksDbStateStore one_slot_run one_batch_events (sample_bridge 100 [bare_batch 9]) = Some s \<and>
     bridge_finish list_lru RocksDbStateStore s = Some ([9], p', r)"
proof -
  obtain s where s: "run_events list_lru RocksDbStateStore one_slot_run one_batch_events (sample_bridge 100 [bare_batch 9]) = Some s"
    "bridge_done s" using one_batch_run by blast
  have honest: "honest_run (one_slot_run :: ((Key \<times> Value) list, ChaseStorage, nat) batch_run)"
    by (simp add: honest_run_def one_slot_run_def)
  have "unat (next_batch_id (sample_pipeline 100)) + length [bare_batch 9] \<le> 2 ^ 64"
    by (simp add: sample_pipeline_def from_config_def)
  from bridge_results_in_order [OF list_lru_contract honest sample_pipeline_ok(4) this s(1) [unfolded sample_bridge_def] s(2)]
  show ?thesis using s(1) by (auto simp: bare_batch_def)
qed


end
