(* ===== verification/Evm_Arith.thy ===== *)
theory Evm_Arith
  imports Chase_Types "HOL-Library.Signed_Division"
begin

text \<open>
  The arithmetic of the EVM core: sign-magnitude integers (\<open>crates/chase-evm/core/src/utils.rs\<close>) and the
  functions behind the arithmetic and bitwise opcodes (\<open>core/src/eval/arithmetic.rs\<close>,
  \<open>core/src/eval/bitwise.rs\<close>), each related to a reference on integers.  The operators \<open>+\<close>, \<open>/\<close> and
  \<open>%\<close> of the big-integer library panic on overflow and on a zero divisor; the functions that use
  them return \<^const>\<open>None\<close> there, and the theorems show that this never happens.
\<close>

section \<open>Sign-magnitude integers\<close>

datatype Sign = Plus | Minus | Zero

datatype I256 = I256 (i256_sign: Sign) (i256_abs: u256)

definition SIGN_BIT_MASK :: u256 where
  "SIGN_BIT_MASK = mask 255"

definition I256_zero :: I256 where
  "I256_zero = I256 Zero 0"

definition I256_min_value :: I256 where
  "I256_min_value = I256 Minus (and (- 1) SIGN_BIT_MASK + 1)"

definition cmp_u256 :: "u256 \<Rightarrow> u256 \<Rightarrow> Ordering" where
  "cmp_u256 a b = (if a < b then Less else if a = b then Equal else Greater)"

definition ordering_reverse :: "Ordering \<Rightarrow> Ordering" where
  "ordering_reverse c = (case c of Less \<Rightarrow> Greater | Equal \<Rightarrow> Equal | Greater \<Rightarrow> Less)"

definition I256_cmp :: "I256 \<Rightarrow> I256 \<Rightarrow> Ordering" where
  "I256_cmp x y = (case (i256_sign x, i256_sign y) of
     (Zero, Zero) \<Rightarrow> Equal
   | (Zero, Plus) \<Rightarrow> Less
   | (Zero, Minus) \<Rightarrow> Greater
   | (Minus, Zero) \<Rightarrow> Less
   | (Minus, Plus) \<Rightarrow> Less
   | (Minus, Minus) \<Rightarrow> ordering_reverse (cmp_u256 (i256_abs x) (i256_abs y))
   | (Plus, Minus) \<Rightarrow> Greater
   | (Plus, Zero) \<Rightarrow> Greater
   | (Plus, Plus) \<Rightarrow> cmp_u256 (i256_abs x) (i256_abs y))"

definition I256_from :: "u256 \<Rightarrow> I256 option" where
  "I256_from v =
     (if v = 0 then Some I256_zero
      else if and v SIGN_BIT_MASK = v then Some (I256 Plus v)
      else map_option (I256 Minus) (checked_add (not v) 1))"

definition I256_into :: "I256 \<Rightarrow> u256 option" where
  "I256_into x = (case i256_sign x of
     Zero \<Rightarrow> Some 0
   | Plus \<Rightarrow> Some (i256_abs x)
   | Minus \<Rightarrow> checked_add (not (i256_abs x)) 1)"

definition checked_div :: "'a::len word \<Rightarrow> 'a word \<Rightarrow> 'a word option" where
  "checked_div a b = (if b = 0 then None else Some (a div b))"

definition checked_rem :: "'a::len word \<Rightarrow> 'a word \<Rightarrow> 'a word option" where
  "checked_rem a b = (if b = 0 then None else Some (a mod b))"

definition I256_div :: "I256 \<Rightarrow> I256 \<Rightarrow> I256 option" where
  "I256_div x y =
     (if y = I256_zero then Some I256_zero
      else if x = I256_min_value \<and> i256_abs y = 1 then Some I256_min_value
      else do {
        q \<leftarrow> checked_div (i256_abs x) (i256_abs y);
        let d = and q SIGN_BIT_MASK;
        Some (if d = 0 then I256_zero
              else case (i256_sign x, i256_sign y) of
                  (Zero, Minus) \<Rightarrow> I256 Minus d
                | (Plus, Minus) \<Rightarrow> I256 Minus d
                | (Minus, Zero) \<Rightarrow> I256 Minus d
                | (Minus, Plus) \<Rightarrow> I256 Minus d
                | _ \<Rightarrow> I256 Plus d) })"

definition I256_rem :: "I256 \<Rightarrow> I256 \<Rightarrow> I256 option" where
  "I256_rem x y = do {
     m \<leftarrow> checked_rem (i256_abs x) (i256_abs y);
     let r = and m SIGN_BIT_MASK;
     Some (if r = 0 then I256_zero else I256 (i256_sign x) r) }"

section \<open>Arithmetic opcodes\<close>

definition div_u256 :: "u256 \<Rightarrow> u256 \<Rightarrow> u256" where
  "div_u256 a b = (if b = 0 then 0 else a div b)"

definition sdiv_u256 :: "u256 \<Rightarrow> u256 \<Rightarrow> u256 option" where
  "sdiv_u256 a b = do { x \<leftarrow> I256_from a; y \<leftarrow> I256_from b; q \<leftarrow> I256_div x y; I256_into q }"

definition rem_u256 :: "u256 \<Rightarrow> u256 \<Rightarrow> u256" where
  "rem_u256 a b = (if b = 0 then 0 else a mod b)"

definition srem_u256 :: "u256 \<Rightarrow> u256 \<Rightarrow> u256 option" where
  "srem_u256 a b =
     (if b = 0 then Some 0
      else do { x \<leftarrow> I256_from a; y \<leftarrow> I256_from b; r \<leftarrow> I256_rem x y; I256_into r })"

text \<open>\<open>try_into\<close> from 512 to 256 bits.\<close>

definition try_into_u256 :: "512 word \<Rightarrow> u256 option" where
  "try_into_u256 v = (if v < 2 ^ 256 then Some (ucast v) else None)"

definition addmod :: "u256 \<Rightarrow> u256 \<Rightarrow> u256 \<Rightarrow> u256 option" where
  "addmod a b c =
     (let a' = ucast a; b' = ucast b; c' = (ucast c :: 512 word)
      in if c' = 0 then Some 0
         else do { s \<leftarrow> checked_add a' b'; v \<leftarrow> checked_rem s c'; try_into_u256 v })"

definition mulmod :: "u256 \<Rightarrow> u256 \<Rightarrow> u256 \<Rightarrow> u256 option" where
  "mulmod a b c =
     (let a' = ucast a; b' = ucast b; c' = (ucast c :: 512 word)
      in if c' = 0 then Some 0
         else do { s \<leftarrow> checked_mul a' b'; v \<leftarrow> checked_rem s c'; try_into_u256 v })"

function exp_loop :: "u256 \<Rightarrow> u256 \<Rightarrow> u256 \<Rightarrow> u256" where
  "exp_loop op1 op2 r =
     (if op2 \<noteq> 0
      then exp_loop (op1 * op1) (drop_bit 1 op2) (if and op2 1 \<noteq> 0 then r * op1 else r)
      else r)"
  by pat_completeness auto
termination
proof (relation "measure (\<lambda>(op1, op2, r). unat op2)")
  fix op1 op2 r :: u256
  assume "op2 \<noteq> 0"
  then have "0 < unat op2" by (simp add: unat_gt_0)
  then show "((op1 * op1, drop_bit 1 op2, if and op2 1 \<noteq> 0 then r * op1 else r), op1, op2, r)
      \<in> measure (\<lambda>(op1, op2, r). unat op2)"
    by (simp add: drop_bit_eq_div unat_div)
qed simp

declare exp_loop.simps [simp del]

definition exp_u256 :: "u256 \<Rightarrow> u256 \<Rightarrow> u256" where
  "exp_u256 op1 op2 = exp_loop op1 op2 1"

definition signextend :: "u256 \<Rightarrow> u256 \<Rightarrow> u256" where
  "signextend op1 op2 =
     (if op1 < 32 then
        let bit_index = 8 * unat op1 + 7;
            msk = push_bit bit_index 1 - 1
        in if bit op2 bit_index then or op2 (not msk) else and op2 msk
      else op2)"

section \<open>Comparison and bitwise opcodes\<close>

definition bool_u256 :: "bool \<Rightarrow> u256" where
  "bool_u256 b = (if b then 1 else 0)"

definition slt :: "u256 \<Rightarrow> u256 \<Rightarrow> u256 option" where
  "slt a b = do { x \<leftarrow> I256_from a; y \<leftarrow> I256_from b; Some (bool_u256 (I256_cmp x y = Less)) }"

definition sgt :: "u256 \<Rightarrow> u256 \<Rightarrow> u256 option" where
  "sgt a b = do { x \<leftarrow> I256_from a; y \<leftarrow> I256_from b; Some (bool_u256 (I256_cmp x y = Greater)) }"

definition iszero :: "u256 \<Rightarrow> u256" where
  "iszero a = bool_u256 (a = 0)"

definition not_u256 :: "u256 \<Rightarrow> u256" where
  "not_u256 a = not a"

definition byte_step :: "u256 \<Rightarrow> u256 \<Rightarrow> nat \<Rightarrow> u256 \<Rightarrow> u256" where
  "byte_step op1 op2 i ret =
     (if i < 8 \<and> op1 < 32 then
        let t = 255 - (7 - i + 8 * unat op1);
            val = drop_bit t (and op2 (push_bit t 1))
        in ret + push_bit i val
      else ret)"

definition byte :: "u256 \<Rightarrow> u256 \<Rightarrow> u256" where
  "byte op1 op2 = fold (byte_step op1 op2) [0..<256] 0"

definition shl :: "u256 \<Rightarrow> u256 \<Rightarrow> u256" where
  "shl shift v = (if v = 0 \<or> shift \<ge> 256 then 0 else push_bit (unat shift) v)"

definition shr :: "u256 \<Rightarrow> u256 \<Rightarrow> u256" where
  "shr shift v = (if v = 0 \<or> shift \<ge> 256 then 0 else drop_bit (unat shift) v)"

definition sar :: "u256 \<Rightarrow> u256 \<Rightarrow> u256 option" where
  "sar shift v = do {
     x \<leftarrow> I256_from v;
     (if x = I256_zero \<or> shift \<ge> 256
      then (case i256_sign x of Minus \<Rightarrow> I256_into (I256 Minus 1) | _ \<Rightarrow> Some 0)
      else (case i256_sign x of
              Minus \<Rightarrow> I256_into (I256 Minus (drop_bit (unat shift) (i256_abs x - 1) + 1))
            | _ \<Rightarrow> Some (drop_bit (unat shift) (i256_abs x)))) }"

section \<open>Sign-magnitude integers as integers\<close>

definition i256_int :: "I256 \<Rightarrow> int" where
  "i256_int x = (case i256_sign x of Plus \<Rightarrow> uint (i256_abs x) | Minus \<Rightarrow> - uint (i256_abs x) | Zero \<Rightarrow> 0)"

definition i256_ok :: "I256 \<Rightarrow> bool" where
  "i256_ok x \<longleftrightarrow> (case i256_sign x of
     Zero \<Rightarrow> i256_abs x = 0
   | Plus \<Rightarrow> 0 < uint (i256_abs x) \<and> uint (i256_abs x) < 2 ^ 255
   | Minus \<Rightarrow> 0 < uint (i256_abs x) \<and> uint (i256_abs x) \<le> 2 ^ 255)"

lemma uint_lt_256: "0 \<le> uint (v :: u256)" "uint (v :: u256) < 2 ^ 256"
  using uint_lt2p [of v] by simp_all

lemma take_bit_uint_256: "take_bit 256 (uint (v :: u256)) = uint v"
  using uint_lt_256 [of v] by (simp add: take_bit_int_eq_self_iff)

lemma sint_u256: "sint (v :: u256) = (if uint v < 2 ^ 255 then uint v else uint v - 2 ^ 256)"
proof -
  have b: "bit (uint v) 255 \<longleftrightarrow> 2 ^ 255 \<le> uint v"
  proof -
    have "uint v div 2 ^ 255 = (if uint v < 2 ^ 255 then 0 else 1)"
    proof (cases "uint v < 2 ^ 255")
      case False
      then have "uint v div 2 ^ 255 = 1 + (uint v - 2 ^ 255) div 2 ^ 255"
        by (subst div_pos_geq) simp_all
      moreover have "(uint v - 2 ^ 255) div 2 ^ 255 = 0"
        using False uint_lt_256 [of v] by (intro div_pos_pos_trivial) simp_all
      ultimately show ?thesis using False by simp
    qed (use uint_lt_256 [of v] in \<open>simp add: div_pos_pos_trivial\<close>)
    then show ?thesis by (simp add: bit_iff_odd)
  qed
  have "sint v = signed_take_bit 255 (uint v)" by (simp add: sint_uint)
  also have "\<dots> = take_bit 256 (uint v) - 2 ^ 256 * of_bool (bit (uint v) 255)"
    by (simp add: signed_take_bit_eq_take_bit_minus)
  also have "take_bit 256 (uint v) = uint v" by (rule take_bit_uint_256)
  finally show ?thesis using b by auto
qed

lemma and_sign_mask: "uint (and v SIGN_BIT_MASK) = uint v mod 2 ^ 255"
proof -
  have "and v SIGN_BIT_MASK = take_bit 255 v" by (simp add: SIGN_BIT_MASK_def take_bit_eq_mask)
  then have "uint (and v SIGN_BIT_MASK) = take_bit 255 (uint v)" by (simp add: unsigned_take_bit_eq)
  then show ?thesis by (simp only: take_bit_eq_mod)
qed

lemma and_sign_mask_id: "uint v < 2 ^ 255 \<Longrightarrow> and v SIGN_BIT_MASK = v"
  using and_sign_mask [of v] uint_lt_256 [of v] by (simp add: word_uint_eq_iff)

lemma and_sign_mask_iff: "and v SIGN_BIT_MASK = v \<longleftrightarrow> uint v < 2 ^ 255"
proof
  assume "and v SIGN_BIT_MASK = v"
  then have "uint v mod 2 ^ 255 = uint v" using and_sign_mask [of v] by simp
  moreover have "uint v mod 2 ^ 255 < 2 ^ 255" by simp
  ultimately show "uint v < 2 ^ 255" by linarith
qed (rule and_sign_mask_id)

lemma mod_256_below: "- (2 ^ 256) \<le> k \<Longrightarrow> k < 0 \<Longrightarrow> k mod 2 ^ 256 = k + (2 ^ 256 :: int)"
proof -
  assume "- (2 ^ 256) \<le> k" "k < 0"
  then have "(k + 2 ^ 256) mod 2 ^ 256 = k + 2 ^ 256" by (intro mod_pos_pos_trivial) linarith+
  then show ?thesis by (simp only: mod_add_self2)
qed

lemma uint_pos: "v \<noteq> 0 \<Longrightarrow> 0 < uint (v :: u256)"
  using uint_lt_256(1) [of v] unsigned_eq_0_iff [of v, where ?'a = int] by linarith

lemma uint_neg: "v \<noteq> 0 \<Longrightarrow> uint (- v :: u256) = 2 ^ 256 - uint v"
proof -
  assume v: "v \<noteq> 0"
  have "uint (- v) = (- uint v) mod 2 ^ 256" by (simp only: uint_word_ariths) simp
  then show ?thesis using mod_256_below [of "- uint v"] uint_pos [OF v] uint_lt_256 [of v] by linarith
qed

lemma uint_not: "uint (not v :: u256) = 2 ^ 256 - 1 - uint v"
proof -
  have "not v = - v - 1" by (simp only: not_eq_complement)
  then have "uint (not v) = (- uint v - 1) mod 2 ^ 256"
    by (simp only: uint_word_ariths mod_simps uint_1) simp
  then show ?thesis using mod_256_below [of "- uint v - 1"] uint_lt_256 [of v] by linarith
qed

lemma checked_not_add: "v \<noteq> 0 \<Longrightarrow> checked_add (not v) 1 = Some (- v :: u256)"
proof -
  assume v: "v \<noteq> 0"
  have "uint (not v) + uint (1 :: u256) < 2 ^ 256" using uint_not [of v] uint_pos [OF v] by simp
  moreover have "not v + 1 = - v" by (simp only: minus_eq_not_plus_1)
  ultimately show ?thesis by (simp add: checked_add_code)
qed

lemma I256_from_ok:
  obtains x where "I256_from v = Some x" "i256_ok x" "i256_int x = sint v"
proof (cases "v = 0")
  case True
  then show thesis using that [of I256_zero]
    by (simp add: I256_from_def I256_zero_def i256_ok_def i256_int_def)
next
  case False
  then have pos: "0 < uint v" using uint_lt_256 [of v] by (simp add: word_uint_eq_iff less_le)
  show thesis
  proof (cases "uint v < 2 ^ 255")
    case True
    then show thesis using that [of "I256 Plus v"] False pos
      by (simp add: I256_from_def and_sign_mask_iff i256_ok_def i256_int_def sint_u256)
  next
    case neg: False
    then show thesis using that [of "I256 Minus (- v)"] False pos uint_neg [OF False] uint_lt_256 [of v]
      by (simp add: I256_from_def and_sign_mask_iff checked_not_add i256_ok_def i256_int_def sint_u256)
  qed
qed

lemma I256_into_ok: "i256_ok x \<Longrightarrow> I256_into x = Some (word_of_int (i256_int x))"
proof -
  assume ok: "i256_ok x"
  show ?thesis
  proof (cases "i256_sign x")
    case Minus
    then have "i256_abs x \<noteq> 0" using ok by (auto simp: i256_ok_def)
    then show ?thesis using Minus by (simp add: I256_into_def i256_int_def checked_not_add)
  qed (simp_all add: I256_into_def i256_int_def)
qed

lemma i256_ok_cases:
  assumes "i256_ok x"
  obtains "x = I256_zero"
  | a where "x = I256 Plus a" "0 < uint a" "uint a < 2 ^ 255"
  | a where "x = I256 Minus a" "0 < uint a" "uint a \<le> 2 ^ 255"
  using assms by (cases x; cases "i256_sign x") (auto simp: i256_ok_def I256_zero_def)

lemma i256_ok_simps [simp]:
  "i256_ok I256_zero" "i256_int I256_zero = 0"
  "i256_ok (I256 Plus a) \<longleftrightarrow> 0 < uint a \<and> uint a < 2 ^ 255"
  "i256_ok (I256 Minus a) \<longleftrightarrow> 0 < uint a \<and> uint a \<le> 2 ^ 255"
  "i256_int (I256 Plus a) = uint a" "i256_int (I256 Minus a) = - uint a"
  by (simp_all add: i256_ok_def i256_int_def I256_zero_def)

lemma I256_min_value_eq: "I256_min_value = I256 Minus (2 ^ 255)"
proof -
  have "and (- 1) SIGN_BIT_MASK + 1 = (2 ^ 255 :: u256)"
    by (simp add: SIGN_BIT_MASK_def mask_eq_exp_minus_1)
  then show ?thesis by (simp only: I256_min_value_def)
qed

lemma uint_exp_255: "uint (2 ^ 255 :: u256) = 2 ^ 255"
  by simp

text \<open>The magnitude and the sign of a truncated quotient and of its remainder.\<close>

lemma quotient_magnitude:
  assumes "i256_ok x" "i256_ok y" "y \<noteq> I256_zero" "\<not> (x = I256_min_value \<and> i256_abs y = 1)"
  shows "and (i256_abs x div i256_abs y) SIGN_BIT_MASK = i256_abs x div i256_abs y"
    and "uint (i256_abs x div i256_abs y) < 2 ^ 255"
proof -
  have ux: "uint (i256_abs x) \<le> 2 ^ 255" using assms(1) by (auto elim!: i256_ok_cases simp: I256_zero_def)
  have uy: "0 < uint (i256_abs y)" using assms(2,3) by (auto elim!: i256_ok_cases)
  have "uint (i256_abs x) div uint (i256_abs y) < 2 ^ 255"
  proof (cases "uint (i256_abs x) < 2 ^ 255")
    case True
    moreover have "uint (i256_abs x) div uint (i256_abs y) \<le> uint (i256_abs x) div 1"
      using uy by (intro zdiv_mono2) auto
    ultimately show ?thesis by (simp only: div_by_1)
  next
    case False
    then have x: "uint (i256_abs x) = 2 ^ 255" using ux by linarith
    then have "i256_abs x = 2 ^ 255" by (simp only: word_uint_eq_iff uint_exp_255)
    then have "x = I256_min_value"
      using assms(1) x by (auto elim!: i256_ok_cases simp: I256_min_value_eq I256_zero_def)
    then have "uint (i256_abs y) \<noteq> 1" using assms(4) by (simp add: word_uint_eq_iff)
    then have "uint (i256_abs x) div uint (i256_abs y) \<le> uint (i256_abs x) div 2"
      using uy x by (intro zdiv_mono2) auto
    then show ?thesis using x by simp
  qed
  then show "uint (i256_abs x div i256_abs y) < 2 ^ 255" by (simp only: uint_div_distrib)
  then show "and (i256_abs x div i256_abs y) SIGN_BIT_MASK = i256_abs x div i256_abs y"
    by (rule and_sign_mask_id)
qed

lemma I256_div_correct:
  assumes "i256_ok x" "i256_ok y"
  shows "\<exists>q. I256_div x y = Some q \<and> i256_ok q
    \<and> (word_of_int (i256_int q) :: u256) = word_of_int (i256_int x sdiv i256_int y)"
proof -
  consider (zero) "y = I256_zero" | (overflow) "y \<noteq> I256_zero" "x = I256_min_value" "i256_abs y = 1"
    | (normal) "y \<noteq> I256_zero" "\<not> (x = I256_min_value \<and> i256_abs y = 1)" by blast
  then show ?thesis
  proof cases
    case zero
    then show ?thesis by (simp add: I256_div_def signed_divide_int_def)
  next
    case overflow
    have "i256_int y = 1 \<or> i256_int y = -1"
      using assms(2) overflow by (auto elim!: i256_ok_cases)
    moreover have "(word_of_int (- (2 ^ 255)) :: u256) = word_of_int (2 ^ 255)"
      by (simp add: word_uint_eq_iff uint_word_of_int)
    ultimately show ?thesis using overflow
      by (auto simp: I256_div_def I256_min_value_eq signed_divide_int_def)
  next
    case normal
    note m = quotient_magnitude [OF assms normal]
    have y0: "i256_abs y \<noteq> 0" using assms(2) normal(1) by (auto elim!: i256_ok_cases)
    have q: "uint (i256_abs x div i256_abs y) = uint (i256_abs x) div uint (i256_abs y)"
      by (rule uint_div_distrib)
    have q0: "i256_abs x div i256_abs y = 0 \<longleftrightarrow> uint (i256_abs x) div uint (i256_abs y) = 0"
      using q by (metis unsigned_eq_0_iff)
    have nonneg: "0 \<le> uint (i256_abs x) div uint (i256_abs y)"
      using uint_lt_256(1) [of "i256_abs x div i256_abs y"] q by simp
    show ?thesis using assms m q q0 y0 nonneg normal
      by (elim i256_ok_cases)
        (auto simp: I256_div_def checked_div_def signed_divide_int_def I256_zero_def i256_ok_def i256_int_def)
  qed
qed

lemma I256_rem_correct:
  assumes "i256_ok x" "i256_ok y" "y \<noteq> I256_zero"
  shows "\<exists>r. I256_rem x y = Some r \<and> i256_ok r \<and> i256_int r = i256_int x smod i256_int y"
proof -
  have y0: "i256_abs y \<noteq> 0" "0 < uint (i256_abs y)" "uint (i256_abs y) \<le> 2 ^ 255"
    using assms(2,3) by (auto elim!: i256_ok_cases)
  have r: "uint (i256_abs x mod i256_abs y) = uint (i256_abs x) mod uint (i256_abs y)"
    by (rule uint_mod_distrib)
  have lt: "uint (i256_abs x) mod uint (i256_abs y) < uint (i256_abs y)" using y0 by simp
  then have lt': "uint (i256_abs x mod i256_abs y) < 2 ^ 255" using r y0(3) by linarith
  note m = and_sign_mask_id [OF lt']
  have r0: "i256_abs x mod i256_abs y = 0 \<longleftrightarrow> uint (i256_abs x) mod uint (i256_abs y) = 0"
    using r by (metis unsigned_eq_0_iff)
  have pos: "uint (i256_abs x) mod uint (i256_abs y) \<noteq> 0 \<Longrightarrow> 0 < uint (i256_abs x) mod uint (i256_abs y)"
    using y0 by (simp add: less_le)
  have sm: "i256_int x smod i256_int y = sgn (i256_int x) * (uint (i256_abs x) mod uint (i256_abs y))"
    using assms y0 by (elim i256_ok_cases) (auto simp: smod_int_alt_def)
  show ?thesis
    using assms(1) m r r0 y0 pos lt' sm
    by (elim i256_ok_cases) (auto simp: I256_rem_def checked_rem_def I256_zero_def i256_ok_def i256_int_def)
qed

lemma I256_cmp_correct:
  assumes "i256_ok x" "i256_ok y"
  shows "I256_cmp x y = (if i256_int x < i256_int y then Less else if i256_int x = i256_int y then Equal else Greater)"
  using assms
  by (elim i256_ok_cases)
    (auto simp: I256_cmp_def cmp_u256_def ordering_reverse_def I256_zero_def i256_int_def word_less_alt
      word_uint_eq_iff)

lemma sdiv_u256_correct: "sdiv_u256 a b = Some (word_of_int (sint a sdiv sint b))"
proof -
  obtain x y where x: "I256_from a = Some x" "i256_ok x" "i256_int x = sint a"
    and y: "I256_from b = Some y" "i256_ok y" "i256_int y = sint b" by (metis I256_from_ok)
  obtain q where q: "I256_div x y = Some q" "i256_ok q"
    "(word_of_int (i256_int q) :: u256) = word_of_int (sint a sdiv sint b)"
    using I256_div_correct [OF x(2) y(2)] unfolding x(3) y(3) by blast
  show ?thesis using I256_into_ok [OF q(2)] by (simp add: sdiv_u256_def x(1) y(1) q(1,3))
qed

lemma sint_eq_0: "sint (v :: u256) = 0 \<longleftrightarrow> v = 0"
  by (simp add: word_eq_iff_signed [where ?'a = int])

lemma srem_u256_correct: "srem_u256 a b = Some (if b = 0 then 0 else word_of_int (sint a smod sint b))"
proof (cases "b = 0")
  case False
  obtain x y where x: "I256_from a = Some x" "i256_ok x" "i256_int x = sint a"
    and y: "I256_from b = Some y" "i256_ok y" "i256_int y = sint b" by (metis I256_from_ok)
  have "y \<noteq> I256_zero" using y(3) False sint_eq_0 [of b] by auto
  then obtain r where r: "I256_rem x y = Some r" "i256_ok r" "i256_int r = sint a smod sint b"
    using I256_rem_correct [OF x(2) y(2)] unfolding x(3) y(3) by blast
  show ?thesis using I256_into_ok [OF r(2)] False by (simp add: srem_u256_def x(1) y(1) r(1,3))
qed (simp add: srem_u256_def)

lemma slt_correct: "slt a b = Some (bool_u256 (sint a < sint b))"
proof -
  obtain x y where x: "I256_from a = Some x" "i256_ok x" "i256_int x = sint a"
    and y: "I256_from b = Some y" "i256_ok y" "i256_int y = sint b" by (metis I256_from_ok)
  show ?thesis by (simp add: slt_def x(1) y(1) I256_cmp_correct [OF x(2) y(2)] x(3) y(3))
qed

lemma sgt_correct: "sgt a b = Some (bool_u256 (sint a > sint b))"
proof -
  obtain x y where x: "I256_from a = Some x" "i256_ok x" "i256_int x = sint a"
    and y: "I256_from b = Some y" "i256_ok y" "i256_int y = sint b" by (metis I256_from_ok)
  show ?thesis
    by (rule linorder_cases [of "sint a" "sint b"])
      (simp_all add: sgt_def x(1) y(1) I256_cmp_correct [OF x(2) y(2)] x(3) y(3))
qed

section \<open>Exponentiation, modular arithmetic and bit operations\<close>

lemma exp_loop_correct: "exp_loop a b r = r * a ^ unat b"
proof (induction a b r rule: exp_loop.induct)
  case (1 a b r)
  show ?case
  proof (cases "b = 0")
    case True
    then show ?thesis by (simp add: exp_loop.simps [of a 0])
  next
    case False
    have h: "unat (drop_bit 1 b) = unat b div 2" by (simp add: drop_bit_eq_div unat_div)
    have odd: "and b 1 \<noteq> 0 \<longleftrightarrow> odd (unat b)"
    proof -
      have "bit (unat b) 0 = bit b 0" by (simp only: bit_unsigned_iff) simp
      then show ?thesis by (simp add: and_one_eq bit_0 flip: even_iff_mod_2_eq_zero)
    qed
    have sq: "(a * a) ^ (unat b div 2) * (if odd (unat b) then a else 1) = a ^ unat b"
      by (cases "even (unat b)") (auto elim!: evenE oddE simp: power_mult power2_eq_square power_mult_distrib)
    have "exp_loop a b r = (if odd (unat b) then r * a else r) * (a * a) ^ (unat b div 2)"
      using 1 [OF False] False h odd by (simp add: exp_loop.simps [of a b])
    also have "\<dots> = r * a ^ unat b" by (simp add: mult_ac flip: sq)
    finally show ?thesis .
  qed
qed

lemma exp_u256_correct: "exp_u256 a b = a ^ unat b"
  by (simp add: exp_u256_def exp_loop_correct)

lemma ucast_512 [simp]:
  "uint (ucast (a :: u256) :: 512 word) = uint a" "(ucast (a :: u256) :: 512 word) = 0 \<longleftrightarrow> a = 0"
proof -
  show u: "uint (ucast (a :: u256) :: 512 word) = uint a"
    by (simp add: unsigned_ucast_eq take_bit_int_eq_self_iff) (use uint_lt_256 [of a] in simp)
  show "(ucast (a :: u256) :: 512 word) = 0 \<longleftrightarrow> a = 0"
    using u by (metis unsigned_eq_0_iff)
qed

lemma try_into_u256_correct: "uint v < 2 ^ 256 \<Longrightarrow> try_into_u256 v = Some (word_of_int (uint v))"
  by (simp add: try_into_u256_def word_less_alt unsigned_ucast_eq word_uint_eq_iff uint_word_of_int take_bit_eq_mod)

lemma addmod_correct: "addmod a b c = Some (if c = 0 then 0 else word_of_int ((uint a + uint b) mod uint c))"
proof (cases "c = 0")
  case False
  have s: "uint (ucast a + ucast b :: 512 word) = uint a + uint b"
    using uint_lt_256 [of a] uint_lt_256 [of b] by (subst uint_add_lem [THEN iffD1]) simp_all
  have "uint ((ucast a + ucast b :: 512 word) mod ucast c) = (uint a + uint b) mod uint c"
    by (simp only: uint_mod_distrib s ucast_512)
  moreover have "(uint a + uint b) mod uint c < 2 ^ 256"
    using pos_mod_bound [OF uint_pos [OF False], of "uint a + uint b"] uint_lt_256 [of c] by linarith
  ultimately show ?thesis using False uint_lt_256 [of a] uint_lt_256 [of b]
    by (simp add: addmod_def checked_add_code checked_rem_def try_into_u256_correct)
qed (simp add: addmod_def)

lemma mulmod_correct: "mulmod a b c = Some (if c = 0 then 0 else word_of_int ((uint a * uint b) mod uint c))"
proof (cases "c = 0")
  case False
  have "uint a * uint b < 2 ^ 256 * 2 ^ 256"
    using uint_lt_256 [of a] uint_lt_256 [of b] by (intro mult_strict_mono) simp_all
  then have lt: "uint a * uint b < 2 ^ 512" by simp
  have s: "uint (ucast a * ucast b :: 512 word) = uint a * uint b"
    using lt by (subst uint_mult_lem [THEN iffD1]) simp_all
  have "uint ((ucast a * ucast b :: 512 word) mod ucast c) = (uint a * uint b) mod uint c"
    by (simp only: uint_mod_distrib s ucast_512)
  moreover have "(uint a * uint b) mod uint c < 2 ^ 256"
    using pos_mod_bound [OF uint_pos [OF False], of "uint a * uint b"] uint_lt_256 [of c] by linarith
  ultimately show ?thesis using False lt
    by (simp add: mulmod_def checked_mul_code checked_rem_def try_into_u256_correct)
qed (simp add: mulmod_def)

lemma div_neg_magnitude: "0 < a \<Longrightarrow> 0 < d \<Longrightarrow> - (a :: int) div d = - ((a - 1) div d + 1)"
proof -
  assume "0 < a" "0 < d"
  then have "- a = d * - ((a - 1) div d + 1) + (d - 1 - (a - 1) mod d)"
    using mult_div_mod_eq [of d "a - 1"] by (simp add: algebra_simps)
  moreover have "0 \<le> d - 1 - (a - 1) mod d" "d - 1 - (a - 1) mod d < d"
    using \<open>0 < d\<close> pos_mod_bound [of d "a - 1"] pos_mod_sign [of d "a - 1"] by linarith+
  ultimately show ?thesis by (metis int_div_pos_eq)
qed

lemma div_beyond: "- (2 ^ 255) \<le> k \<Longrightarrow> k < 2 ^ 255 \<Longrightarrow> 256 \<le> n \<Longrightarrow> (k :: int) div 2 ^ n = (if k < 0 then - 1 else 0)"
proof -
  assume k: "- (2 ^ 255) \<le> k" "k < 2 ^ 255" "256 \<le> n"
  have p: "(2 :: int) ^ 256 \<le> 2 ^ n" using k(3) by (intro power_increasing) auto
  show ?thesis
  proof (cases "k < 0")
    case True
    have "k = 2 ^ n * - 1 + (k + 2 ^ n)" "0 \<le> k + 2 ^ n" "k + 2 ^ n < 2 ^ n"
      by (use k p True in simp_all)
    then have "k div 2 ^ n = - 1" by (metis int_div_pos_eq)
    then show ?thesis using True by simp
  next
    case False
    then show ?thesis using k p by (simp add: div_pos_pos_trivial)
  qed
qed

lemma word_ge_256: "(256 :: u256) \<le> s \<longleftrightarrow> 256 \<le> unat s"
  by (simp add: word_le_nat_alt)

lemma uint_drop_bit: "uint (drop_bit n (v :: u256)) = uint v div 2 ^ n"
proof -
  have "uint (drop_bit n v) = drop_bit n (uint v)"
    by (simp add: unsigned_drop_bit_eq take_bit_uint_256)
  then show ?thesis by (simp only: drop_bit_eq_div)
qed

lemma sar_correct: "sar s v = Some (word_of_int (sint v div 2 ^ unat s))"
proof -
  obtain x where x: "I256_from v = Some x" "i256_ok x" "i256_int x = sint v" by (metis I256_from_ok)
  have neg1: "I256_into (I256 Minus 1) = Some (- 1)" by (subst I256_into_ok) simp_all
  from x(2) show ?thesis
  proof (cases rule: i256_ok_cases)
    case 1
    then show ?thesis using x by (simp add: sar_def I256_zero_def i256_int_def)
  next
    case (2 a)
    then have s: "sint v = uint a" using x(3) by simp
    show ?thesis
    proof (cases "256 \<le> unat s")
      case True
      then show ?thesis using x(1) 2 s div_beyond [of "uint a" "unat s"]
        by (simp add: sar_def I256_zero_def word_ge_256)
    next
      case False
      have "drop_bit (unat s) a = word_of_int (uint a div 2 ^ unat s)"
        by (simp only: uint_drop_bit [symmetric] word_of_int_uint)
      then show ?thesis using False x(1) 2 s by (simp add: sar_def I256_zero_def word_ge_256)
    qed
  next
    case (3 a)
    then have s: "sint v = - uint a" using x(3) by simp
    show ?thesis
    proof (cases "256 \<le> unat s")
      case True
      then show ?thesis using x(1) 3 s div_beyond [of "- uint a" "unat s"] neg1
        by (simp add: sar_def I256_zero_def word_ge_256)
    next
      case False
      define w where "w = drop_bit (unat s) (a - 1) + 1"
      have a1: "uint (a - 1) = uint a - 1"
        using 3 uint_sub_lem [of 1 a] by simp
      have d: "uint (drop_bit (unat s) (a - 1)) = (uint a - 1) div 2 ^ unat s"
        by (simp only: uint_drop_bit a1)
      have "(uint a - 1) div 2 ^ unat s \<le> (uint a - 1) div 1"
        using 3 by (intro zdiv_mono2) auto
      then have w: "uint w = (uint a - 1) div 2 ^ unat s + 1"
        unfolding w_def using d 3 by (subst uint_add_lem [THEN iffD1]) simp_all
      have nn: "0 \<le> (uint a - 1) div 2 ^ unat s" using 3 by (simp add: pos_imp_zdiv_nonneg_iff)
      have "i256_ok (I256 Minus w)" using w nn \<open>(uint a - 1) div 2 ^ unat s \<le> _\<close> 3 by simp
      then have "I256_into (I256 Minus w) = Some (word_of_int (- uint w))" by (subst I256_into_ok) simp_all
      moreover have "- uint w = - uint a div 2 ^ unat s" using div_neg_magnitude [of "uint a" "2 ^ unat s"] w 3 by simp
      ultimately show ?thesis using False x(1) 3 s by (simp add: sar_def I256_zero_def word_ge_256 flip: w_def)
    qed
  qed
qed

lemma signextend_correct:
  "signextend k v = (if k < 32 then signed_take_bit (8 * unat k + 7) v else v)"
proof (cases "k < 32")
  case True
  then have lt: "8 * unat k + 7 < 256" by (simp add: word_less_nat_alt)
  have m: "push_bit n 1 - 1 = (mask n :: u256)" for n by (simp add: mask_eq_exp_minus_1)
  show ?thesis using True lt unfolding signextend_def Let_def m
    by (auto intro!: bit_word_eqI simp: bit_simps min_def split: if_splits)
qed (simp add: signextend_def)

lemma take_bit_Suc_top:
  "take_bit (Suc n) (v :: u256) = take_bit n v + push_bit n (of_bool (bit v n))"
proof -
  have "take_bit n v + push_bit n (of_bool (bit v n)) = or (take_bit n v) (push_bit n (of_bool (bit v n)))"
    by (rule disjunctive_add_eq_or) (auto intro!: bit_word_eqI simp: bit_simps)
  also have "\<dots> = take_bit (Suc n) v"
    by (auto intro!: bit_word_eqI simp: bit_simps less_Suc_eq)
  finally show ?thesis by simp
qed

lemma byte_prefix:
  assumes k: "k < 32" and n: "n \<le> 8"
  shows "fold (byte_step k v) [0..<n] 0 = take_bit n (drop_bit (248 - 8 * unat k) v)"
  using n
proof (induction n)
  case (Suc n)
  have k': "unat k < 32" using k by (simp add: word_less_nat_alt)
  define t where "t = 255 - (7 - n + 8 * unat k)"
  have t: "t = (248 - 8 * unat k) + n" "t < 256" using Suc.prems k' by (simp_all add: t_def)
  have "drop_bit t (and v (push_bit t 1)) = of_bool (bit v t)"
    using t(2) by (auto intro!: bit_word_eqI simp: bit_simps)
  moreover have "n < 8 \<and> k < 32" using k Suc.prems by simp
  ultimately have step: "byte_step k v n r = r + push_bit n (of_bool (bit v t))" for r
    by (simp only: byte_step_def Let_def simp_thms if_True flip: t_def)
  have "bit v t = bit (drop_bit (248 - 8 * unat k) v) n" by (simp add: bit_drop_bit_eq t(1))
  then show ?case using Suc take_bit_Suc_top [of n "drop_bit (248 - 8 * unat k) v"] by (simp add: step)
qed simp

lemma byte_tail: "m \<ge> 8 \<Longrightarrow> fold (byte_step k v) [m..<n] r = r"
  by (induction n arbitrary: r) (auto simp: byte_step_def)

lemma byte_high: "\<not> k < 32 \<Longrightarrow> fold (byte_step k v) xs r = r"
  by (induction xs arbitrary: r) (auto simp: byte_step_def)

lemma byte_correct:
  "byte k v = (if k < 32 then take_bit 8 (drop_bit (248 - 8 * unat k) v) else 0)"
proof (cases "k < 32")
  case True
  have "[0..<n] = [0..<8] @ [8..<n]" if "8 \<le> n" for n
    using that upt_add_eq_append [of 0 8 "n - 8"] by simp
  then have split: "fold (byte_step k v) [0..<n] 0 = fold (byte_step k v) [8..<n] (fold (byte_step k v) [0..<8] 0)"
    if "8 \<le> n" for n using that by (metis fold_append comp_apply)
  have "byte k v = fold (byte_step k v) [8..<256] (fold (byte_step k v) [0..<8] 0)"
    unfolding byte_def by (rule split) simp
  also have "\<dots> = take_bit 8 (drop_bit (248 - 8 * unat k) v)"
    unfolding byte_prefix [OF True order_refl] by (rule byte_tail [OF order_refl])
  finally show ?thesis unfolding if_P [OF True] .
qed (simp add: byte_def byte_high)

lemma shl_correct: "shl s v = push_bit (unat s) v"
  by (auto simp: shl_def word_ge_256)

lemma shr_correct: "shr s v = drop_bit (unat s) v"
  by (auto simp: shr_def word_ge_256)

section \<open>The opcodes against their reference\<close>

text \<open>C34: The arithmetic, comparison and shift functions of the EVM core compute the operations of the EVM
  on integers, for every pair of operands and without a panic.  Signed division and remainder
  truncate towards zero (also for the minimal value divided by -1, and with zero for a zero divisor),
  signed comparison and the arithmetic right shift read their operand in two's complement, the
  modular operations do not lose the carry, exponentiation by squaring is the power modulo \<open>2 ^ 256\<close>,
  and \<open>SIGNEXTEND\<close> and \<open>BYTE\<close> select the right bits.
\<close>

theorem evm_arith_reference:
  "sdiv_u256 a b = Some (word_of_int (sint a sdiv sint b))
   \<and> srem_u256 a b = Some (if b = 0 then 0 else word_of_int (sint a smod sint b))
   \<and> slt a b = Some (bool_u256 (sint a < sint b))
   \<and> sgt a b = Some (bool_u256 (sint a > sint b))
   \<and> sar a b = Some (word_of_int (sint b div 2 ^ unat a))
   \<and> addmod a b c = Some (if c = 0 then 0 else word_of_int ((uint a + uint b) mod uint c))
   \<and> mulmod a b c = Some (if c = 0 then 0 else word_of_int ((uint a * uint b) mod uint c))
   \<and> exp_u256 a b = a ^ unat b
   \<and> signextend a b = (if a < 32 then signed_take_bit (8 * unat a + 7) b else b)
   \<and> byte a b = (if a < 32 then take_bit 8 (drop_bit (248 - 8 * unat a) b) else 0)
   \<and> shl a b = push_bit (unat a) b
   \<and> shr a b = drop_bit (unat a) b"
  by (intro conjI sdiv_u256_correct srem_u256_correct slt_correct sgt_correct sar_correct addmod_correct
      mulmod_correct exp_u256_correct signextend_correct byte_correct shl_correct shr_correct)

end
