(* ===== verification/Evm_Memory.thy ===== *)
theory Evm_Memory
  imports Evm_Arith
begin

text \<open>
  The state of the EVM core: exit reasons (\<open>core/src/error.rs\<close>), the operand stack
  (\<open>core/src/stack.rs\<close>), the byte memory (\<open>core/src/memory.rs\<close>) and the map of valid jump
  destinations (\<open>core/src/valids.rs\<close>).  A \<open>usize\<close> is a natural number with its bound written out, an
  \<open>H256\<close> is the number its bytes spell in big-endian order, so the conversions between \<open>H256\<close> and \<open>U256\<close>
  in the stack macros are the identity and the byte order shows only where memory is read or written.
\<close>

section \<open>Exit reasons\<close>

type_synonym Opcode = u8

datatype ExitSucceed = Stopped | Returned | Suicided

datatype ExitRevert = Reverted

datatype ExitError =
    StackUnderflow | StackOverflow | InvalidJump | InvalidRange | DesignatedInvalid | CallTooDeep
  | CreateCollision | CreateContractLimit | InvalidCode Opcode | OutOfOffset | OutOfGas | OutOfFund
  | PCUnderflow | CreateEmpty | OtherError string | MaxNonce | NotEstimatedYet

datatype ExitFatal = NotSupported | UnhandledInterrupt | CallErrorAsFatal ExitError | OtherFatal string

datatype ExitReason = Succeed ExitSucceed | Error ExitError | Revert ExitRevert | Fatal ExitFatal

datatype ('e, 't) Capture = CaptureExit 'e | CaptureTrap 't

section \<open>Machine sizes and byte order\<close>

definition USIZE_MAX :: nat where
  "USIZE_MAX = 18446744073709551615"

definition usize_checked_add :: "nat \<Rightarrow> nat \<Rightarrow> nat option" where
  "usize_checked_add a b = (if a + b \<le> USIZE_MAX then Some (a + b) else None)"

lemma usize_checked_add_code [code]:
  "usize_checked_add a b = (if int a + int b \<le> 18446744073709551615 then Some (a + b) else None)"
  by (auto simp: usize_checked_add_def USIZE_MAX_def)

definition fits_usize :: "u256 \<Rightarrow> bool" where
  "fits_usize v \<longleftrightarrow> v \<le> 18446744073709551615"

definition be_bytes :: "nat \<Rightarrow> u256 \<Rightarrow> u8 list" where
  "be_bytes n w = map (\<lambda>i. ucast (drop_bit (8 * (n - 1 - i)) w)) [0..<n]"

definition from_be :: "u8 list \<Rightarrow> u256" where
  "from_be bs = foldl (\<lambda>acc b. push_bit 8 acc + ucast b) 0 bs"

section \<open>Stack\<close>

record Stack =
  stack_data :: "h256 list"
  stack_limit :: nat

definition Stack_new :: "nat \<Rightarrow> Stack" where
  "Stack_new limit = \<lparr>stack_data = [], stack_limit = limit\<rparr>"

definition Stack_pop :: "Stack \<Rightarrow> ExitError + (h256 \<times> Stack)" where
  "Stack_pop s =
     (if stack_data s = [] then Inl StackUnderflow
      else Inr (last (stack_data s), s\<lparr>stack_data := butlast (stack_data s)\<rparr>))"

definition Stack_push :: "h256 \<Rightarrow> Stack \<Rightarrow> ExitError + Stack" where
  "Stack_push v s =
     (if length (stack_data s) + 1 > stack_limit s then Inl StackOverflow
      else Inr (s\<lparr>stack_data := stack_data s @ [v]\<rparr>))"

definition Stack_peek :: "nat \<Rightarrow> Stack \<Rightarrow> ExitError + h256" where
  "Stack_peek no_from_top s =
     (if length (stack_data s) > no_from_top
      then Inr (stack_data s ! (length (stack_data s) - no_from_top - 1))
      else Inl StackUnderflow)"

definition Stack_set :: "nat \<Rightarrow> h256 \<Rightarrow> Stack \<Rightarrow> ExitError + Stack" where
  "Stack_set no_from_top v s =
     (if length (stack_data s) > no_from_top
      then Inr (s\<lparr>stack_data := (stack_data s)[length (stack_data s) - no_from_top - 1 := v]\<rparr>)
      else Inl StackUnderflow)"

section \<open>Memory\<close>

record Memory =
  mem_data :: "u8 list"
  mem_effective_len :: u256
  mem_limit :: nat

definition Memory_new :: "nat \<Rightarrow> Memory" where
  "Memory_new limit = \<lparr>mem_data = [], mem_effective_len = 0, mem_limit = limit\<rparr>"

definition next_multiple_of_32 :: "u256 \<Rightarrow> u256 option" where
  "next_multiple_of_32 x =
     (let r = and (not (and (ucast x :: u32) 31) + 1) 31 in checked_add x (ucast r))"

definition resize_end :: "u256 \<Rightarrow> Memory \<Rightarrow> ExitError + Memory" where
  "resize_end end m =
     (if end > mem_effective_len m
      then (case next_multiple_of_32 end of
              None \<Rightarrow> Inl InvalidRange
            | Some new_end \<Rightarrow> Inr (m\<lparr>mem_effective_len := new_end\<rparr>))
      else Inr m)"

definition resize_offset :: "u256 \<Rightarrow> u256 \<Rightarrow> Memory \<Rightarrow> ExitError + Memory" where
  "resize_offset offset len m =
     (if len = 0 then Inr m
      else case checked_add offset len of
          Some end \<Rightarrow> resize_end end m
        | None \<Rightarrow> Inl InvalidRange)"

function get_loop :: "u8 list \<Rightarrow> nat \<Rightarrow> nat \<Rightarrow> nat \<Rightarrow> u8 list \<Rightarrow> u8 list" where
  "get_loop d offset sz index ret =
     (if index < sz then
        let position = offset + index
        in if position \<ge> length d then ret
           else get_loop d offset sz (index + 1) (ret[index := d ! position])
      else ret)"
  by pat_completeness auto
termination by (relation "measure (\<lambda>(d, offset, sz, index, ret). sz - index)") auto

declare get_loop.simps [simp del]

definition Memory_get :: "nat \<Rightarrow> nat \<Rightarrow> Memory \<Rightarrow> u8 list" where
  "Memory_get offset sz m = get_loop (mem_data m) offset sz 0 (replicate sz 0)"

definition resize_bytes :: "nat \<Rightarrow> u8 list \<Rightarrow> u8 list" where
  "resize_bytes n bs = take n bs @ replicate (n - length bs) 0"

definition write_bytes :: "nat \<Rightarrow> u8 list \<Rightarrow> u8 list \<Rightarrow> u8 list" where
  "write_bytes offset bs d = take offset d @ bs @ drop (offset + length bs) d"

definition Memory_set :: "nat \<Rightarrow> u8 list \<Rightarrow> nat option \<Rightarrow> Memory \<Rightarrow> ExitFatal + Memory" where
  "Memory_set offset val tsize m =
     (let tsize = (case tsize of Some n \<Rightarrow> n | None \<Rightarrow> length val)
      in if tsize = 0 then Inr m
         else if (case usize_checked_add offset tsize of Some pos \<Rightarrow> pos > mem_limit m | None \<Rightarrow> True)
         then Inl NotSupported
         else
           let d = (if length (mem_data m) < offset + tsize
                    then resize_bytes (offset + tsize) (mem_data m) else mem_data m)
           in Inr (m\<lparr>mem_data :=
                (if tsize > length val
                 then write_bytes (offset + length val) (replicate (tsize - length val) 0)
                        (write_bytes offset val d)
                 else write_bytes offset (take tsize val) d)\<rparr>))"

definition copy_large :: "u256 \<Rightarrow> u256 \<Rightarrow> u256 \<Rightarrow> u8 list \<Rightarrow> Memory \<Rightarrow> ExitFatal + Memory" where
  "copy_large memory_offset data_offset len d m =
     (if len = 0 then Inr m
      else if \<not> fits_usize memory_offset then Inl NotSupported
      else if \<not> fits_usize len then Inl NotSupported
      else
        let src = (case checked_add data_offset len of
                     Some end \<Rightarrow>
                       if \<not> fits_usize end then []
                       else if unat data_offset > length d then []
                       else drop (unat data_offset) (take (min (unat end) (length d)) d)
                   | None \<Rightarrow> [])
        in Memory_set (unat memory_offset) src (Some (unat len)) m)"

section \<open>Jump destinations\<close>

abbreviation OP_JUMPDEST :: Opcode where "OP_JUMPDEST \<equiv> 0x5b"

definition is_push :: "Opcode \<Rightarrow> u8 option" where
  "is_push opcode = (if 0x60 \<le> opcode \<and> opcode \<le> 0x7f then Some (opcode - 0x60 + 1) else None)"

function valids_loop :: "u8 list \<Rightarrow> nat \<Rightarrow> bool list \<Rightarrow> bool list" where
  "valids_loop code i valids =
     (if i < length code then
        let opcode = code ! i
        in if opcode = OP_JUMPDEST then valids_loop code (i + 1) (valids[i := True])
           else case is_push opcode of
               Some v \<Rightarrow> valids_loop code (i + (unat v + 1)) valids
             | None \<Rightarrow> valids_loop code (i + 1) valids
      else valids)"
  by pat_completeness auto
termination by (relation "measure (\<lambda>(code, i, valids). length code - i)") auto

declare valids_loop.simps [simp del]

definition Valids_new :: "u8 list \<Rightarrow> bool list" where
  "Valids_new code = valids_loop code 0 (replicate (length code) False)"

definition is_valid :: "bool list \<Rightarrow> nat \<Rightarrow> bool" where
  "is_valid valids position =
     (if position \<ge> length valids then False
      else if \<not> valids ! position then False
      else True)"

section \<open>Byte order\<close>

lemma length_be_bytes [simp]: "length (be_bytes n w) = n"
  by (simp add: be_bytes_def)

lemma be_bytes_Suc: "be_bytes (Suc n) w = be_bytes n (drop_bit 8 w) @ [ucast w]"
proof -
  have "map (\<lambda>i. ucast (drop_bit (8 * (Suc n - 1 - i)) w) :: u8) [0..<n]
      = map (\<lambda>i. ucast (drop_bit (8 * (n - 1 - i)) (drop_bit 8 w))) [0..<n]"
  proof (rule map_cong [OF refl])
    fix i assume "i \<in> set [0..<n]"
    then have "8 * (Suc n - 1 - i) = 8 * (n - 1 - i) + 8" by auto
    then show "(ucast (drop_bit (8 * (Suc n - 1 - i)) w) :: u8) = ucast (drop_bit (8 * (n - 1 - i)) (drop_bit 8 w))"
      by (simp only: drop_bit_drop_bit)
  qed
  then show ?thesis by (simp add: be_bytes_def)
qed

lemma from_be_append: "from_be (bs @ [b]) = push_bit 8 (from_be bs) + ucast b"
  by (simp add: from_be_def)

lemma byte_join: "push_bit 8 (take_bit n (drop_bit 8 w)) + ucast (ucast w :: u8) = (take_bit (8 + n) w :: u256)"
proof -
  have "push_bit 8 (take_bit n (drop_bit 8 w)) + ucast (ucast w :: u8)
      = or (push_bit 8 (take_bit n (drop_bit 8 w))) (ucast (ucast w :: u8))"
    by (rule disjunctive_add_eq_or) (auto intro!: bit_word_eqI simp: bit_simps)
  also have "\<dots> = take_bit (8 + n) w"
    by (auto intro!: bit_word_eqI simp: bit_simps)
  finally show ?thesis .
qed

lemma from_be_be_bytes: "from_be (be_bytes n w) = take_bit (8 * n) w"
proof (induction n arbitrary: w)
  case 0
  show ?case by (simp add: from_be_def be_bytes_def)
next
  case (Suc n)
  show ?case by (simp add: be_bytes_Suc from_be_append Suc byte_join)
qed

lemma from_be_be_bytes_32 [simp]: "from_be (be_bytes 32 w) = w"
  by (simp add: from_be_be_bytes take_bit_word_eq_self)

text \<open>The same conversions on integers, for evaluation.\<close>

lemma from_be_code [code]: "from_be bs = word_of_int (foldl (\<lambda>acc b. acc * 256 + uint b) 0 bs)"
proof -
  have "foldl (\<lambda>acc b. push_bit 8 acc + ucast b) (word_of_int k) bs
      = (word_of_int (foldl (\<lambda>acc b. acc * 256 + uint b) k bs) :: u256)" for k
  proof (induction bs arbitrary: k)
    case (Cons b bs)
    have "push_bit 8 (word_of_int k) + ucast b = (word_of_int (k * 256 + uint b) :: u256)"
      by (simp add: push_bit_eq_mult mult.commute unsigned_of_nat)
    then show ?case using Cons [of "k * 256 + uint b"] by simp
  qed simp
  from this [of 0] show ?thesis by (simp add: from_be_def)
qed

lemma be_bytes_code [code]:
  "be_bytes n w = map (\<lambda>i. word_of_int (uint w div 2 ^ (8 * (n - 1 - i)))) [0..<n]"
proof -
  have "ucast (drop_bit k w) = (word_of_int (uint w div 2 ^ k) :: u8)" for k
    unfolding uint_drop_bit [symmetric] by simp
  then show ?thesis by (simp only: be_bytes_def)
qed

section \<open>Memory as a total map from addresses to bytes\<close>

definition mem_byte :: "Memory \<Rightarrow> nat \<Rightarrow> u8" where
  "mem_byte m i = (if i < length (mem_data m) then mem_data m ! i else 0)"

lemma get_loop_spec:
  assumes "length ret = sz" "index \<le> sz" "\<forall>i. index \<le> i \<and> i < sz \<longrightarrow> ret ! i = 0"
  shows "get_loop d offset sz index ret
    = take index ret @ map (\<lambda>i. if offset + i < length d then d ! (offset + i) else 0) [index..<sz]"
  using assms
proof (induction d offset sz index ret rule: get_loop.induct)
  case (1 d offset sz index ret)
  consider "index = sz" | "index < sz" "offset + index \<ge> length d" | "index < sz" "offset + index < length d"
    using 1(3) by linarith
  then show ?case
  proof cases
    case 1
    then show ?thesis using \<open>length ret = sz\<close> by (simp add: get_loop.simps [of _ _ sz])
  next
    case 2
    have "ret = take index ret @ replicate (sz - index) 0"
      using 1(2-4) by (intro nth_equalityI) (auto simp: nth_append)
    moreover have "map (\<lambda>i. if offset + i < length d then d ! (offset + i) else 0) [index..<sz] = replicate (sz - index) 0"
      using 2 by (intro nth_equalityI) auto
    ultimately show ?thesis using 2 by (simp add: get_loop.simps [of _ _ sz])
  next
    case 3
    have "get_loop d offset sz index ret = get_loop d offset sz (index + 1) (ret[index := d ! (offset + index)])"
      using 3 by (simp add: get_loop.simps [of _ _ sz index])
    also have "\<dots> = take (index + 1) (ret[index := d ! (offset + index)])
        @ map (\<lambda>i. if offset + i < length d then d ! (offset + i) else 0) [index + 1..<sz]"
      using 3 1(2-4) by (intro 1(1)) auto
    also have "\<dots> = take index ret @ map (\<lambda>i. if offset + i < length d then d ! (offset + i) else 0) [index..<sz]"
      using 3 1(2) by (simp add: take_Suc_conv_app_nth upt_conv_Cons)
    finally show ?thesis .
  qed
qed

lemma Memory_get_bytes: "Memory_get offset sz m = map (\<lambda>i. mem_byte m (offset + i)) [0..<sz]"
  by (simp add: Memory_get_def get_loop_spec mem_byte_def)

lemma length_Memory_get [simp]: "length (Memory_get offset sz m) = sz"
  by (simp add: Memory_get_bytes)

lemma length_resize_bytes [simp]: "length (resize_bytes n d) = n"
  by (simp add: resize_bytes_def)

lemma length_write_bytes [simp]: "offset + length bs \<le> length d \<Longrightarrow> length (write_bytes offset bs d) = length d"
  by (simp add: write_bytes_def)

lemma nth_write_bytes:
  "offset + length bs \<le> length d \<Longrightarrow> i < length d \<Longrightarrow>
   write_bytes offset bs d ! i = (if offset \<le> i \<and> i < offset + length bs then bs ! (i - offset) else d ! i)"
  by (auto simp: write_bytes_def nth_append min_def)

lemma Memory_set_cases:
  "Memory_set offset val tsize m =
     (let n = (case tsize of Some n \<Rightarrow> n | None \<Rightarrow> length val)
      in if n = 0 then Inr m
         else if offset + n > USIZE_MAX \<or> offset + n > mem_limit m then Inl NotSupported
         else Inr (m\<lparr>mem_data := map (\<lambda>i.
                if offset \<le> i \<and> i < offset + n
                then (if i - offset < length val then val ! (i - offset) else 0) else mem_byte m i)
              [0..<max (length (mem_data m)) (offset + n)]\<rparr>))"
proof -
  define n where "n = (case tsize of Some n \<Rightarrow> n | None \<Rightarrow> length val)"
  define d where "d = (if length (mem_data m) < offset + n then resize_bytes (offset + n) (mem_data m) else mem_data m)"
  have len: "length d = max (length (mem_data m)) (offset + n)" by (simp add: d_def)
  have nth: "d ! i = mem_byte m i" if "i < length d" for i
    using that by (auto simp: d_def mem_byte_def resize_bytes_def nth_append)
  have "(if n > length val
           then write_bytes (offset + length val) (replicate (n - length val) 0) (write_bytes offset val d)
           else write_bytes offset (take n val) d)
        = map (\<lambda>i. if offset \<le> i \<and> i < offset + n
                then (if i - offset < length val then val ! (i - offset) else 0) else mem_byte m i)
              [0..<max (length (mem_data m)) (offset + n)]"
    using len nth by (intro nth_equalityI) (auto simp: nth_write_bytes)
  then show ?thesis
    by (simp add: Memory_set_def Let_def usize_checked_add_def flip: n_def d_def)
qed

lemma Memory_set_byte:
  "Memory_set offset val (Some n) m = Inr m' \<Longrightarrow>
   mem_byte m' i = (if offset \<le> i \<and> i < offset + n
     then (if i - offset < length val then val ! (i - offset) else 0) else mem_byte m i)"
  by (auto simp: Memory_set_cases Let_def mem_byte_def split: if_splits)

text \<open>The address space is bounded and the effective length is a whole number of words.\<close>

definition memory_ok :: "Memory \<Rightarrow> bool" where
  "memory_ok m \<longleftrightarrow> length (mem_data m) \<le> mem_limit m \<and> 32 dvd unat (mem_effective_len m)"

definition stack_ok :: "Stack \<Rightarrow> bool" where
  "stack_ok s \<longleftrightarrow> length (stack_data s) \<le> stack_limit s"

lemma uint_ucast_u32: "uint (ucast (r :: u32) :: u256) = uint r"
  by (simp add: unsigned_ucast_eq take_bit_int_eq_self_iff) (use uint_lt2p [of r] in simp)

lemma len_256: "LENGTH(256) = 256"
  by simp

lemma uint_word_of_int_256: "0 \<le> k \<Longrightarrow> k < 2 ^ 256 \<Longrightarrow> uint (word_of_int k :: u256) = k"
  by (simp add: uint_word_of_int)

lemma mod_32_cancel: "k mod 2 ^ 32 mod 32 = k mod (32 :: int)"
  by (rule mod_mod_cancel) simp

lemma round_up_32: "k + (- k) mod 32 = (k + 31) div 32 * (32 :: int)"
proof -
  have "(- k) div 32 = - ((k + 31) div 32)"
  proof (rule int_div_pos_eq)
    show "- k = 32 * - ((k + 31) div 32) + (31 - (k + 31) mod 32)"
      using div_mult_mod_eq [of "k + 31" 32] by linarith
  qed (use pos_mod_bound [of 32 "k + 31"] pos_mod_sign [of 32 "k + 31"] in linarith)+
  then show ?thesis using div_mult_mod_eq [of "- k" 32] by linarith
qed

lemma next_multiple_of_32_spec:
  "next_multiple_of_32 x =
     (if (uint x + 31) div 32 * 32 < 2 ^ 256 then Some (word_of_int ((uint x + 31) div 32 * 32)) else None)"
proof -
  define r where "r = and (not (and (ucast x :: u32) 31) + 1) 31"
  have m: "(31 :: u32) = mask 5" by (simp add: mask_eq_exp_minus_1)
  have "r = take_bit 5 (- take_bit 5 (ucast x :: u32))"
    unfolding r_def m take_bit_eq_mask [symmetric] by (simp only: minus_eq_not_plus_1)
  then have "uint r = uint (- take_bit 5 (ucast x :: u32)) mod 32"
    by (simp only: unsigned_take_bit_eq) (simp add: take_bit_eq_mod)
  moreover have "uint (- take_bit 5 (ucast x :: u32)) = (- uint (take_bit 5 (ucast x :: u32))) mod 2 ^ 32"
    by (simp only: uint_word_ariths) simp
  moreover have "uint (take_bit 5 (ucast x :: u32)) = uint (ucast x :: u32) mod 32"
    by (simp only: unsigned_take_bit_eq) (simp add: take_bit_eq_mod)
  moreover have "uint (ucast x :: u32) = uint x mod 2 ^ 32"
    by (simp only: unsigned_ucast_eq take_bit_eq_mod) simp
  ultimately have r: "uint r = (- uint x) mod 32" by (simp only: mod_32_cancel mod_minus_eq)
  have sum: "uint x + uint r = (uint x + 31) div 32 * 32" unfolding r by (rule round_up_32)
  have "next_multiple_of_32 x = checked_add x (ucast r)" by (simp add: next_multiple_of_32_def r_def)
  moreover have "x + ucast r = word_of_int (uint x + uint r)"
    by (simp only: word_uint_eq_iff uint_word_of_int uint_word_ariths uint_ucast_u32)
  ultimately show ?thesis
    by (simp only: checked_add_code uint_ucast_u32 sum len_256)
qed

lemma next_multiple_of_32_dvd: "next_multiple_of_32 x = Some y \<Longrightarrow> 32 dvd unat y"
proof -
  assume "next_multiple_of_32 x = Some y"
  then have y: "y = word_of_int ((uint x + 31) div 32 * 32)" "(uint x + 31) div 32 * 32 < 2 ^ 256"
    by (simp_all add: next_multiple_of_32_spec split: if_splits)
  moreover have "0 \<le> (uint x + 31) div 32 * 32"
    using uint_lt_256(1) [of x] by (simp add: pos_imp_zdiv_nonneg_iff)
  ultimately have "uint y = (uint x + 31) div 32 * 32" by (simp only: uint_word_of_int_256)
  then have "32 dvd uint y" by (simp only: dvd_triv_right)
  then have "int 32 dvd int (unat y)" by simp
  then show ?thesis by (simp only: of_nat_dvd_iff)
qed

lemma memory_ok_new [simp]: "memory_ok (Memory_new limit)"
  by (simp add: memory_ok_def Memory_new_def)

lemma memory_ok_resize [intro]: "memory_ok m \<Longrightarrow> resize_offset offset len m = Inr m' \<Longrightarrow> memory_ok m'"
  by (auto simp: memory_ok_def resize_offset_def resize_end_def next_multiple_of_32_dvd
      split: if_splits option.splits)

lemma memory_ok_set [intro]: "memory_ok m \<Longrightarrow> Memory_set offset val tsize m = Inr m' \<Longrightarrow> memory_ok m'"
  by (auto simp: memory_ok_def Memory_set_cases Let_def split: if_splits)

lemma memory_ok_copy_large [intro]:
  "memory_ok m \<Longrightarrow> copy_large memory_offset data_offset len d m = Inr m' \<Longrightarrow> memory_ok m'"
  by (auto simp: copy_large_def Let_def split: if_splits)

lemma stack_ok_new [simp]: "stack_ok (Stack_new limit)"
  by (simp add: stack_ok_def Stack_new_def)

lemma stack_ok_pop [intro]: "stack_ok s \<Longrightarrow> Stack_pop s = Inr (v, s') \<Longrightarrow> stack_ok s'"
  by (auto simp: stack_ok_def Stack_pop_def split: if_splits)

lemma stack_ok_push [intro]: "stack_ok s \<Longrightarrow> Stack_push v s = Inr s' \<Longrightarrow> stack_ok s'"
  by (auto simp: stack_ok_def Stack_push_def split: if_splits)

lemma stack_ok_set [intro]: "stack_ok s \<Longrightarrow> Stack_set n v s = Inr s' \<Longrightarrow> stack_ok s'"
  by (auto simp: stack_ok_def Stack_set_def split: if_splits)

section \<open>Instruction boundaries\<close>

text \<open>The positions at which an instruction starts when the code is read from a given one, the end included.\<close>

definition push_width :: "Opcode \<Rightarrow> nat" where
  "push_width opcode = (case is_push opcode of Some v \<Rightarrow> unat v | None \<Rightarrow> 0)"

inductive boundary_from :: "u8 list \<Rightarrow> nat \<Rightarrow> nat \<Rightarrow> bool" for code start where
  boundary_start: "boundary_from code start start"
| boundary_next: "boundary_from code start i \<Longrightarrow> i < length code \<Longrightarrow>
    boundary_from code start (Suc (i + push_width (code ! i)))"

abbreviation boundary :: "u8 list \<Rightarrow> nat \<Rightarrow> bool" where
  "boundary code p \<equiv> boundary_from code 0 p"

inductive_cases boundary_fromE: "boundary_from code start p"

lemma push_width_JUMPDEST [simp]: "push_width OP_JUMPDEST = 0"
  by (simp add: push_width_def is_push_def)

lemma boundary_from_trans:
  "boundary_from code j p \<Longrightarrow> boundary_from code i j \<Longrightarrow> boundary_from code i p"
  by (induction rule: boundary_from.induct) (auto intro: boundary_from.intros)

lemma boundary_from_unfold:
  "boundary_from code i p \<longleftrightarrow> p = i \<or> i < length code \<and> boundary_from code (Suc (i + push_width (code ! i))) p"
proof
  assume "boundary_from code i p"
  then show "p = i \<or> i < length code \<and> boundary_from code (Suc (i + push_width (code ! i))) p"
    by induction (auto intro: boundary_from.intros)
next
  assume "p = i \<or> i < length code \<and> boundary_from code (Suc (i + push_width (code ! i))) p"
  then show "boundary_from code i p"
    by (auto intro: boundary_from.intros boundary_from_trans)
qed

lemma valids_loop_step:
  "i < length code \<Longrightarrow> valids_loop code i valids =
     valids_loop code (Suc (i + push_width (code ! i))) (if code ! i = OP_JUMPDEST then valids[i := True] else valids)"
  by (simp add: valids_loop.simps [of code i] Let_def push_width_def is_push_def)

lemma length_valids_loop [simp]: "length (valids_loop code i valids) = length valids"
  by (induction code i valids rule: valids_loop.induct)
    (subst valids_loop.simps, auto simp: Let_def split: option.split)

lemma valids_loop_nth:
  "length valids = length code \<Longrightarrow> p < length code \<Longrightarrow>
   valids_loop code i valids ! p \<longleftrightarrow> valids ! p \<or> boundary_from code i p \<and> code ! p = OP_JUMPDEST"
proof (induction "length code - i" arbitrary: i valids rule: less_induct)
  case less
  show ?case
  proof (cases "i < length code")
    case True
    let ?v = "if code ! i = OP_JUMPDEST then valids[i := True] else valids"
    have "valids_loop code i valids ! p
        \<longleftrightarrow> ?v ! p \<or> boundary_from code (Suc (i + push_width (code ! i))) p \<and> code ! p = OP_JUMPDEST"
      unfolding valids_loop_step [OF True] using True less.prems by (intro less.hyps) auto
    also have "\<dots> \<longleftrightarrow> valids ! p \<or> boundary_from code i p \<and> code ! p = OP_JUMPDEST"
      using True less.prems by (auto simp: boundary_from_unfold [of code i] nth_list_update)
    finally show ?thesis .
  next
    case False
    then show ?thesis using less.prems by (auto simp: valids_loop.simps [of code i] boundary_from_unfold [of code i])
  qed
qed

text \<open>C35: The jump map is exact.  \<open>Valids::new\<close> followed by \<open>is_valid\<close> accepts a position if and only if it holds
  a \<open>JUMPDEST\<close> byte at which an instruction starts when the code is read from its beginning; a \<open>JUMPDEST\<close>
  byte inside the immediate data of a push, and a position beyond the code, are refused.
\<close>

theorem valids_exact:
  "is_valid (Valids_new code) p \<longleftrightarrow> p < length code \<and> code ! p = OP_JUMPDEST \<and> boundary code p"
  by (cases "p < length code") (auto simp: is_valid_def Valids_new_def valids_loop_nth)

end
