(* ===== verification/Evm_Gasometer.thy ===== *)
theory Evm_Gasometer
  imports Evm_Memory
begin

text \<open>
  Gas metering of the EVM: hard-fork configurations (\<open>crates/chase-evm/runtime/src/lib.rs\<close>), cost functions
  (\<open>gasometer/src/costs.rs\<close>, \<open>gasometer/src/memory.rs\<close>, \<open>gasometer/src/utils.rs\<close>), the static and dynamic
  cost of an opcode, and the gasometer itself (\<open>gasometer/src/lib.rs\<close>).  A \<open>u64\<close> or \<open>i64\<close> is a 64-bit word
  and its operators wrap around, as in a release build; the theorems show for which configurations and gas limits this
  does not happen.  The handler that the cost of an opcode asks about accounts and slots is a parameter:
  its state and methods are not known here.  \<^const>\<open>None\<close> is a panic.
\<close>

section \<open>Hard-fork configurations\<close>

record Config =
  cfg_gas_ext_code :: u64
  cfg_gas_ext_code_hash :: u64
  cfg_gas_sstore_set :: u64
  cfg_gas_sstore_reset :: u64
  cfg_refund_sstore_clears :: u64
  cfg_max_refund_quotient :: u64
  cfg_gas_balance :: u64
  cfg_gas_sload :: u64
  cfg_gas_sload_cold :: u64
  cfg_gas_suicide :: u64
  cfg_gas_suicide_new_account :: u64
  cfg_gas_call :: u64
  cfg_gas_expbyte :: u64
  cfg_gas_transaction_create :: u64
  cfg_gas_transaction_call :: u64
  cfg_gas_transaction_zero_data :: u64
  cfg_gas_transaction_non_zero_data :: u64
  cfg_gas_access_list_address :: u64
  cfg_gas_access_list_storage_key :: u64
  cfg_gas_account_access_cold :: u64
  cfg_gas_storage_read_warm :: u64
  cfg_sstore_gas_metering :: bool
  cfg_sstore_revert_under_stipend :: bool
  cfg_increase_state_access_gas :: bool
  cfg_decrease_clears_refund :: bool
  cfg_disallow_executable_format :: bool
  cfg_warm_coinbase_address :: bool
  cfg_err_on_call_with_more_gas :: bool
  cfg_call_l64_after_gas :: bool
  cfg_empty_considered_exists :: bool
  cfg_create_increase_nonce :: bool
  cfg_stack_limit :: nat
  cfg_memory_limit :: nat
  cfg_call_stack_limit :: nat
  cfg_create_contract_limit :: "nat option"
  cfg_max_initcode_size :: "nat option"
  cfg_call_stipend :: u64
  cfg_has_delegate_call :: bool
  cfg_has_create2 :: bool
  cfg_has_revert :: bool
  cfg_has_return_data :: bool
  cfg_has_bitwise_shifting :: bool
  cfg_has_chain_id :: bool
  cfg_has_self_balance :: bool
  cfg_has_ext_code_hash :: bool
  cfg_has_base_fee :: bool
  cfg_has_push0 :: bool
  cfg_estimate :: bool

definition frontier :: Config where
  "frontier =
     \<lparr>cfg_gas_ext_code = 20, cfg_gas_ext_code_hash = 20, cfg_gas_sstore_set = 20000, cfg_gas_sstore_reset =
      5000, cfg_refund_sstore_clears = 15000, cfg_max_refund_quotient = 2, cfg_gas_balance = 20, cfg_gas_sload
      = 50, cfg_gas_sload_cold = 0, cfg_gas_suicide = 0, cfg_gas_suicide_new_account = 0, cfg_gas_call = 40,
      cfg_gas_expbyte = 10, cfg_gas_transaction_create = 21000, cfg_gas_transaction_call = 21000,
      cfg_gas_transaction_zero_data = 4, cfg_gas_transaction_non_zero_data = 68, cfg_gas_access_list_address =
      0, cfg_gas_access_list_storage_key = 0, cfg_gas_account_access_cold = 0, cfg_gas_storage_read_warm = 0,
      cfg_sstore_gas_metering = False, cfg_sstore_revert_under_stipend = False, cfg_increase_state_access_gas
      = False, cfg_decrease_clears_refund = False, cfg_disallow_executable_format = False,
      cfg_warm_coinbase_address = False, cfg_err_on_call_with_more_gas = True, cfg_call_l64_after_gas = False,
      cfg_empty_considered_exists = True, cfg_create_increase_nonce = False, cfg_stack_limit = 1024,
      cfg_memory_limit = USIZE_MAX, cfg_call_stack_limit = 1024, cfg_create_contract_limit = None,
      cfg_max_initcode_size = None, cfg_call_stipend = 2300, cfg_has_delegate_call = False, cfg_has_create2 =
      False, cfg_has_revert = False, cfg_has_return_data = False, cfg_has_bitwise_shifting = False,
      cfg_has_chain_id = False, cfg_has_self_balance = False, cfg_has_ext_code_hash = False, cfg_has_base_fee
      = False, cfg_has_push0 = False, cfg_estimate = False\<rparr>"

definition istanbul :: Config where
  "istanbul =
     \<lparr>cfg_gas_ext_code = 700, cfg_gas_ext_code_hash = 700, cfg_gas_sstore_set = 20000, cfg_gas_sstore_reset =
      5000, cfg_refund_sstore_clears = 15000, cfg_max_refund_quotient = 2, cfg_gas_balance = 700,
      cfg_gas_sload = 800, cfg_gas_sload_cold = 0, cfg_gas_suicide = 5000, cfg_gas_suicide_new_account =
      25000, cfg_gas_call = 700, cfg_gas_expbyte = 50, cfg_gas_transaction_create = 53000,
      cfg_gas_transaction_call = 21000, cfg_gas_transaction_zero_data = 4, cfg_gas_transaction_non_zero_data =
      16, cfg_gas_access_list_address = 0, cfg_gas_access_list_storage_key = 0, cfg_gas_account_access_cold =
      0, cfg_gas_storage_read_warm = 0, cfg_sstore_gas_metering = True, cfg_sstore_revert_under_stipend =
      True, cfg_increase_state_access_gas = False, cfg_decrease_clears_refund = False,
      cfg_disallow_executable_format = False, cfg_warm_coinbase_address = False, cfg_err_on_call_with_more_gas
      = False, cfg_call_l64_after_gas = True, cfg_empty_considered_exists = False, cfg_create_increase_nonce =
      True, cfg_stack_limit = 1024, cfg_memory_limit = USIZE_MAX, cfg_call_stack_limit = 1024,
      cfg_create_contract_limit = Some 0x6000, cfg_max_initcode_size = None, cfg_call_stipend = 2300,
      cfg_has_delegate_call = True, cfg_has_create2 = True, cfg_has_revert = True, cfg_has_return_data = True,
      cfg_has_bitwise_shifting = True, cfg_has_chain_id = True, cfg_has_self_balance = True,
      cfg_has_ext_code_hash = True, cfg_has_base_fee = False, cfg_has_push0 = False, cfg_estimate = False\<rparr>"

record DerivedConfigInputs =
  dci_gas_storage_read_warm :: u64
  dci_gas_sload_cold :: u64
  dci_gas_access_list_storage_key :: u64
  dci_decrease_clears_refund :: bool
  dci_has_base_fee :: bool
  dci_has_push0 :: bool
  dci_disallow_executable_format :: bool
  dci_warm_coinbase_address :: bool
  dci_max_initcode_size :: "nat option"

definition config_with_derived_values :: "DerivedConfigInputs \<Rightarrow> Config" where
  "config_with_derived_values inputs =
     (let gas_sload = dci_gas_storage_read_warm inputs;
          gas_sstore_reset = 5000 - dci_gas_sload_cold inputs;
          refund_sstore_clears = (if dci_decrease_clears_refund inputs
            then gas_sstore_reset + dci_gas_access_list_storage_key inputs else 15000);
          max_refund_quotient = (if dci_decrease_clears_refund inputs then 5 else 2)
      in \<lparr>cfg_gas_ext_code = 0, cfg_gas_ext_code_hash = 0, cfg_gas_sstore_set = 20000, cfg_gas_sstore_reset =
      gas_sstore_reset, cfg_refund_sstore_clears = refund_sstore_clears, cfg_max_refund_quotient =
      max_refund_quotient, cfg_gas_balance = 0, cfg_gas_sload = gas_sload, cfg_gas_sload_cold =
      dci_gas_sload_cold inputs, cfg_gas_suicide = 5000, cfg_gas_suicide_new_account = 25000, cfg_gas_call =
      0, cfg_gas_expbyte = 50, cfg_gas_transaction_create = 53000, cfg_gas_transaction_call = 21000,
      cfg_gas_transaction_zero_data = 4, cfg_gas_transaction_non_zero_data = 16, cfg_gas_access_list_address =
      2400, cfg_gas_access_list_storage_key = dci_gas_access_list_storage_key inputs,
      cfg_gas_account_access_cold = 2600, cfg_gas_storage_read_warm = dci_gas_storage_read_warm inputs,
      cfg_sstore_gas_metering = True, cfg_sstore_revert_under_stipend = True, cfg_increase_state_access_gas =
      True, cfg_decrease_clears_refund = dci_decrease_clears_refund inputs, cfg_disallow_executable_format =
      dci_disallow_executable_format inputs, cfg_warm_coinbase_address = dci_warm_coinbase_address inputs,
      cfg_err_on_call_with_more_gas = False, cfg_call_l64_after_gas = True, cfg_empty_considered_exists =
      False, cfg_create_increase_nonce = True, cfg_stack_limit = 1024, cfg_memory_limit = USIZE_MAX,
      cfg_call_stack_limit = 1024, cfg_create_contract_limit = Some 0x6000, cfg_max_initcode_size =
      dci_max_initcode_size inputs, cfg_call_stipend = 2300, cfg_has_delegate_call = True, cfg_has_create2 =
      True, cfg_has_revert = True, cfg_has_return_data = True, cfg_has_bitwise_shifting = True,
      cfg_has_chain_id = True, cfg_has_self_balance = True, cfg_has_ext_code_hash = True, cfg_has_base_fee =
      dci_has_base_fee inputs, cfg_has_push0 = dci_has_push0 inputs, cfg_estimate = False\<rparr>)"


definition DerivedConfigInputs_berlin :: DerivedConfigInputs where
  "DerivedConfigInputs_berlin =
     \<lparr>dci_gas_storage_read_warm = 100, dci_gas_sload_cold = 2100, dci_gas_access_list_storage_key = 1900,
      dci_decrease_clears_refund = False, dci_has_base_fee = False, dci_has_push0 = False,
      dci_disallow_executable_format = False, dci_warm_coinbase_address = False, dci_max_initcode_size = None\<rparr>"

definition DerivedConfigInputs_london :: DerivedConfigInputs where
  "DerivedConfigInputs_london =
     \<lparr>dci_gas_storage_read_warm = 100, dci_gas_sload_cold = 2100, dci_gas_access_list_storage_key = 1900,
      dci_decrease_clears_refund = True, dci_has_base_fee = True, dci_has_push0 = False,
      dci_disallow_executable_format = True, dci_warm_coinbase_address = False, dci_max_initcode_size = None\<rparr>"

definition DerivedConfigInputs_merge :: DerivedConfigInputs where
  "DerivedConfigInputs_merge =
     \<lparr>dci_gas_storage_read_warm = 100, dci_gas_sload_cold = 2100, dci_gas_access_list_storage_key = 1900,
      dci_decrease_clears_refund = True, dci_has_base_fee = True, dci_has_push0 = False,
      dci_disallow_executable_format = True, dci_warm_coinbase_address = False, dci_max_initcode_size = None\<rparr>"

definition DerivedConfigInputs_shanghai :: DerivedConfigInputs where
  "DerivedConfigInputs_shanghai =
     \<lparr>dci_gas_storage_read_warm = 100, dci_gas_sload_cold = 2100, dci_gas_access_list_storage_key = 1900,
      dci_decrease_clears_refund = True, dci_has_base_fee = True, dci_has_push0 = True,
      dci_disallow_executable_format = True, dci_warm_coinbase_address = True,
      dci_max_initcode_size = Some 0xC000\<rparr>"

definition berlin :: Config where
  "berlin = config_with_derived_values DerivedConfigInputs_berlin"

definition london :: Config where
  "london = config_with_derived_values DerivedConfigInputs_london"

definition merge_fork :: Config where
  "merge_fork = config_with_derived_values DerivedConfigInputs_merge"

definition shanghai :: Config where
  "shanghai = config_with_derived_values DerivedConfigInputs_shanghai"

section \<open>Cost constants\<close>

abbreviation G_ZERO :: u64 where "G_ZERO \<equiv> 0"
abbreviation G_BASE :: u64 where "G_BASE \<equiv> 2"
abbreviation G_VERYLOW :: u64 where "G_VERYLOW \<equiv> 3"
abbreviation G_LOW :: u64 where "G_LOW \<equiv> 5"
abbreviation G_MID :: u64 where "G_MID \<equiv> 8"
abbreviation G_HIGH :: u64 where "G_HIGH \<equiv> 10"
abbreviation G_JUMPDEST :: u64 where "G_JUMPDEST \<equiv> 1"
abbreviation R_SUICIDE :: u64 where "R_SUICIDE \<equiv> 24000"
abbreviation G_CREATE :: u64 where "G_CREATE \<equiv> 32000"
abbreviation G_CALLVALUE :: u64 where "G_CALLVALUE \<equiv> 9000"
abbreviation G_NEWACCOUNT :: u64 where "G_NEWACCOUNT \<equiv> 25000"
abbreviation G_EXP :: u64 where "G_EXP \<equiv> 10"
abbreviation G_MEMORY :: u64 where "G_MEMORY \<equiv> 3"
abbreviation G_LOG :: u64 where "G_LOG \<equiv> 375"
abbreviation G_LOGDATA :: u64 where "G_LOGDATA \<equiv> 8"
abbreviation G_LOGTOPIC :: u64 where "G_LOGTOPIC \<equiv> 375"
abbreviation G_SHA3 :: u64 where "G_SHA3 \<equiv> 30"
abbreviation G_SHA3WORD :: u64 where "G_SHA3WORD \<equiv> 6"
abbreviation G_COPY :: u64 where "G_COPY \<equiv> 3"
abbreviation G_BLOCKHASH :: u64 where "G_BLOCKHASH \<equiv> 20"
abbreviation G_CODEDEPOSIT :: u64 where "G_CODEDEPOSIT \<equiv> 200"

section \<open>Cost functions\<close>

definition leading_zeros :: "u64 \<Rightarrow> nat" where
  "leading_zeros w = length (takeWhile (\<lambda>i. \<not> bit w i) (rev [0..<64]))"

definition limb :: "u256 \<Rightarrow> nat \<Rightarrow> u64" where
  "limb v i = ucast (drop_bit (64 * i) v)"

fun log2floor_loop :: "u256 \<Rightarrow> nat list \<Rightarrow> u64 \<Rightarrow> u64" where
  "log2floor_loop v [] l = l"
| "log2floor_loop v (i # is) l =
     (if limb v i = 0 then log2floor_loop v is (l - 64)
      else let l = l - of_nat (leading_zeros (limb v i)) in if l = 0 then l else l - 1)"

definition log2floor :: "u256 \<Rightarrow> u64 option" where
  "log2floor v = (if v = 0 then None else Some (log2floor_loop v [3, 2, 1, 0] 256))"

definition ok_or_out_of_gas :: "'a option \<Rightarrow> ('a \<Rightarrow> ExitError + 'b) \<Rightarrow> ExitError + 'b" where
  "ok_or_out_of_gas r k = (case r of Some v \<Rightarrow> k v | None \<Rightarrow> Inl OutOfGas)"

definition gas_as_u64 :: "u256 \<Rightarrow> ExitError + u64" where
  "gas_as_u64 gas = (if gas > 18446744073709551615 then Inl OutOfGas else Inr (ucast gas))"

text \<open>The number of 32-byte words; the increment of a quotient by 32 cannot overflow.\<close>

definition word_count :: "u256 \<Rightarrow> u256" where
  "word_count len = (let wordd = len div 32; wordr = len mod 32 in if wordr = 0 then wordd else wordd + 1)"

definition call_extra_check :: "u256 \<Rightarrow> u64 \<Rightarrow> Config \<Rightarrow> ExitError + unit" where
  "call_extra_check gas after_gas config =
     (if cfg_err_on_call_with_more_gas config \<and> ucast after_gas < gas then Inl OutOfGas else Inr ())"

definition suicide_refund :: "bool \<Rightarrow> u64" where
  "suicide_refund already_removed = (if already_removed then 0 else R_SUICIDE)"

definition sstore_refund :: "h256 \<Rightarrow> h256 \<Rightarrow> h256 \<Rightarrow> Config \<Rightarrow> u64" where
  "sstore_refund original current new config =
     (if cfg_sstore_gas_metering config then
        if current = new then 0
        else if original = current \<and> new = 0 then cfg_refund_sstore_clears config
        else
          (if original \<noteq> 0 then
             if current = 0 then - cfg_refund_sstore_clears config
             else if new = 0 then cfg_refund_sstore_clears config else 0
           else 0)
          + (if original = new then
               if original = 0 then cfg_gas_sstore_set config - cfg_gas_sload config
               else cfg_gas_sstore_reset config - cfg_gas_sload config
             else 0)
      else if current \<noteq> 0 \<and> new = 0 then cfg_refund_sstore_clears config
      else 0)"

definition create2_cost :: "u256 \<Rightarrow> ExitError + u64" where
  "create2_cost len =
     (let sha_addup_base = len div 32 + (if len mod 32 = 0 then 0 else 1)
      in ok_or_out_of_gas (checked_mul (ucast G_SHA3WORD) sha_addup_base) (\<lambda>sha_addup.
         ok_or_out_of_gas (checked_add (ucast G_CREATE) sha_addup) gas_as_u64))"

definition exp_cost :: "u256 \<Rightarrow> Config \<Rightarrow> (ExitError + u64) option" where
  "exp_cost pw config =
     (if pw = 0 then Some (Inr G_EXP)
      else do {
        l \<leftarrow> log2floor pw;
        Some (ok_or_out_of_gas (checked_mul (ucast (cfg_gas_expbyte config)) (ucast (l div 8 + 1))) (\<lambda>x.
              ok_or_out_of_gas (checked_add (ucast G_EXP) x) gas_as_u64)) })"

definition verylowcopy_cost :: "u256 \<Rightarrow> ExitError + u64" where
  "verylowcopy_cost len =
     ok_or_out_of_gas (checked_mul (ucast G_COPY) (word_count len)) (\<lambda>x.
     ok_or_out_of_gas (checked_add (ucast G_VERYLOW) x) gas_as_u64)"

definition address_access_cost :: "bool \<Rightarrow> u64 \<Rightarrow> Config \<Rightarrow> u64" where
  "address_access_cost is_cold regular_value config =
     (if cfg_increase_state_access_gas config
      then (if is_cold then cfg_gas_account_access_cold config else cfg_gas_storage_read_warm config)
      else regular_value)"

definition extcodecopy_cost :: "u256 \<Rightarrow> bool \<Rightarrow> Config \<Rightarrow> ExitError + u64" where
  "extcodecopy_cost len is_cold config =
     ok_or_out_of_gas (checked_mul (ucast G_COPY) (word_count len)) (\<lambda>x.
     ok_or_out_of_gas (checked_add (ucast (address_access_cost is_cold (cfg_gas_ext_code config) config)) x)
       gas_as_u64)"

definition log_cost :: "u8 \<Rightarrow> u256 \<Rightarrow> ExitError + u64" where
  "log_cost n len =
     ok_or_out_of_gas (checked_mul (ucast G_LOGDATA) len) (\<lambda>x.
     ok_or_out_of_gas (checked_add (ucast G_LOG) x) (\<lambda>y.
     ok_or_out_of_gas (checked_add y (ucast (G_LOGTOPIC * ucast n))) gas_as_u64))"

definition sha3_cost :: "u256 \<Rightarrow> ExitError + u64" where
  "sha3_cost len =
     ok_or_out_of_gas (checked_mul (ucast G_SHA3WORD) (word_count len)) (\<lambda>x.
     ok_or_out_of_gas (checked_add (ucast G_SHA3) x) gas_as_u64)"

definition sload_cost :: "bool \<Rightarrow> Config \<Rightarrow> u64" where
  "sload_cost is_cold config =
     (if cfg_increase_state_access_gas config
      then (if is_cold then cfg_gas_sload_cold config else cfg_gas_storage_read_warm config)
      else cfg_gas_sload config)"

definition sstore_cost :: "h256 \<Rightarrow> h256 \<Rightarrow> h256 \<Rightarrow> u64 \<Rightarrow> bool \<Rightarrow> Config \<Rightarrow> ExitError + u64" where
  "sstore_cost original current new gas is_cold config =
     (let finish = (\<lambda>gas_cost. Inr (if is_cold then gas_cost + cfg_gas_sload_cold config else gas_cost))
      in if cfg_estimate config then finish (cfg_gas_sstore_set config)
         else if cfg_sstore_gas_metering config then
           if cfg_sstore_revert_under_stipend config \<and> gas \<le> cfg_call_stipend config then Inl OutOfGas
           else if new = current then finish (cfg_gas_sload config)
           else if original = current then
             finish (if original = 0 then cfg_gas_sstore_set config else cfg_gas_sstore_reset config)
           else finish (cfg_gas_sload config)
         else if current = 0 \<and> new \<noteq> 0 then finish (cfg_gas_sstore_set config)
         else finish (cfg_gas_sstore_reset config))"

definition suicide_cost :: "u256 \<Rightarrow> bool \<Rightarrow> bool \<Rightarrow> Config \<Rightarrow> u64" where
  "suicide_cost val is_cold target_exists config =
     (let eip161 = \<not> cfg_empty_considered_exists config;
          should_charge_topup = (if eip161 then val \<noteq> 0 \<and> \<not> target_exists else \<not> target_exists);
          suicide_gas_topup = (if should_charge_topup then cfg_gas_suicide_new_account config else 0);
          gas = cfg_gas_suicide config + suicide_gas_topup
      in if cfg_increase_state_access_gas config \<and> is_cold then gas + cfg_gas_account_access_cold config else gas)"

definition xfer_cost :: "bool \<Rightarrow> bool \<Rightarrow> u64" where
  "xfer_cost is_call_or_callcode transfers_value =
     (if is_call_or_callcode \<and> transfers_value then G_CALLVALUE else 0)"

definition new_cost :: "bool \<Rightarrow> bool \<Rightarrow> bool \<Rightarrow> Config \<Rightarrow> u64" where
  "new_cost is_call_or_staticcall new_account transfers_value config =
     (let eip161 = \<not> cfg_empty_considered_exists config
      in if is_call_or_staticcall then
           if eip161 then (if transfers_value \<and> new_account then G_NEWACCOUNT else 0)
           else if new_account then G_NEWACCOUNT else 0
         else 0)"

definition call_cost :: "u256 \<Rightarrow> bool \<Rightarrow> bool \<Rightarrow> bool \<Rightarrow> bool \<Rightarrow> Config \<Rightarrow> u64" where
  "call_cost val is_cold is_call_or_callcode is_call_or_staticcall new_account config =
     (let transfers_value = (val \<noteq> 0)
      in address_access_cost is_cold (cfg_gas_call config) config
         + xfer_cost is_call_or_callcode transfers_value
         + new_cost is_call_or_staticcall new_account transfers_value config)"

definition memory_gas :: "nat \<Rightarrow> ExitError + u64" where
  "memory_gas a =
     (let a = of_nat a
      in ok_or_out_of_gas (checked_mul G_MEMORY a) (\<lambda>x.
         ok_or_out_of_gas (checked_mul a a) (\<lambda>y.
         ok_or_out_of_gas (checked_add x (y div 512)) Inr)))"

section \<open>Costs of opcodes\<close>

datatype GasCost =
    GasZero | GasBase | GasVeryLow | GasLow | GasInvalid Opcode
  | GasExtCodeSize (target_is_cold: bool)
  | GasBalance (target_is_cold: bool)
  | GasBlockHash
  | GasExtCodeHash (target_is_cold: bool)
  | GasCall (cost_value: u256) (cost_gas: u256) (target_is_cold: bool) (target_exists: bool)
  | GasCallCode (cost_value: u256) (cost_gas: u256) (target_is_cold: bool) (target_exists: bool)
  | GasDelegateCall (cost_gas: u256) (target_is_cold: bool) (target_exists: bool)
  | GasStaticCall (cost_gas: u256) (target_is_cold: bool) (target_exists: bool)
  | GasSuicide (cost_value: u256) (target_is_cold: bool) (target_exists: bool) (already_removed: bool)
  | GasSStore (cost_original: h256) (cost_current: h256) (cost_new: h256) (target_is_cold: bool)
  | GasSha3 (cost_len: u256)
  | GasLog (cost_n: u8) (cost_len: u256)
  | GasExtCodeCopy (target_is_cold: bool) (cost_len: u256)
  | GasVeryLowCopy (cost_len: u256)
  | GasExp (cost_power: u256)
  | GasCreate
  | GasCreate2 (cost_len: u256)
  | GasSLoad (target_is_cold: bool)

datatype StorageTarget = NoTarget | TargetAddress h160 | TargetSlot h160 h256

record MemoryCost =
  mcost_offset :: u256
  mcost_len :: u256

definition MemoryCost_join :: "MemoryCost \<Rightarrow> MemoryCost \<Rightarrow> MemoryCost" where
  "MemoryCost_join c other =
     (if mcost_len c = 0 then other
      else if mcost_len other = 0 then c
      else
        let self_end = saturating_add (mcost_offset c) (mcost_len c);
            other_end = saturating_add (mcost_offset other) (mcost_len other)
        in if self_end \<ge> other_end then c else other)"

datatype TransactionCost =
    CallCost (zero_data_len: nat) (non_zero_data_len: nat) (access_list_address_len: nat)
      (access_list_storage_len: nat)
  | CreateCost (zero_data_len: nat) (non_zero_data_len: nat) (access_list_address_len: nat)
      (access_list_storage_len: nat) (initcode_cost: u64)

definition count_access_list :: "(h160 \<times> h256 list) list \<Rightarrow> nat \<times> nat" where
  "count_access_list access_list = (length access_list, sum_list (map (\<lambda>(_, keys). length keys) access_list))"

definition init_code_cost :: "u8 list \<Rightarrow> u64" where
  "init_code_cost d = 2 * ((of_nat (length d) + 31) div 32)"

definition call_transaction_cost :: "u8 list \<Rightarrow> (h160 \<times> h256 list) list \<Rightarrow> TransactionCost" where
  "call_transaction_cost d access_list =
     (let zero_len = length (filter (\<lambda>v. v = 0) d);
          non_zero_len = length d - zero_len;
          (address_len, storage_len) = count_access_list access_list
      in CallCost zero_len non_zero_len address_len storage_len)"

definition create_transaction_cost :: "u8 list \<Rightarrow> (h160 \<times> h256 list) list \<Rightarrow> TransactionCost" where
  "create_transaction_cost d access_list =
     (let zero_len = length (filter (\<lambda>v. v = 0) d);
          non_zero_len = length d - zero_len;
          (address_len, storage_len) = count_access_list access_list
      in CreateCost zero_len non_zero_len address_len storage_len (init_code_cost d))"

definition static_cost_table :: "(Opcode \<times> u64) list" where
  "static_cost_table =
     [(0x00, G_ZERO)]
     @ map (\<lambda>opcode. (opcode, G_BASE))
         [0x36, 0x38, 0x50, 0x58, 0x59, 0x30, 0x32, 0x33, 0x34, 0x41, 0x42, 0x43, 0x44, 0x45, 0x3a, 0x5a]
     @ map (\<lambda>opcode. (opcode, G_VERYLOW))
         [0x01, 0x03, 0x19, 0x10, 0x11, 0x12, 0x13, 0x14, 0x15, 0x16, 0x17, 0x18, 0x1a, 0x35]
     @ map (\<lambda>n. (0x5f + of_nat n, G_VERYLOW)) [1..<33]
     @ map (\<lambda>n. (0x7f + of_nat n, G_VERYLOW)) [1..<17]
     @ map (\<lambda>n. (0x8f + of_nat n, G_VERYLOW)) [1..<17]
     @ map (\<lambda>opcode. (opcode, G_LOW)) [0x02, 0x04, 0x05, 0x06, 0x07, 0x0b]
     @ map (\<lambda>opcode. (opcode, G_MID)) [0x08, 0x09, 0x56]
     @ [(0x57, G_HIGH), (0x5b, G_JUMPDEST)]"

definition static_opcode_cost :: "Opcode \<Rightarrow> u64 option" where
  "static_opcode_cost opcode = map_of static_cost_table opcode"

datatype ExternalOperation = AccountBasicRead | AddressCodeRead h160 | IsEmpty | WriteOperation

record 's Handler =
  h_is_cold :: "h160 \<Rightarrow> h256 option \<Rightarrow> 's \<Rightarrow> (ExitError + bool) \<times> 's"
  h_exists :: "h160 \<Rightarrow> 's \<Rightarrow> bool"
  h_deleted :: "h160 \<Rightarrow> 's \<Rightarrow> bool"
  h_balance :: "h160 \<Rightarrow> 's \<Rightarrow> u256"
  h_storage :: "h160 \<Rightarrow> h256 \<Rightarrow> 's \<Rightarrow> (ExitError + h256) \<times> 's"
  h_original_storage :: "h160 \<Rightarrow> h256 \<Rightarrow> 's \<Rightarrow> (ExitError + h256) \<times> 's"
  h_record_external_operation :: "ExternalOperation \<Rightarrow> 's \<Rightarrow> (ExitError + unit) \<times> 's"

type_synonym ('s, 'a) handler_result = "((ExitError + 'a) \<times> 's) option"

text \<open>The operator \<open>?\<close> on a stack read and on a call of the handler.\<close>

definition peek_or :: "nat \<Rightarrow> Stack \<Rightarrow> 's \<Rightarrow> (h256 \<Rightarrow> ('s, 'a) handler_result) \<Rightarrow> ('s, 'a) handler_result" where
  "peek_or n stack s k = (case Stack_peek n stack of Inl e \<Rightarrow> Some (Inl e, s) | Inr v \<Rightarrow> k v)"

definition ask_or :: "('s \<Rightarrow> (ExitError + 'b) \<times> 's) \<Rightarrow> 's \<Rightarrow> ('b \<Rightarrow> 's \<Rightarrow> ('s, 'a) handler_result)
    \<Rightarrow> ('s, 'a) handler_result" where
  "ask_or f s k = (case f s of (Inl e, s) \<Rightarrow> Some (Inl e, s) | (Inr v, s) \<Rightarrow> k v s)"

text \<open>
  The current and the original value of a slot for the price of \<open>SSTORE\<close>.  With the feature \<open>mvcc\<close> an
  error of the handler is reported as \<open>NotEstimatedYet\<close>, without it the \<open>unwrap\<close> panics.
\<close>

definition slot_or :: "bool \<Rightarrow> ('s \<Rightarrow> (ExitError + h256) \<times> 's) \<Rightarrow> 's \<Rightarrow> (h256 \<Rightarrow> 's \<Rightarrow> ('s, 'a) handler_result)
    \<Rightarrow> ('s, 'a) handler_result" where
  "slot_or mvcc f s k = (case f s of
     (Inr v, s) \<Rightarrow> k v s
   | (Inl e, s) \<Rightarrow> if mvcc then Some (Inl NotEstimatedYet, s) else None)"

definition target_cost :: "'s Handler \<Rightarrow> nat \<Rightarrow> Stack \<Rightarrow> 's \<Rightarrow> (h160 \<Rightarrow> bool \<Rightarrow> 's \<Rightarrow> ('s, 'a) handler_result)
    \<Rightarrow> ('s, 'a) handler_result" where
  "target_cost H n stack s k =
     peek_or n stack s (\<lambda>v. let target = ucast v in ask_or (h_is_cold H target None) s (k target))"

definition exists_or :: "'s Handler \<Rightarrow> h160 \<Rightarrow> 's \<Rightarrow> (bool \<Rightarrow> 's \<Rightarrow> ('s, 'a) handler_result) \<Rightarrow> ('s, 'a) handler_result" where
  "exists_or H target s k =
     ask_or (h_record_external_operation H IsEmpty) s (\<lambda>_ s. k (h_exists H target s) s)"

definition plain :: "GasCost \<Rightarrow> 's \<Rightarrow> ('s, GasCost \<times> StorageTarget) handler_result" where
  "plain c s = Some (Inr (c, NoTarget), s)"

definition opcode_gas_cost :: "bool \<Rightarrow> 's Handler \<Rightarrow> h160 \<Rightarrow> Opcode \<Rightarrow> Stack \<Rightarrow> bool \<Rightarrow> Config \<Rightarrow> 's
    \<Rightarrow> ('s, GasCost \<times> StorageTarget) handler_result" where
  "opcode_gas_cost mvcc H address opcode stack is_static config s =
     (if opcode = 0xf3 then plain GasZero s
      else if opcode = 0x51 \<or> opcode = 0x52 \<or> opcode = 0x53 then plain GasVeryLow s
      else if opcode = 0xfd then plain (if cfg_has_revert config then GasZero else GasInvalid opcode) s
      else if opcode = 0x46 then plain (if cfg_has_chain_id config then GasBase else GasInvalid opcode) s
      else if opcode = 0x1b \<or> opcode = 0x1c \<or> opcode = 0x1d
      then plain (if cfg_has_bitwise_shifting config then GasVeryLow else GasInvalid opcode) s
      else if opcode = 0x47 then plain (if cfg_has_self_balance config then GasLow else GasInvalid opcode) s
      else if opcode = 0x48 then plain (if cfg_has_base_fee config then GasBase else GasInvalid opcode) s
      else if opcode = 0x3b then
        target_cost H 0 stack s (\<lambda>target cold s. Some (Inr (GasExtCodeSize cold, TargetAddress target), s))
      else if opcode = 0x31 then
        target_cost H 0 stack s (\<lambda>target cold s. Some (Inr (GasBalance cold, TargetAddress target), s))
      else if opcode = 0x40 then plain GasBlockHash s
      else if opcode = 0x3f then
        (if cfg_has_ext_code_hash config then
           target_cost H 0 stack s (\<lambda>target cold s. Some (Inr (GasExtCodeHash cold, TargetAddress target), s))
         else plain (GasInvalid opcode) s)
      else if opcode = 0xf2 then
        peek_or 1 stack s (\<lambda>t. let target = ucast t in
        peek_or 2 stack s (\<lambda>val. peek_or 0 stack s (\<lambda>gas.
        ask_or (h_is_cold H target None) s (\<lambda>cold s. exists_or H target s (\<lambda>ex s.
          Some (Inr (GasCallCode val gas cold ex, TargetAddress target), s))))))
      else if opcode = 0xfa then
        peek_or 1 stack s (\<lambda>t. let target = ucast t in
        peek_or 0 stack s (\<lambda>gas.
        ask_or (h_is_cold H target None) s (\<lambda>cold s. exists_or H target s (\<lambda>ex s.
          Some (Inr (GasStaticCall gas cold ex, TargetAddress target), s)))))
      else if opcode = 0x20 then peek_or 1 stack s (\<lambda>len. plain (GasSha3 len) s)
      else if opcode = 0x3c then
        target_cost H 0 stack s (\<lambda>target cold s. peek_or 3 stack s (\<lambda>len.
          Some (Inr (GasExtCodeCopy cold len, TargetAddress target), s)))
      else if opcode = 0x37 \<or> opcode = 0x39 then peek_or 2 stack s (\<lambda>len. plain (GasVeryLowCopy len) s)
      else if opcode = 0x0a then peek_or 1 stack s (\<lambda>pw. plain (GasExp pw) s)
      else if opcode = 0x54 then
        peek_or 0 stack s (\<lambda>index. ask_or (h_is_cold H address (Some index)) s (\<lambda>cold s.
          Some (Inr (GasSLoad cold, TargetSlot address index), s)))
      else if opcode = 0xf4 then
        (if cfg_has_delegate_call config then
           peek_or 1 stack s (\<lambda>t. let target = ucast t in
           peek_or 0 stack s (\<lambda>gas.
           ask_or (h_is_cold H target None) s (\<lambda>cold s. exists_or H target s (\<lambda>ex s.
             Some (Inr (GasDelegateCall gas cold ex, TargetAddress target), s)))))
         else plain (GasInvalid opcode) s)
      else if opcode = 0x3d then plain (if cfg_has_return_data config then GasBase else GasInvalid opcode) s
      else if opcode = 0x3e then
        (if cfg_has_return_data config then peek_or 2 stack s (\<lambda>len. plain (GasVeryLowCopy len) s)
         else plain (GasInvalid opcode) s)
      else if opcode = 0x55 \<and> \<not> is_static then
        peek_or 0 stack s (\<lambda>index. peek_or 1 stack s (\<lambda>val.
        slot_or mvcc (h_original_storage H address index) s (\<lambda>original s.
        slot_or mvcc (h_storage H address index) s (\<lambda>current s.
        ask_or (h_is_cold H address (Some index)) s (\<lambda>cold s.
          Some (Inr (GasSStore original current val cold, TargetSlot address index), s))))))
      else if 0xa0 \<le> opcode \<and> opcode \<le> 0xa4 \<and> \<not> is_static
      then peek_or 1 stack s (\<lambda>len. plain (GasLog (opcode - 0xa0) len) s)
      else if opcode = 0xf0 \<and> \<not> is_static then plain GasCreate s
      else if opcode = 0xf5 \<and> \<not> is_static \<and> cfg_has_create2 config
      then peek_or 2 stack s (\<lambda>len. plain (GasCreate2 len) s)
      else if opcode = 0xff \<and> \<not> is_static then
        peek_or 0 stack s (\<lambda>t. let target = ucast t; val = h_balance H address s in
        ask_or (h_is_cold H target None) s (\<lambda>cold s. exists_or H target s (\<lambda>ex s.
          Some (Inr (GasSuicide val cold ex (h_deleted H address s), TargetAddress target), s))))
      else if opcode = 0xf1 then
        (let charge = peek_or 1 stack s (\<lambda>t. let target = ucast t in
           peek_or 2 stack s (\<lambda>val. peek_or 0 stack s (\<lambda>gas.
           ask_or (h_is_cold H target None) s (\<lambda>cold s. exists_or H target s (\<lambda>ex s.
             Some (Inr (GasCall val gas cold ex, TargetAddress target), s))))))
         in if \<not> is_static then charge
            else peek_or 2 stack s (\<lambda>val. if val = 0 then charge else plain (GasInvalid opcode) s))
      else if opcode = 0x5f \<and> cfg_has_push0 config then plain GasBase s
      else plain (GasInvalid opcode) s)"

definition peek_range :: "nat \<Rightarrow> nat \<Rightarrow> Stack \<Rightarrow> ExitError + MemoryCost" where
  "peek_range i j stack = (case Stack_peek i stack of
     Inl e \<Rightarrow> Inl e
   | Inr offset \<Rightarrow> (case Stack_peek j stack of
       Inl e \<Rightarrow> Inl e
     | Inr len \<Rightarrow> Inr \<lparr>mcost_offset = offset, mcost_len = len\<rparr>))"

definition peek_word :: "u256 \<Rightarrow> Stack \<Rightarrow> ExitError + MemoryCost" where
  "peek_word len stack = (case Stack_peek 0 stack of
     Inl e \<Rightarrow> Inl e | Inr offset \<Rightarrow> Inr \<lparr>mcost_offset = offset, mcost_len = len\<rparr>)"

definition peek_join :: "nat \<Rightarrow> Stack \<Rightarrow> ExitError + MemoryCost" where
  "peek_join i stack = (case peek_range i (i + 1) stack of
     Inl e \<Rightarrow> Inl e
   | Inr c \<Rightarrow> (case peek_range (i + 2) (i + 3) stack of Inl e \<Rightarrow> Inl e | Inr d \<Rightarrow> Inr (MemoryCost_join c d)))"

definition opcode_memory_cost :: "Opcode \<Rightarrow> Stack \<Rightarrow> ExitError + MemoryCost option" where
  "opcode_memory_cost opcode stack =
     (if opcode = 0x20 \<or> opcode = 0xf3 \<or> opcode = 0xfd \<or> 0xa0 \<le> opcode \<and> opcode \<le> 0xa4
      then map_sum id Some (peek_range 0 1 stack)
      else if opcode = 0x39 \<or> opcode = 0x37 \<or> opcode = 0x3e then map_sum id Some (peek_range 0 2 stack)
      else if opcode = 0x3c then map_sum id Some (peek_range 1 3 stack)
      else if opcode = 0x51 \<or> opcode = 0x52 then map_sum id Some (peek_word 32 stack)
      else if opcode = 0x53 then map_sum id Some (peek_word 1 stack)
      else if opcode = 0xf0 \<or> opcode = 0xf5 then map_sum id Some (peek_range 1 2 stack)
      else if opcode = 0xf1 \<or> opcode = 0xf2 then map_sum id Some (peek_join 3 stack)
      else if opcode = 0xf4 \<or> opcode = 0xfa then map_sum id Some (peek_join 2 stack)
      else Inr None)"

definition dynamic_opcode_cost :: "bool \<Rightarrow> 's Handler \<Rightarrow> h160 \<Rightarrow> Opcode \<Rightarrow> Stack \<Rightarrow> bool \<Rightarrow> Config \<Rightarrow> 's
    \<Rightarrow> ('s, GasCost \<times> StorageTarget \<times> MemoryCost option) handler_result" where
  "dynamic_opcode_cost mvcc H address opcode stack is_static config s =
     (case opcode_gas_cost mvcc H address opcode stack is_static config s of
        None \<Rightarrow> None
      | Some (Inl e, s) \<Rightarrow> Some (Inl e, s)
      | Some (Inr (gas_cost, storage_target), s) \<Rightarrow>
          (case opcode_memory_cost opcode stack of
             Inl e \<Rightarrow> Some (Inl e, s)
           | Inr memory_cost \<Rightarrow> Some (Inr (gas_cost, storage_target, memory_cost), s)))"

section \<open>Gasometer\<close>

record Inner =
  inner_memory_gas :: u64
  inner_used_gas :: u64
  inner_refunded_gas :: u64
  inner_config :: Config

record Gasometer =
  gm_gas_limit :: u64
  gm_config :: Config
  gm_inner :: "ExitError + Inner"

definition Gasometer_new :: "u64 \<Rightarrow> Config \<Rightarrow> Gasometer" where
  "Gasometer_new limit config =
     \<lparr>gm_gas_limit = limit, gm_config = config,
      gm_inner = Inr \<lparr>inner_memory_gas = 0, inner_used_gas = 0, inner_refunded_gas = 0, inner_config = config\<rparr>\<rparr>"

definition Inner_memory_gas :: "MemoryCost \<Rightarrow> Inner \<Rightarrow> ExitError + u64" where
  "Inner_memory_gas memory i =
     (if mcost_len memory = 0 then Inr (inner_memory_gas i)
      else ok_or_out_of_gas (checked_add (mcost_offset memory) (mcost_len memory)) (\<lambda>end.
        if \<not> fits_usize end then Inl OutOfGas
        else
          let end = unat end;
              new = (if end mod 32 = 0 then end div 32 else end div 32 + 1)
          in case memory_gas new of Inl e \<Rightarrow> Inl e | Inr g \<Rightarrow> Inr (max (inner_memory_gas i) g)))"

definition extra_check :: "GasCost \<Rightarrow> u64 \<Rightarrow> Inner \<Rightarrow> ExitError + unit" where
  "extra_check cost after_gas i = (case cost of
     GasCall _ gas _ _ \<Rightarrow> call_extra_check gas after_gas (inner_config i)
   | GasCallCode _ gas _ _ \<Rightarrow> call_extra_check gas after_gas (inner_config i)
   | GasDelegateCall gas _ _ \<Rightarrow> call_extra_check gas after_gas (inner_config i)
   | GasStaticCall gas _ _ \<Rightarrow> call_extra_check gas after_gas (inner_config i)
   | _ \<Rightarrow> Inr ())"

definition Inner_gas_cost :: "GasCost \<Rightarrow> u64 \<Rightarrow> Inner \<Rightarrow> (ExitError + u64) option" where
  "Inner_gas_cost cost gas i = (let config = inner_config i in case cost of
     GasCall val _ cold ex \<Rightarrow> Some (Inr (call_cost val cold True True (\<not> ex) config))
   | GasCallCode val _ cold ex \<Rightarrow> Some (Inr (call_cost val cold True False (\<not> ex) config))
   | GasDelegateCall _ cold ex \<Rightarrow> Some (Inr (call_cost 0 cold False False (\<not> ex) config))
   | GasStaticCall _ cold ex \<Rightarrow> Some (Inr (call_cost 0 cold False True (\<not> ex) config))
   | GasSuicide val cold ex _ \<Rightarrow> Some (Inr (suicide_cost val cold ex config))
   | GasSStore original current new cold \<Rightarrow> Some (sstore_cost original current new gas cold config)
   | GasSha3 len \<Rightarrow> Some (sha3_cost len)
   | GasLog n len \<Rightarrow> Some (log_cost n len)
   | GasVeryLowCopy len \<Rightarrow> Some (verylowcopy_cost len)
   | GasExp pw \<Rightarrow> exp_cost pw config
   | GasCreate \<Rightarrow> Some (Inr G_CREATE)
   | GasCreate2 len \<Rightarrow> Some (create2_cost len)
   | GasSLoad cold \<Rightarrow> Some (Inr (sload_cost cold config))
   | GasZero \<Rightarrow> Some (Inr G_ZERO)
   | GasBase \<Rightarrow> Some (Inr G_BASE)
   | GasVeryLow \<Rightarrow> Some (Inr G_VERYLOW)
   | GasLow \<Rightarrow> Some (Inr G_LOW)
   | GasInvalid opcode \<Rightarrow> Some (Inl (InvalidCode opcode))
   | GasExtCodeSize cold \<Rightarrow> Some (Inr (address_access_cost cold (cfg_gas_ext_code config) config))
   | GasExtCodeCopy cold len \<Rightarrow> Some (extcodecopy_cost len cold config)
   | GasBalance cold \<Rightarrow> Some (Inr (address_access_cost cold (cfg_gas_balance config) config))
   | GasBlockHash \<Rightarrow> Some (Inr G_BLOCKHASH)
   | GasExtCodeHash cold \<Rightarrow> Some (Inr (address_access_cost cold (cfg_gas_ext_code_hash config) config)))"

definition gas_refund :: "GasCost \<Rightarrow> Inner \<Rightarrow> u64" where
  "gas_refund cost i = (let config = inner_config i in
     if cfg_estimate config then 0
     else case cost of
         GasSStore original current new _ \<Rightarrow> sstore_refund original current new config
       | GasSuicide _ _ _ removed \<Rightarrow> if \<not> cfg_decrease_clears_refund config then suicide_refund removed else 0
       | _ \<Rightarrow> 0)"

definition Gasometer_gas_cost :: "GasCost \<Rightarrow> u64 \<Rightarrow> Gasometer \<Rightarrow> (ExitError + u64) option" where
  "Gasometer_gas_cost cost gas g = (case gm_inner g of Inr i \<Rightarrow> Inner_gas_cost cost gas i | Inl e \<Rightarrow> Some (Inl e))"

definition gas :: "Gasometer \<Rightarrow> u64" where
  "gas g = (case gm_inner g of Inr i \<Rightarrow> gm_gas_limit g - inner_used_gas i - inner_memory_gas i | Inl _ \<Rightarrow> 0)"

definition total_used_gas :: "Gasometer \<Rightarrow> u64" where
  "total_used_gas g = (case gm_inner g of Inr i \<Rightarrow> inner_used_gas i + inner_memory_gas i | Inl _ \<Rightarrow> gm_gas_limit g)"

definition refunded_gas :: "Gasometer \<Rightarrow> u64" where
  "refunded_gas g = (case gm_inner g of Inr i \<Rightarrow> inner_refunded_gas i | Inl _ \<Rightarrow> 0)"

definition fail :: "Gasometer \<Rightarrow> ExitError \<times> Gasometer" where
  "fail g = (OutOfGas, g\<lparr>gm_inner := Inl OutOfGas\<rparr>)"

definition record_cost :: "u64 \<Rightarrow> Gasometer \<Rightarrow> (ExitError + unit) \<times> Gasometer" where
  "record_cost cost g =
     (let all_gas_cost = total_used_gas g + cost
      in if gm_gas_limit g < all_gas_cost then (Inl OutOfGas, g\<lparr>gm_inner := Inl OutOfGas\<rparr>)
         else case gm_inner g of
             Inl e \<Rightarrow> (Inl e, g)
           | Inr i \<Rightarrow> (Inr (), g\<lparr>gm_inner := Inr (i\<lparr>inner_used_gas := inner_used_gas i + cost\<rparr>)\<rparr>))"

definition record_refund :: "u64 \<Rightarrow> Gasometer \<Rightarrow> (ExitError + unit) \<times> Gasometer" where
  "record_refund refund g = (case gm_inner g of
     Inl e \<Rightarrow> (Inl e, g)
   | Inr i \<Rightarrow> (Inr (), g\<lparr>gm_inner := Inr (i\<lparr>inner_refunded_gas := inner_refunded_gas i + refund\<rparr>)\<rparr>))"

definition record_deposit :: "nat \<Rightarrow> Gasometer \<Rightarrow> (ExitError + unit) \<times> Gasometer" where
  "record_deposit len g = record_cost (of_nat len * G_CODEDEPOSIT) g"

definition record_dynamic_cost :: "GasCost \<Rightarrow> MemoryCost option \<Rightarrow> Gasometer \<Rightarrow> ((ExitError + unit) \<times> Gasometer) option" where
  "record_dynamic_cost cost memory g = (case gm_inner g of
     Inl e \<Rightarrow> Some (Inl e, g)
   | Inr i \<Rightarrow>
       (case (case memory of Some m \<Rightarrow> Inner_memory_gas m i | None \<Rightarrow> Inr (inner_memory_gas i)) of
          Inl e \<Rightarrow> Some (Inl e, g\<lparr>gm_inner := Inl e\<rparr>)
        | Inr mem_gas \<Rightarrow>
            (case Inner_gas_cost cost (gas g) i of
               None \<Rightarrow> None
             | Some (Inl e) \<Rightarrow> Some (Inl e, g\<lparr>gm_inner := Inl e\<rparr>)
             | Some (Inr gas_cost) \<Rightarrow>
                 let refund = gas_refund cost i;
                     used_gas = inner_used_gas i;
                     all_gas_cost = mem_gas + used_gas + gas_cost
                 in if gm_gas_limit g < all_gas_cost then Some (Inl OutOfGas, g\<lparr>gm_inner := Inl OutOfGas\<rparr>)
                    else
                      let after_gas = gm_gas_limit g - all_gas_cost
                      in case extra_check cost after_gas i of
                          Inl e \<Rightarrow> Some (Inl e, g\<lparr>gm_inner := Inl e\<rparr>)
                        | Inr () \<Rightarrow> Some (Inr (), g\<lparr>gm_inner := Inr (i\<lparr>
                            inner_used_gas := inner_used_gas i + gas_cost,
                            inner_memory_gas := mem_gas,
                            inner_refunded_gas := inner_refunded_gas i + refund\<rparr>)\<rparr>))))"

definition record_stipend :: "u64 \<Rightarrow> Gasometer \<Rightarrow> (ExitError + unit) \<times> Gasometer" where
  "record_stipend stipend g = (case gm_inner g of
     Inl e \<Rightarrow> (Inl e, g)
   | Inr i \<Rightarrow> (Inr (), g\<lparr>gm_inner := Inr (i\<lparr>inner_used_gas := inner_used_gas i - stipend\<rparr>)\<rparr>))"

definition transaction_gas :: "TransactionCost \<Rightarrow> Config \<Rightarrow> u64" where
  "transaction_gas cost config = (case cost of
     CallCost zero_len non_zero_len address_len storage_len \<Rightarrow>
       cfg_gas_transaction_call config
       + of_nat zero_len * cfg_gas_transaction_zero_data config
       + of_nat non_zero_len * cfg_gas_transaction_non_zero_data config
       + of_nat address_len * cfg_gas_access_list_address config
       + of_nat storage_len * cfg_gas_access_list_storage_key config
   | CreateCost zero_len non_zero_len address_len storage_len init_cost \<Rightarrow>
       let cost = cfg_gas_transaction_create config
         + of_nat zero_len * cfg_gas_transaction_zero_data config
         + of_nat non_zero_len * cfg_gas_transaction_non_zero_data config
         + of_nat address_len * cfg_gas_access_list_address config
         + of_nat storage_len * cfg_gas_access_list_storage_key config
       in if cfg_max_initcode_size config \<noteq> None then cost + init_cost else cost)"

definition record_transaction :: "TransactionCost \<Rightarrow> Gasometer \<Rightarrow> (ExitError + unit) \<times> Gasometer" where
  "record_transaction cost g =
     (let gas_cost = transaction_gas cost (gm_config g)
      in if gas g < gas_cost then (Inl OutOfGas, g\<lparr>gm_inner := Inl OutOfGas\<rparr>)
         else case gm_inner g of
             Inl e \<Rightarrow> (Inl e, g)
           | Inr i \<Rightarrow> (Inr (), g\<lparr>gm_inner := Inr (i\<lparr>inner_used_gas := inner_used_gas i + gas_cost\<rparr>)\<rparr>))"

end
