(* ===== verification/Evm_Substate.thy ===== *)
theory Evm_Substate
  imports Evm_Gasometer Evm_Storage "HOL-Library.AList"
begin

text \<open>
  The journalled state of the EVM executor (\<open>crates/chase-evm/src/executor/stack/memory.rs\<close>) and the metadata of a call
  frame (\<open>Accessed\<close> and \<open>StackSubstateMetadata\<close> in \<open>executor.rs\<close>).  The chain of boxed parents of a substate is the list
  of its enclosing frames, innermost first.  Ordered maps are association lists with one entry per key, ordered sets are
  sets that are sorted where the code iterates them.  The \<open>Backend\<close> trait is the record of its methods, and \<open>backend_of\<close>
  its implementation by the in-memory backend.  Operations that panic on a root substate return \<open>None\<close> there.
\<close>

section \<open>Backend\<close>

record Backend =
  b_gas_price :: u256
  b_origin :: h160
  b_block_hash :: "u256 \<Rightarrow> h256"
  b_block_number :: u256
  b_block_coinbase :: h160
  b_block_timestamp :: u256
  b_block_difficulty :: u256
  b_block_randomness :: "h256 option"
  b_block_gas_limit :: u256
  b_block_base_fee_per_gas :: u256
  b_chain_id :: u256
  b_exists :: "h160 \<Rightarrow> bool"
  b_basic :: "h160 \<Rightarrow> Basic"
  b_code :: "h160 \<Rightarrow> u8 list"
  b_storage :: "h160 \<Rightarrow> h256 \<Rightarrow> h256"
  b_original_storage :: "h160 \<Rightarrow> h256 \<Rightarrow> h256 option"

definition backend_of :: "MemoryVicinity \<Rightarrow> accounts \<Rightarrow> Backend" where
  "backend_of v A =
     \<lparr>b_gas_price = vic_gas_price v, b_origin = vic_origin v, b_block_hash = block_hash v,
      b_block_number = vic_block_number v, b_block_coinbase = vic_block_coinbase v,
      b_block_timestamp = vic_block_timestamp v, b_block_difficulty = vic_block_difficulty v,
      b_block_randomness = vic_block_randomness v, b_block_gas_limit = vic_block_gas_limit v,
      b_block_base_fee_per_gas = vic_block_base_fee_per_gas v, b_chain_id = vic_chain_id v,
      b_exists = (\<lambda>a. A a \<noteq> None), b_basic = backend_basic A, b_code = backend_code A, b_storage = backend_storage A,
      b_original_storage = (\<lambda>a k. Some (backend_storage A a k))\<rparr>"

section \<open>Accessed and StackSubstateMetadata\<close>

record Accessed =
  accessed_addresses :: "h160 set"
  accessed_storage :: "(h160 \<times> h256) set"

definition Accessed_default :: Accessed where
  "Accessed_default = \<lparr>accessed_addresses = {}, accessed_storage = {}\<rparr>"

definition Accessed_access_address :: "h160 \<Rightarrow> Accessed \<Rightarrow> Accessed" where
  "Accessed_access_address a ac = ac\<lparr>accessed_addresses := insert a (accessed_addresses ac)\<rparr>"

definition Accessed_access_addresses :: "h160 list \<Rightarrow> Accessed \<Rightarrow> Accessed" where
  "Accessed_access_addresses as ac = fold (\<lambda>a ac. ac\<lparr>accessed_addresses := insert a (accessed_addresses ac)\<rparr>) as ac"

definition Accessed_access_storages :: "(h160 \<times> h256) list \<Rightarrow> Accessed \<Rightarrow> Accessed" where
  "Accessed_access_storages ks ac = fold (\<lambda>k ac. ac\<lparr>accessed_storage := insert k (accessed_storage ac)\<rparr>) ks ac"

record StackSubstateMetadata =
  md_gasometer :: Gasometer
  md_is_static :: bool
  md_depth :: "nat option"
  md_accessed :: "Accessed option"

definition StackSubstateMetadata_new :: "u64 \<Rightarrow> Config \<Rightarrow> StackSubstateMetadata" where
  "StackSubstateMetadata_new limit config =
     \<lparr>md_gasometer = Gasometer_new limit config, md_is_static = False, md_depth = None,
      md_accessed = (if cfg_increase_state_access_gas config then Some Accessed_default else None)\<rparr>"

definition swallow_commit :: "StackSubstateMetadata \<Rightarrow> StackSubstateMetadata \<Rightarrow> (ExitError + unit) \<times> StackSubstateMetadata" where
  "swallow_commit other md = (case record_stipend (gas (md_gasometer other)) (md_gasometer md) of
     (Inl e, g) \<Rightarrow> (Inl e, md\<lparr>md_gasometer := g\<rparr>)
   | (Inr _, g) \<Rightarrow> (case record_refund (refunded_gas (md_gasometer other)) g of
       (Inl e, g) \<Rightarrow> (Inl e, md\<lparr>md_gasometer := g\<rparr>)
     | (Inr _, g) \<Rightarrow>
         (Inr (), md\<lparr>md_gasometer := g,
            md_accessed := (case (md_accessed other, md_accessed md) of
              (Some oa, Some sa) \<Rightarrow> Some (sa\<lparr>accessed_addresses := accessed_addresses sa \<union> accessed_addresses oa,
                                             accessed_storage := accessed_storage sa \<union> accessed_storage oa\<rparr>)
            | (_, sa) \<Rightarrow> sa)\<rparr>)))"

definition swallow_revert :: "StackSubstateMetadata \<Rightarrow> StackSubstateMetadata \<Rightarrow> (ExitError + unit) \<times> StackSubstateMetadata" where
  "swallow_revert other md = (case record_stipend (gas (md_gasometer other)) (md_gasometer md) of
     (r, g) \<Rightarrow> (r, md\<lparr>md_gasometer := g\<rparr>))"

definition swallow_discard :: "StackSubstateMetadata \<Rightarrow> StackSubstateMetadata \<Rightarrow> (ExitError + unit) \<times> StackSubstateMetadata" where
  "swallow_discard other md = (Inr (), md)"

definition spit_child :: "u64 \<Rightarrow> bool \<Rightarrow> StackSubstateMetadata \<Rightarrow> StackSubstateMetadata" where
  "spit_child limit is_static md =
     \<lparr>md_gasometer = Gasometer_new limit (gm_config (md_gasometer md)),
      md_is_static = (is_static \<or> md_is_static md),
      md_depth = (case md_depth md of None \<Rightarrow> Some 0 | Some n \<Rightarrow> Some (n + 1)),
      md_accessed = map_option (\<lambda>_. Accessed_default) (md_accessed md)\<rparr>"

definition access_address :: "h160 \<Rightarrow> StackSubstateMetadata \<Rightarrow> StackSubstateMetadata" where
  "access_address a md = md\<lparr>md_accessed := map_option (Accessed_access_address a) (md_accessed md)\<rparr>"

definition access_addresses :: "h160 list \<Rightarrow> StackSubstateMetadata \<Rightarrow> StackSubstateMetadata" where
  "access_addresses as md = md\<lparr>md_accessed := map_option (Accessed_access_addresses as) (md_accessed md)\<rparr>"

definition access_storage :: "h160 \<Rightarrow> h256 \<Rightarrow> StackSubstateMetadata \<Rightarrow> StackSubstateMetadata" where
  "access_storage a k md =
     md\<lparr>md_accessed := map_option (\<lambda>ac. ac\<lparr>accessed_storage := insert (a, k) (accessed_storage ac)\<rparr>) (md_accessed md)\<rparr>"

definition access_storages :: "(h160 \<times> h256) list \<Rightarrow> StackSubstateMetadata \<Rightarrow> StackSubstateMetadata" where
  "access_storages ks md = md\<lparr>md_accessed := map_option (Accessed_access_storages ks) (md_accessed md)\<rparr>"

section \<open>MemoryStackSubstate\<close>

record MemoryStackAccount =
  msa_basic :: Basic
  msa_code :: "u8 list option"
  msa_reset :: bool

record Frame =
  f_metadata :: StackSubstateMetadata
  f_logs :: "Log list"
  f_accounts :: "(h160, MemoryStackAccount) hmap"
  f_storages :: "(h160 \<times> h256, h256) hmap"
  f_deletes :: "h160 set"

record MemoryStackSubstate =
  ms_frame :: Frame
  ms_parents :: "Frame list"

definition Frame_new :: "StackSubstateMetadata \<Rightarrow> Frame" where
  "Frame_new metadata = \<lparr>f_metadata = metadata, f_logs = [], f_accounts = [], f_storages = [], f_deletes = {}\<rparr>"

definition MemoryStackSubstate_new :: "StackSubstateMetadata \<Rightarrow> MemoryStackSubstate" where
  "MemoryStackSubstate_new metadata = \<lparr>ms_frame = Frame_new metadata, ms_parents = []\<rparr>"

definition metadata :: "MemoryStackSubstate \<Rightarrow> StackSubstateMetadata" where
  "metadata s = f_metadata (ms_frame s)"

definition metadata_mut :: "(StackSubstateMetadata \<Rightarrow> StackSubstateMetadata) \<Rightarrow> MemoryStackSubstate \<Rightarrow> MemoryStackSubstate" where
  "metadata_mut f s = s\<lparr>ms_frame := (ms_frame s)\<lparr>f_metadata := f (metadata s)\<rparr>\<rparr>"

definition enter :: "u64 \<Rightarrow> bool \<Rightarrow> MemoryStackSubstate \<Rightarrow> MemoryStackSubstate" where
  "enter limit is_static s =
     \<lparr>ms_frame = Frame_new (spit_child limit is_static (metadata s)), ms_parents = ms_frame s # ms_parents s\<rparr>"

definition reset_addresses :: "(h160, MemoryStackAccount) hmap \<Rightarrow> h160 set" where
  "reset_addresses accounts = fst ` set (filter (\<lambda>(_, account). msa_reset account) accounts)"

definition commit_frame :: "Frame \<Rightarrow> Frame \<Rightarrow> (ExitError + unit) \<times> Frame" where
  "commit_frame exited f = (case swallow_commit (f_metadata exited) (f_metadata f) of
     (Inl e, md) \<Rightarrow> (Inl e, f\<lparr>f_metadata := md\<rparr>)
   | (Inr _, md) \<Rightarrow>
       let resets = reset_addresses (f_accounts exited)
       in (Inr (), f\<lparr>f_metadata := md,
            f_logs := f_logs f @ f_logs exited,
            f_accounts := AList.merge (f_accounts f) (f_accounts exited),
            f_storages := AList.merge (filter (\<lambda>((address, _), _). address \<notin> resets) (f_storages f)) (f_storages exited),
            f_deletes := f_deletes f \<union> f_deletes exited\<rparr>))"

definition exit_commit :: "MemoryStackSubstate \<Rightarrow> ((ExitError + unit) \<times> MemoryStackSubstate) option" where
  "exit_commit s = (case ms_parents s of
     [] \<Rightarrow> None
   | f # fs \<Rightarrow> (case commit_frame (ms_frame s) f of (r, f') \<Rightarrow> Some (r, \<lparr>ms_frame = f', ms_parents = fs\<rparr>)))"

definition exit_revert :: "MemoryStackSubstate \<Rightarrow> ((ExitError + unit) \<times> MemoryStackSubstate) option" where
  "exit_revert s = (case ms_parents s of
     [] \<Rightarrow> None
   | f # fs \<Rightarrow> (case swallow_revert (metadata s) (f_metadata f) of
       (r, md) \<Rightarrow> Some (r, \<lparr>ms_frame = f\<lparr>f_metadata := md\<rparr>, ms_parents = fs\<rparr>)))"

definition exit_discard :: "MemoryStackSubstate \<Rightarrow> ((ExitError + unit) \<times> MemoryStackSubstate) option" where
  "exit_discard s = (case ms_parents s of
     [] \<Rightarrow> None
   | f # fs \<Rightarrow> (case swallow_discard (metadata s) (f_metadata f) of
       (r, md) \<Rightarrow> Some (r, \<lparr>ms_frame = f\<lparr>f_metadata := md\<rparr>, ms_parents = fs\<rparr>)))"

primrec frames_account :: "Frame list \<Rightarrow> h160 \<Rightarrow> MemoryStackAccount option" where
  "frames_account [] address = None"
| "frames_account (f # fs) address = (case map_of (f_accounts f) address of
     Some account \<Rightarrow> Some account
   | None \<Rightarrow> frames_account fs address)"

definition frames :: "MemoryStackSubstate \<Rightarrow> Frame list" where
  "frames s = ms_frame s # ms_parents s"

definition known_account :: "MemoryStackSubstate \<Rightarrow> h160 \<Rightarrow> MemoryStackAccount option" where
  "known_account s = frames_account (frames s)"

definition known_basic :: "MemoryStackSubstate \<Rightarrow> h160 \<Rightarrow> Basic option" where
  "known_basic s address = map_option msa_basic (known_account s address)"

definition known_code :: "MemoryStackSubstate \<Rightarrow> h160 \<Rightarrow> u8 list option" where
  "known_code s address = Option.bind (known_account s address) msa_code"

definition known_empty :: "MemoryStackSubstate \<Rightarrow> h160 \<Rightarrow> bool option" where
  "known_empty s address = (case known_account s address of
     None \<Rightarrow> None
   | Some account \<Rightarrow>
       if balance (msa_basic account) \<noteq> 0 then Some False
       else if nonce (msa_basic account) \<noteq> 0 then Some False
       else case msa_code account of
           Some code \<Rightarrow> Some (balance (msa_basic account) = 0 \<and> nonce (msa_basic account) = 0 \<and> code = [])
         | None \<Rightarrow> None)"

primrec frames_storage :: "Frame list \<Rightarrow> h160 \<Rightarrow> h256 \<Rightarrow> h256 option" where
  "frames_storage [] address key = None"
| "frames_storage (f # fs) address key = (case map_of (f_storages f) (address, key) of
     Some v \<Rightarrow> Some v
   | None \<Rightarrow> (case map_of (f_accounts f) address of
       Some account \<Rightarrow> if msa_reset account then Some 0 else frames_storage fs address key
     | None \<Rightarrow> frames_storage fs address key))"

definition known_storage :: "MemoryStackSubstate \<Rightarrow> h160 \<Rightarrow> h256 \<Rightarrow> h256 option" where
  "known_storage s = frames_storage (frames s)"

primrec frames_original_storage :: "Frame list \<Rightarrow> h160 \<Rightarrow> h256 option" where
  "frames_original_storage [] address = None"
| "frames_original_storage (f # fs) address = (case map_of (f_accounts f) address of
     Some account \<Rightarrow> if msa_reset account then Some 0 else frames_original_storage fs address
   | None \<Rightarrow> frames_original_storage fs address)"

definition known_original_storage :: "MemoryStackSubstate \<Rightarrow> h160 \<Rightarrow> h256 option" where
  "known_original_storage s = frames_original_storage (frames s)"

primrec recursive_is_cold :: "(Accessed \<Rightarrow> bool) \<Rightarrow> Frame list \<Rightarrow> bool" where
  "recursive_is_cold p [] = True"
| "recursive_is_cold p (f # fs) =
     (if (case md_accessed (f_metadata f) of Some ac \<Rightarrow> p ac | None \<Rightarrow> False) then False else recursive_is_cold p fs)"

definition is_cold :: "MemoryStackSubstate \<Rightarrow> h160 \<Rightarrow> bool" where
  "is_cold s address = recursive_is_cold (\<lambda>ac. address \<in> accessed_addresses ac) (frames s)"

definition is_storage_cold :: "MemoryStackSubstate \<Rightarrow> h160 \<Rightarrow> h256 \<Rightarrow> bool" where
  "is_storage_cold s address key = recursive_is_cold (\<lambda>ac. (address, key) \<in> accessed_storage ac) (frames s)"

primrec frames_deleted :: "Frame list \<Rightarrow> h160 \<Rightarrow> bool" where
  "frames_deleted [] address = False"
| "frames_deleted (f # fs) address = (if address \<in> f_deletes f then True else frames_deleted fs address)"

definition deleted :: "MemoryStackSubstate \<Rightarrow> h160 \<Rightarrow> bool" where
  "deleted s = frames_deleted (frames s)"

text \<open>
  \<open>account_mut\<close> returns the account and the substate in which the innermost frame has an entry for it; a write through
  the returned reference is \<open>put_account\<close>.
\<close>

definition put_account :: "h160 \<Rightarrow> MemoryStackAccount \<Rightarrow> MemoryStackSubstate \<Rightarrow> MemoryStackSubstate" where
  "put_account address account s =
     s\<lparr>ms_frame := (ms_frame s)\<lparr>f_accounts := AList.update address account (f_accounts (ms_frame s))\<rparr>\<rparr>"

definition account_mut :: "Backend \<Rightarrow> h160 \<Rightarrow> MemoryStackSubstate \<Rightarrow> MemoryStackAccount \<times> MemoryStackSubstate" where
  "account_mut B address s = (case map_of (f_accounts (ms_frame s)) address of
     Some account \<Rightarrow> (account, s)
   | None \<Rightarrow>
       let account = (case known_account s address of
             Some v \<Rightarrow> v\<lparr>msa_reset := False\<rparr>
           | None \<Rightarrow> \<lparr>msa_basic = b_basic B address, msa_code = None, msa_reset = False\<rparr>)
       in (account, put_account address account s))"

definition inc_nonce :: "Backend \<Rightarrow> h160 \<Rightarrow> MemoryStackSubstate \<Rightarrow> (ExitError + unit) \<times> MemoryStackSubstate" where
  "inc_nonce B address s = (case account_mut B address s of (account, s) \<Rightarrow>
     if 2 ^ 64 - 1 \<le> nonce (msa_basic account) then (Inl MaxNonce, s)
     else (Inr (), put_account address
            (account\<lparr>msa_basic := (msa_basic account)\<lparr>nonce := nonce (msa_basic account) + 1\<rparr>\<rparr>) s))"

definition set_storage :: "h160 \<Rightarrow> h256 \<Rightarrow> h256 \<Rightarrow> MemoryStackSubstate \<Rightarrow> MemoryStackSubstate" where
  "set_storage address key v s =
     s\<lparr>ms_frame := (ms_frame s)\<lparr>f_storages := AList.update (address, key) v (f_storages (ms_frame s))\<rparr>\<rparr>"

definition reset_storage :: "Backend \<Rightarrow> h160 \<Rightarrow> MemoryStackSubstate \<Rightarrow> MemoryStackSubstate" where
  "reset_storage B address s =
     (let removing = map (\<lambda>((_, ok), _). ok) (filter (\<lambda>((oa, _), _). oa = address) (f_storages (ms_frame s)));
          s = s\<lparr>ms_frame := (ms_frame s)\<lparr>
                f_storages := fold (\<lambda>ok. AList.delete (address, ok)) removing (f_storages (ms_frame s))\<rparr>\<rparr>
      in case account_mut B address s of (account, s) \<Rightarrow> put_account address (account\<lparr>msa_reset := True\<rparr>) s)"

definition log_event :: "h160 \<Rightarrow> h256 list \<Rightarrow> u8 list \<Rightarrow> MemoryStackSubstate \<Rightarrow> MemoryStackSubstate" where
  "log_event address topics data s =
     s\<lparr>ms_frame := (ms_frame s)\<lparr>
       f_logs := f_logs (ms_frame s) @ [\<lparr>log_address = address, log_topics = topics, log_data = data\<rparr>]\<rparr>\<rparr>"

definition set_deleted :: "h160 \<Rightarrow> MemoryStackSubstate \<Rightarrow> MemoryStackSubstate" where
  "set_deleted address s = s\<lparr>ms_frame := (ms_frame s)\<lparr>f_deletes := insert address (f_deletes (ms_frame s))\<rparr>\<rparr>"

definition set_code :: "Backend \<Rightarrow> h160 \<Rightarrow> u8 list \<Rightarrow> MemoryStackSubstate \<Rightarrow> MemoryStackSubstate" where
  "set_code B address code s =
     (case account_mut B address s of (account, s) \<Rightarrow> put_account address (account\<lparr>msa_code := Some code\<rparr>) s)"

definition set_balance :: "u256 \<Rightarrow> MemoryStackAccount \<Rightarrow> MemoryStackAccount" where
  "set_balance v account = account\<lparr>msa_basic := (msa_basic account)\<lparr>balance := v\<rparr>\<rparr>"

definition withdraw :: "Backend \<Rightarrow> h160 \<Rightarrow> u256 \<Rightarrow> MemoryStackSubstate \<Rightarrow> (ExitError + unit) \<times> MemoryStackSubstate" where
  "withdraw B address v s = (case account_mut B address s of (source, s) \<Rightarrow>
     if balance (msa_basic source) < v then (Inl OutOfFund, s)
     else (Inr (), put_account address (set_balance (balance (msa_basic source) - v) source) s))"

definition deposit :: "Backend \<Rightarrow> h160 \<Rightarrow> u256 \<Rightarrow> MemoryStackSubstate \<Rightarrow> MemoryStackSubstate" where
  "deposit B address v s = (case account_mut B address s of (dest, s) \<Rightarrow>
     put_account address (set_balance (saturating_add (balance (msa_basic dest)) v) dest) s)"

record Transfer =
  tr_source :: h160
  tr_target :: h160
  tr_value :: u256

definition transfer_value :: "Backend \<Rightarrow> Transfer \<Rightarrow> MemoryStackSubstate \<Rightarrow> (ExitError + unit) \<times> MemoryStackSubstate" where
  "transfer_value B t s = (case account_mut B (tr_source t) s of (source, s) \<Rightarrow>
     if balance (msa_basic source) < tr_value t then (Inl OutOfFund, s)
     else
       let s = put_account (tr_source t) (set_balance (balance (msa_basic source) - tr_value t) source) s
       in case account_mut B (tr_target t) s of (dest, s) \<Rightarrow>
         (Inr (), put_account (tr_target t) (set_balance (saturating_add (balance (msa_basic dest)) (tr_value t)) dest) s))"

definition reset_balance :: "Backend \<Rightarrow> h160 \<Rightarrow> MemoryStackSubstate \<Rightarrow> MemoryStackSubstate" where
  "reset_balance B address s =
     (case account_mut B address s of (account, s) \<Rightarrow> put_account address (set_balance 0 account) s)"

definition touch :: "Backend \<Rightarrow> h160 \<Rightarrow> MemoryStackSubstate \<Rightarrow> MemoryStackSubstate" where
  "touch B address s = snd (account_mut B address s)"

fun deconstruct_loop :: "Backend \<Rightarrow> h160 list \<Rightarrow> MemoryStackSubstate \<Rightarrow> Apply list" where
  "deconstruct_loop B [] s = []"
| "deconstruct_loop B (address # addresses) s =
     (if address \<in> f_deletes (ms_frame s) then deconstruct_loop B addresses s
      else
        let slots = map (\<lambda>((_, ok), ov). (ok, ov)) (filter (\<lambda>((oa, _), _). oa = address) (f_storages (ms_frame s)))
        in case account_mut B address s of (account, s) \<Rightarrow>
          Modify address (msa_basic account) (msa_code account) slots (msa_reset account)
            # deconstruct_loop B addresses s)"

definition deconstruct :: "Backend \<Rightarrow> MemoryStackSubstate \<Rightarrow> (Apply list \<times> Log list) option" where
  "deconstruct B s =
     (if ms_parents s \<noteq> [] then None
      else
        let f = ms_frame s;
            addresses = fst ` set (f_accounts f) \<union> (fst \<circ> fst) ` set (f_storages f)
        in Some (deconstruct_loop B (sorted_list_of_set addresses) s @ map Delete (sorted_list_of_set (f_deletes f)),
                 f_logs f))"

section \<open>MemoryStackState\<close>

definition state_exists :: "Backend \<Rightarrow> MemoryStackSubstate \<Rightarrow> h160 \<Rightarrow> bool" where
  "state_exists B s address = (known_account s address \<noteq> None \<or> b_exists B address)"

definition state_basic :: "Backend \<Rightarrow> MemoryStackSubstate \<Rightarrow> h160 \<Rightarrow> Basic" where
  "state_basic B s address = (case known_basic s address of Some b \<Rightarrow> b | None \<Rightarrow> b_basic B address)"

definition state_code :: "Backend \<Rightarrow> MemoryStackSubstate \<Rightarrow> h160 \<Rightarrow> u8 list" where
  "state_code B s address = (case known_code s address of Some code \<Rightarrow> code | None \<Rightarrow> b_code B address)"

definition state_storage :: "Backend \<Rightarrow> MemoryStackSubstate \<Rightarrow> h160 \<Rightarrow> h256 \<Rightarrow> h256" where
  "state_storage B s address key = (case known_storage s address key of Some v \<Rightarrow> v | None \<Rightarrow> b_storage B address key)"

definition state_original_storage :: "Backend \<Rightarrow> MemoryStackSubstate \<Rightarrow> h160 \<Rightarrow> h256 \<Rightarrow> h256 option" where
  "state_original_storage B s address key = (case known_original_storage s address of
     Some v \<Rightarrow> Some v
   | None \<Rightarrow> b_original_storage B address key)"

definition state_is_empty :: "Backend \<Rightarrow> MemoryStackSubstate \<Rightarrow> h160 \<Rightarrow> bool" where
  "state_is_empty B s address = (case known_empty s address of
     Some e \<Rightarrow> e
   | None \<Rightarrow> balance (b_basic B address) = 0 \<and> nonce (b_basic B address) = 0 \<and> length (b_code B address) = 0)"

definition code_size :: "Backend \<Rightarrow> MemoryStackSubstate \<Rightarrow> h160 \<Rightarrow> u256" where
  "code_size B s address = of_nat (length (state_code B s address))"

definition code_hash :: "(u8 list \<Rightarrow> h256) \<Rightarrow> Backend \<Rightarrow> MemoryStackSubstate \<Rightarrow> h160 \<Rightarrow> h256" where
  "code_hash keccak256 B s address = keccak256 (state_code B s address)"

end
