(* ===== verification/Evm_Substate_Props.thy ===== *)
theory Evm_Substate_Props
  imports Evm_Substate
begin

text \<open>
  Correctness of the journalled state of the EVM executor.  A balanced sequence of operations, in which every entered
  frame is left again, never panics and changes no enclosing frame.  Reverting or discarding a frame therefore restores
  the state as it was when the frame was entered, committing it keeps what was read inside, and the changes that a
  finished transaction hands to the backend make the backend show what the transaction saw.
\<close>

section \<open>Balanced sequences of operations\<close>

datatype FrameExit = FrameCommit | FrameRevert | FrameDiscard

datatype SubstateOp =
    OpMetadata "StackSubstateMetadata \<Rightarrow> StackSubstateMetadata"
  | OpIncNonce h160
  | OpSetStorage h160 h256 h256
  | OpResetStorage h160
  | OpLog h160 "h256 list" "u8 list"
  | OpSetDeleted h160
  | OpSetCode h160 "u8 list"
  | OpTransfer Transfer
  | OpWithdraw h160 u256
  | OpDeposit h160 u256
  | OpResetBalance h160
  | OpTouch h160
  | OpFrame u64 bool "SubstateOp list" FrameExit

definition exit_frame :: "FrameExit \<Rightarrow> MemoryStackSubstate \<Rightarrow> ((ExitError + unit) \<times> MemoryStackSubstate) option" where
  "exit_frame kind s = (case kind of
     FrameCommit \<Rightarrow> exit_commit s | FrameRevert \<Rightarrow> exit_revert s | FrameDiscard \<Rightarrow> exit_discard s)"

fun run_op :: "Backend \<Rightarrow> SubstateOp \<Rightarrow> MemoryStackSubstate \<Rightarrow> MemoryStackSubstate option"
  and run_ops :: "Backend \<Rightarrow> SubstateOp list \<Rightarrow> MemoryStackSubstate \<Rightarrow> MemoryStackSubstate option" where
  "run_op B (OpMetadata f) s = Some (metadata_mut f s)"
| "run_op B (OpIncNonce a) s = Some (snd (inc_nonce B a s))"
| "run_op B (OpSetStorage a k v) s = Some (set_storage a k v s)"
| "run_op B (OpResetStorage a) s = Some (reset_storage B a s)"
| "run_op B (OpLog a ts d) s = Some (log_event a ts d s)"
| "run_op B (OpSetDeleted a) s = Some (set_deleted a s)"
| "run_op B (OpSetCode a c) s = Some (set_code B a c s)"
| "run_op B (OpTransfer t) s = Some (snd (transfer_value B t s))"
| "run_op B (OpWithdraw a v) s = Some (snd (withdraw B a v s))"
| "run_op B (OpDeposit a v) s = Some (deposit B a v s)"
| "run_op B (OpResetBalance a) s = Some (reset_balance B a s)"
| "run_op B (OpTouch a) s = Some (touch B a s)"
| "run_op B (OpFrame limit is_static ops kind) s =
     Option.bind (run_ops B ops (enter limit is_static s)) (\<lambda>s. map_option snd (exit_frame kind s))"
| "run_ops B [] s = Some s"
| "run_ops B (op # ops) s = Option.bind (run_op B op s) (run_ops B ops)"

section \<open>Enclosing frames are left alone\<close>

lemma put_account_parents [simp]: "ms_parents (put_account a acc s) = ms_parents s"
  by (simp add: put_account_def)

lemma account_mut_parents [simp]: "ms_parents (snd (account_mut B a s)) = ms_parents s"
  by (simp add: account_mut_def Let_def split: option.split)

lemma account_mut_pair: "account_mut B a s = (acc, s') \<Longrightarrow> ms_parents s' = ms_parents s"
  using account_mut_parents [of B a s] by simp

lemma operation_parents [simp]:
  "ms_parents (metadata_mut f s) = ms_parents s"
  "ms_parents (snd (inc_nonce B a s)) = ms_parents s"
  "ms_parents (set_storage a k v s) = ms_parents s"
  "ms_parents (reset_storage B a s) = ms_parents s"
  "ms_parents (log_event a ts d s) = ms_parents s"
  "ms_parents (set_deleted a s) = ms_parents s"
  "ms_parents (set_code B a c s) = ms_parents s"
  "ms_parents (snd (withdraw B a w s)) = ms_parents s"
  "ms_parents (deposit B a w s) = ms_parents s"
  "ms_parents (reset_balance B a s) = ms_parents s"
  "ms_parents (touch B a s) = ms_parents s"
  by (auto simp: metadata_mut_def inc_nonce_def set_storage_def reset_storage_def log_event_def set_deleted_def
      set_code_def withdraw_def deposit_def reset_balance_def touch_def Let_def
      split: prod.splits dest!: account_mut_pair)

lemma transfer_parents [simp]: "ms_parents (snd (transfer_value B t s)) = ms_parents s"
  by (auto simp: transfer_value_def Let_def split: prod.splits dest!: account_mut_pair)

lemma exit_frame_parents:
  "ms_parents s = f # fs \<Longrightarrow> \<exists>r s'. exit_frame kind s = Some (r, s') \<and> ms_parents s' = fs"
  by (cases kind) (auto simp: exit_frame_def exit_commit_def exit_revert_def exit_discard_def split: prod.split)

lemma enter_parents [simp]: "ms_parents (enter limit is_static s) = ms_frame s # ms_parents s"
  by (simp add: enter_def)

lemma run_balanced:
  "\<exists>s'. run_op B op s = Some s' \<and> ms_parents s' = ms_parents s"
  "\<exists>s'. run_ops B ops s = Some s' \<and> ms_parents s' = ms_parents s"
proof (induction B op s and B ops s rule: run_op_run_ops.induct)
  case (13 B limit is_static ops kind s)
  then obtain s1 where s1: "run_ops B ops (enter limit is_static s) = Some s1" "ms_parents s1 = ms_frame s # ms_parents s"
    by auto
  then show ?case
    using exit_frame_parents [OF s1(2), of kind] by auto
next
  case (15 B op ops s)
  then show ?case by fastforce
qed simp_all

text \<open>C8: whatever a call does in its frame, also in nested frames that commit, leaving the frame never panics;
  a revert restores the enclosing state in every respect but the gas of the frame below, which gets back what the call
  has left, and a discard restores it exactly.\<close>

theorem substate_revert_restores:
  "\<exists>s1 r s'. run_ops B ops (enter limit is_static s) = Some s1
     \<and> exit_revert s1 = Some (r, s') \<and> exit_discard s1 = Some (Inr (), s)
     \<and> ms_parents s' = ms_parents s
     \<and> ms_frame s' = (ms_frame s)\<lparr>f_metadata := (metadata s)\<lparr>md_gasometer :=
         snd (record_stipend (gas (md_gasometer (metadata s1))) (md_gasometer (metadata s)))\<rparr>\<rparr>"
proof -
  obtain s1 where s1: "run_ops B ops (enter limit is_static s) = Some s1" "ms_parents s1 = ms_frame s # ms_parents s"
    using run_balanced(2) [of B ops "enter limit is_static s"] by auto
  have "\<exists>r s'. exit_revert s1 = Some (r, s') \<and> ms_parents s' = ms_parents s
     \<and> ms_frame s' = (ms_frame s)\<lparr>f_metadata := (metadata s)\<lparr>md_gasometer :=
         snd (record_stipend (gas (md_gasometer (metadata s1))) (md_gasometer (metadata s)))\<rparr>\<rparr>"
    using s1(2) by (auto simp: exit_revert_def swallow_revert_def metadata_def split: prod.splits)
  moreover have "exit_discard s1 = Some (Inr (), s)"
    using s1(2) by (simp add: exit_discard_def swallow_discard_def)
  ultimately show ?thesis
    using s1(1) by blast
qed

section \<open>One entry per key\<close>

definition frame_wf :: "Frame \<Rightarrow> bool" where
  "frame_wf f \<longleftrightarrow> distinct (map fst (f_accounts f)) \<and> distinct (map fst (f_storages f)) \<and> finite (f_deletes f)"

definition substate_wf :: "MemoryStackSubstate \<Rightarrow> bool" where
  "substate_wf s \<longleftrightarrow> list_all frame_wf (frames s)"

lemma put_account_wf: "substate_wf s \<Longrightarrow> substate_wf (put_account a acc s)"
  by (simp add: substate_wf_def frames_def frame_wf_def put_account_def distinct_update)

lemma account_mut_wf: "substate_wf s \<Longrightarrow> account_mut B a s = (acc, s') \<Longrightarrow> substate_wf s'"
  by (auto simp: account_mut_def Let_def put_account_wf split: option.splits)

lemma touch_wf: "substate_wf s \<Longrightarrow> substate_wf (touch B a s)"
  using account_mut_wf by (metis prod.collapse touch_def)

lemma distinct_fold_delete: "distinct (map fst xs) \<Longrightarrow> distinct (map fst (fold (\<lambda>k. AList.delete (a, k)) ks xs))"
  by (induction ks arbitrary: xs) (simp_all add: distinct_delete)

lemma reset_storage_wf:
  assumes "substate_wf s"
  shows "substate_wf (reset_storage B a s)"
proof -
  have "substate_wf (s\<lparr>ms_frame := (ms_frame s)\<lparr>f_storages := fold (\<lambda>ok. AList.delete (a, ok)) ks (f_storages (ms_frame s))\<rparr>\<rparr>)" for ks
    using assms by (simp add: substate_wf_def frames_def frame_wf_def distinct_fold_delete)
  then show ?thesis
    by (auto simp: reset_storage_def Let_def split: prod.split intro!: put_account_wf intro: account_mut_wf)
qed

lemma operation_wf:
  assumes "substate_wf s"
  shows "substate_wf (metadata_mut f s)"
    and "substate_wf (snd (inc_nonce B a s))"
    and "substate_wf (set_storage a k v s)"
    and "substate_wf (log_event a ts d s)"
    and "substate_wf (set_deleted a s)"
    and "substate_wf (set_code B a c s)"
    and "substate_wf (snd (withdraw B a w s))"
    and "substate_wf (deposit B a w s)"
    and "substate_wf (reset_balance B a s)"
  using assms account_mut_wf [OF assms]
  by (auto simp: inc_nonce_def set_code_def withdraw_def deposit_def reset_balance_def put_account_wf
      split: prod.splits)
    (simp_all add: metadata_mut_def set_storage_def log_event_def set_deleted_def substate_wf_def frames_def frame_wf_def
      distinct_update)

lemma transfer_wf: "substate_wf s \<Longrightarrow> substate_wf (snd (transfer_value B t s))"
  by (auto simp: transfer_value_def Let_def split: prod.split intro!: put_account_wf intro: account_mut_wf)

lemma commit_frame_wf: "frame_wf exited \<Longrightarrow> frame_wf f \<Longrightarrow> frame_wf (snd (commit_frame exited f))"
  by (auto simp: commit_frame_def frame_wf_def distinct_merge distinct_map_filter Let_def split: prod.splits sum.splits)

lemma exit_frame_wf: "substate_wf s \<Longrightarrow> exit_frame kind s = Some (r, s') \<Longrightarrow> substate_wf s'"
  using commit_frame_wf [of "ms_frame s"]
  by (cases kind)
    (fastforce simp: exit_frame_def exit_commit_def exit_revert_def exit_discard_def substate_wf_def frames_def frame_wf_def
      split: list.splits prod.splits)+

lemma enter_wf: "substate_wf s \<Longrightarrow> substate_wf (enter limit is_static s)"
  by (simp add: substate_wf_def frames_def enter_def Frame_new_def frame_wf_def)

lemma run_wf:
  "substate_wf s \<Longrightarrow> run_op B op s = Some s' \<Longrightarrow> substate_wf s'"
  "substate_wf s \<Longrightarrow> run_ops B ops s = Some s' \<Longrightarrow> substate_wf s'"
proof (induction B op s and B ops s arbitrary: s' and s' rule: run_op_run_ops.induct)
  case (13 B limit is_static ops kind s)
  then show ?case
    by (auto simp: bind_eq_Some_conv dest: enter_wf exit_frame_wf)
qed (auto simp: operation_wf touch_wf reset_storage_wf transfer_wf bind_eq_Some_conv)

section \<open>Commit\<close>

text \<open>
  A commit lets the entries of the inner frame win.  \<open>no_lost_reset\<close> excludes the case in which the inner frame only
  touches an account whose storage the outer frame has reset: its entry, without the mark, replaces the marked one.
\<close>

definition no_lost_reset :: "Frame \<Rightarrow> Frame \<Rightarrow> bool" where
  "no_lost_reset exited f = list_all (\<lambda>(a, acc). msa_reset acc \<or>
     (case map_of (f_accounts f) a of Some p \<Rightarrow> \<not> msa_reset p | None \<Rightarrow> True)) (f_accounts exited)"

lemma map_of_filter_address:
  "map_of (filter (\<lambda>((a, _), _). a \<notin> R) xs) (a, k) = (if a \<in> R then None else map_of xs (a, k))"
  by (induction xs) auto

lemma mem_reset_addresses:
  "distinct (map fst xs) \<Longrightarrow>
     a \<in> reset_addresses xs \<longleftrightarrow> (\<exists>acc. map_of xs a = Some acc \<and> msa_reset acc)"
  by (force simp: reset_addresses_def image_iff)

lemma no_lost_resetD:
  "no_lost_reset exited f \<Longrightarrow> map_of (f_accounts exited) a = Some acc \<Longrightarrow> \<not> msa_reset acc \<Longrightarrow>
     map_of (f_accounts f) a = Some p \<Longrightarrow> \<not> msa_reset p"
  using map_of_SomeD [of "f_accounts exited" a acc] by (fastforce simp: no_lost_reset_def list_all_iff)

lemma commit_frame_Inr:
  assumes "commit_frame exited f = (Inr (), f')"
  obtains md where "swallow_commit (f_metadata exited) (f_metadata f) = (Inr (), md)"
    and "f' = f\<lparr>f_metadata := md, f_logs := f_logs f @ f_logs exited,
      f_accounts := AList.merge (f_accounts f) (f_accounts exited),
      f_storages := AList.merge (filter (\<lambda>((a, _), _). a \<notin> reset_addresses (f_accounts exited)) (f_storages f))
        (f_storages exited),
      f_deletes := f_deletes f \<union> f_deletes exited\<rparr>"
  using assms by (auto simp: commit_frame_def Let_def split: prod.splits sum.splits)

lemma commit_frame_fields:
  assumes "commit_frame exited f = (Inr (), f')"
  shows "f_logs f' = f_logs f @ f_logs exited"
    and "map_of (f_accounts f') a = (case map_of (f_accounts exited) a of Some acc \<Rightarrow> Some acc
       | None \<Rightarrow> map_of (f_accounts f) a)"
    and "map_of (f_storages f') (a, k) = (case map_of (f_storages exited) (a, k) of Some v \<Rightarrow> Some v
       | None \<Rightarrow> if a \<in> reset_addresses (f_accounts exited) then None else map_of (f_storages f) (a, k))"
    and "f_deletes f' = f_deletes f \<union> f_deletes exited"
    and "swallow_commit (f_metadata exited) (f_metadata f) = (Inr (), f_metadata f')"
  by (rule commit_frame_Inr [OF assms];
      simp add: merge_conv' map_add_def map_of_filter_address split: option.split)+

lemma commit_frame_reads:
  assumes "commit_frame exited f = (Inr (), f')" "frame_wf exited" "no_lost_reset exited f"
  shows "frames_account (f' # fs) a = frames_account (exited # f # fs) a"
    and "frames_storage (f' # fs) a k = frames_storage (exited # f # fs) a k"
    and "frames_original_storage (f' # fs) a = frames_original_storage (exited # f # fs) a"
    and "frames_deleted (f' # fs) a = frames_deleted (exited # f # fs) a"
proof -
  note fields = commit_frame_fields [OF assms(1)]
  have reset: "a \<in> reset_addresses (f_accounts exited) \<longleftrightarrow> (\<exists>acc. map_of (f_accounts exited) a = Some acc \<and> msa_reset acc)"
    using assms(2) by (intro mem_reset_addresses) (simp add: frame_wf_def)
  note lost = no_lost_resetD [OF assms(3), of a]
  show "frames_account (f' # fs) a = frames_account (exited # f # fs) a"
    by (simp add: fields(2) split: option.split)
  show "frames_storage (f' # fs) a k = frames_storage (exited # f # fs) a k"
  proof (cases "map_of (f_accounts exited) a")
    case (Some acc)
    then show ?thesis
      using lost [of acc] by (cases "map_of (f_accounts f) a") (auto simp: fields(2,3) reset split: option.split)
  qed (simp add: fields(2,3) reset split: option.split)
  show "frames_original_storage (f' # fs) a = frames_original_storage (exited # f # fs) a"
  proof (cases "map_of (f_accounts exited) a")
    case (Some acc)
    then show ?thesis
      using lost [of acc] by (cases "map_of (f_accounts f) a") (auto simp: fields(2))
  qed (simp add: fields(2))
  show "frames_deleted (f' # fs) a = frames_deleted (exited # f # fs) a"
    by (simp add: fields(4))
qed

lemma swallow_commit_accessed:
  assumes "swallow_commit other md = (Inr (), md')"
  shows "md_accessed md' = (case (md_accessed other, md_accessed md) of
       (Some oa, Some sa) \<Rightarrow> Some (sa\<lparr>accessed_addresses := accessed_addresses sa \<union> accessed_addresses oa,
                                      accessed_storage := accessed_storage sa \<union> accessed_storage oa\<rparr>)
     | (_, sa) \<Rightarrow> sa)"
  using assms by (auto simp: swallow_commit_def split: prod.splits sum.splits)

text \<open>C9: committing a frame keeps what the transaction reads: the balance, nonce and code of every
  account, every storage slot, its original value, the deleted accounts and the warm addresses and slots read after the
  commit as inside the frame, and the logs of the frame follow those of the enclosing one.  The hypotheses are the
  invariant of the journal, that both frames track accesses or neither does, and that the inner frame hides no reset
  of the storage of an account.\<close>

theorem commit_preserves_reads:
  assumes "substate_wf s" "ms_parents s = f # fs" "no_lost_reset (ms_frame s) f"
    and "md_accessed (metadata s) = None \<longleftrightarrow> md_accessed (f_metadata f) = None"
    and "exit_commit s = Some (Inr (), s')"
  shows "state_basic B s' a = state_basic B s a \<and> state_code B s' a = state_code B s a
    \<and> state_storage B s' a k = state_storage B s a k \<and> state_original_storage B s' a k = state_original_storage B s a k
    \<and> deleted s' a = deleted s a \<and> is_cold s' a = is_cold s a \<and> is_storage_cold s' a k = is_storage_cold s a k
    \<and> f_logs (ms_frame s') = f_logs f @ f_logs (ms_frame s) \<and> ms_parents s' = fs"
proof -
  obtain f' where f': "commit_frame (ms_frame s) f = (Inr (), f')" "s' = \<lparr>ms_frame = f', ms_parents = fs\<rparr>"
    using assms(2,5) by (auto simp: exit_commit_def split: prod.splits)
  have wf: "frame_wf (ms_frame s)"
    using assms(1) by (simp add: substate_wf_def frames_def)
  note reads = commit_frame_reads [OF f'(1) wf assms(3)]
  have cold: "recursive_is_cold P (frames s') = recursive_is_cold P (frames s)"
    if "\<And>x y. P (x\<lparr>accessed_addresses := accessed_addresses x \<union> accessed_addresses y,
                accessed_storage := accessed_storage x \<union> accessed_storage y\<rparr>) \<longleftrightarrow> P x \<or> P y" for P
    using that assms(2,4) swallow_commit_accessed [OF commit_frame_fields(5) [OF f'(1)]]
    by (auto simp: f'(2) frames_def metadata_def split: option.splits)
  have "is_cold s' a = is_cold s a" "is_storage_cold s' a k = is_storage_cold s a k"
    by (simp_all add: is_cold_def is_storage_cold_def cold)
  then show ?thesis
    using reads(1) [of fs] reads(2) [of fs] reads(3) [of fs] reads(4) [of fs] commit_frame_fields(1) [OF f'(1)] assms(2)
    by (simp add: f'(2) state_basic_def state_code_def state_storage_def state_original_storage_def known_basic_def
        known_code_def known_account_def known_storage_def known_original_storage_def deleted_def frames_def
        del: frames_account.simps frames_storage.simps frames_original_storage.simps frames_deleted.simps)
qed

definition sample_vicinity :: MemoryVicinity where
  "sample_vicinity =
     \<lparr>vic_gas_price = 1, vic_origin = 1, vic_chain_id = 1, vic_block_hashes = [], vic_block_number = 0, vic_block_coinbase = 0,
      vic_block_timestamp = 0, vic_block_difficulty = 0, vic_block_gas_limit = 0, vic_block_base_fee_per_gas = 0,
      vic_block_randomness = None\<rparr>"

definition commit_sample :: MemoryStackSubstate where
  "commit_sample = set_storage 1 2 3 (enter 100 False (MemoryStackSubstate_new (StackSubstateMetadata_new 1000 frontier)))"

lemma commit_sample_facts:
  "substate_wf commit_sample"
  "ms_parents commit_sample = [Frame_new (StackSubstateMetadata_new 1000 frontier)]"
  "no_lost_reset (ms_frame commit_sample) (Frame_new (StackSubstateMetadata_new 1000 frontier))"
  "md_accessed (metadata commit_sample) = None"
  "known_storage commit_sample 1 2 = Some 3"
  by (simp_all add: commit_sample_def set_storage_def enter_def MemoryStackSubstate_new_def Frame_new_def substate_wf_def
      frames_def frame_wf_def no_lost_reset_def metadata_def spit_child_def StackSubstateMetadata_new_def frontier_def
      known_storage_def)

theorem commit_preserves_reads_witness:
  "\<exists>s'. exit_commit commit_sample = Some (Inr (), s') \<and>
     state_storage (backend_of sample_vicinity Map.empty) s' 1 2 = 3"
proof -
  have "\<exists>s'. exit_commit commit_sample = Some (Inr (), s')"
    using commit_sample_facts(2)
    by (auto simp: exit_commit_def commit_frame_def swallow_commit_def record_stipend_def record_refund_def Frame_new_def
        StackSubstateMetadata_new_def Gasometer_new_def Let_def)
  then obtain s' where s': "exit_commit commit_sample = Some (Inr (), s')" by blast
  have "md_accessed (f_metadata (Frame_new (StackSubstateMetadata_new 1000 frontier))) = None"
    by (simp add: Frame_new_def StackSubstateMetadata_new_def frontier_def)
  then show ?thesis
    using commit_preserves_reads [OF commit_sample_facts(1-3) _ s'] s' commit_sample_facts(4,5)
    by (auto simp: state_storage_def)
qed

section \<open>What a transaction hands to the backend\<close>

definition root_account :: "Backend \<Rightarrow> MemoryStackSubstate \<Rightarrow> h160 \<Rightarrow> MemoryStackAccount" where
  "root_account B s a = (case map_of (f_accounts (ms_frame s)) a of
     Some acc \<Rightarrow> acc | None \<Rightarrow> \<lparr>msa_basic = b_basic B a, msa_code = None, msa_reset = False\<rparr>)"

definition root_slots :: "MemoryStackSubstate \<Rightarrow> h160 \<Rightarrow> (h256, h256) hmap" where
  "root_slots s a = map (\<lambda>((_, k), v). (k, v)) (filter (\<lambda>((a', _), _). a' = a) (f_storages (ms_frame s)))"

definition root_apply :: "Backend \<Rightarrow> MemoryStackSubstate \<Rightarrow> h160 \<Rightarrow> Apply" where
  "root_apply B s a =
     Modify a (msa_basic (root_account B s a)) (msa_code (root_account B s a)) (root_slots s a) (msa_reset (root_account B s a))"

lemma account_mut_root:
  assumes "ms_parents s = []" "account_mut B a s = (acc, s')"
  shows "acc = root_account B s a" "ms_parents s' = []"
    and "f_storages (ms_frame s') = f_storages (ms_frame s)" "f_deletes (ms_frame s') = f_deletes (ms_frame s)"
    and "\<And>b. b \<noteq> a \<Longrightarrow> map_of (f_accounts (ms_frame s')) b = map_of (f_accounts (ms_frame s)) b"
  using assms
  by (auto simp: account_mut_def root_account_def known_account_def frames_def put_account_def Let_def update_conv'
      split: option.splits)

lemma deconstruct_loop_root:
  "ms_parents s = [] \<Longrightarrow> distinct addresses \<Longrightarrow>
     deconstruct_loop B addresses s = map (root_apply B s) (filter (\<lambda>a. a \<notin> f_deletes (ms_frame s)) addresses)"
proof (induction B addresses s rule: deconstruct_loop.induct)
  case (2 B a as s)
  obtain acc s' where s': "account_mut B a s = (acc, s')" by fastforce
  note root = account_mut_root [OF "2.prems"(1) s']
  have "root_apply B s' b = root_apply B s b" if "b \<noteq> a" for b
    using root(5) [OF that] root(3) by (simp add: root_apply_def root_account_def root_slots_def)
  then have "root_apply B s' b = root_apply B s b" if "b \<in> set as" for b
    using that "2.prems"(2) by (metis distinct.simps(2))
  then have "map (root_apply B s') (filter P as) = map (root_apply B s) (filter P as)" for P
    by simp
  then show ?case
    using 2 s' root by (auto simp: root_apply_def root_slots_def Let_def)
qed simp

lemma memory_apply_one_other: "apply_address ap \<noteq> a \<Longrightarrow> memory_apply_one d ap st a = st a"
  by (cases ap) (simp_all add: memory_apply_one_def Let_def)

lemma memory_apply_one_same: "st a = st' a \<Longrightarrow> memory_apply_one d ap st a = memory_apply_one d ap st' a"
  by (cases ap) (auto simp: memory_apply_one_def Let_def)

lemma memory_apply_map:
  assumes "\<And>x. apply_address (F x) = x" "distinct xs"
  shows "memory_apply d (map F xs) st a = (if a \<in> set xs then memory_apply_one d (F a) st a else st a)"
  using assms(2)
proof (induction xs arbitrary: st)
  case (Cons x xs)
  then show ?case
    using memory_apply_one_same [of "memory_apply_one d (F x) st" a st d "F a"]
    by (cases "a = x") (auto simp: memory_apply_def memory_apply_one_other assms(1))
qed (simp add: memory_apply_def)

lemma map_of_rev_distinct: "distinct (map fst xs) \<Longrightarrow> map_of (rev xs) = map_of xs"
  by (subst map_of_inject_set) (simp_all add: rev_map [symmetric])

lemma root_slots_lookup:
  assumes "distinct (map fst (f_storages (ms_frame s)))"
  shows "map_of (rev (root_slots s a)) k = map_of (f_storages (ms_frame s)) (a, k)"
proof -
  have "distinct (map fst (map (\<lambda>((_, k), v). (k, v)) (filter (\<lambda>((a', _), _). a' = a) xs)))
      \<and> map_of (map (\<lambda>((_, k), v). (k, v)) (filter (\<lambda>((a', _), _). a' = a) xs)) k = map_of xs (a, k)"
    if "distinct (map fst xs)" for xs :: "(h160 \<times> h256, h256) hmap"
    using that by (induction xs) force+
  from this [OF assms] show ?thesis
    unfolding root_slots_def by (metis map_of_rev_distinct)
qed

lemma root_state:
  assumes "ms_parents s = []"
  shows "state_basic B s a = msa_basic (root_account B s a)"
    and "state_code B s a = (case msa_code (root_account B s a) of Some c \<Rightarrow> c | None \<Rightarrow> b_code B a)"
    and "state_storage B s a k = (case map_of (f_storages (ms_frame s)) (a, k) of Some v \<Rightarrow> v
       | None \<Rightarrow> if msa_reset (root_account B s a) then 0 else b_storage B a k)"
  using assms
  by (simp_all add: state_basic_def state_code_def state_storage_def known_basic_def known_code_def known_account_def
      known_storage_def frames_def root_account_def split: option.split)

lemma deconstruct_root:
  assumes "ms_parents s = []" "substate_wf s" "deconstruct (backend_of v A) s = Some (ap, logs)"
  shows "memory_apply False ap A a = (if a \<in> f_deletes (ms_frame s) then None
      else if a \<in> fst ` set (f_accounts (ms_frame s)) \<union> (fst \<circ> fst) ` set (f_storages (ms_frame s))
      then memory_apply_one False (root_apply (backend_of v A) s a) A a else A a)"
proof -
  let ?f = "ms_frame s"
  let ?as = "sorted_list_of_set (fst ` set (f_accounts ?f) \<union> (fst \<circ> fst) ` set (f_storages ?f))"
  let ?ds = "sorted_list_of_set (f_deletes ?f)"
  let ?ms = "map (root_apply (backend_of v A) s) (filter (\<lambda>a. a \<notin> f_deletes ?f) ?as)"
  have ap: "ap = ?ms @ map Delete ?ds"
    using assms(1,3) deconstruct_loop_root [OF assms(1), of ?as] by (simp add: deconstruct_def Let_def)
  have "memory_apply False ap A a = memory_apply False (map Delete ?ds) (memory_apply False ?ms A) a"
    by (simp add: ap memory_apply_def)
  also have "\<dots> = (if a \<in> f_deletes ?f then None else memory_apply False ?ms A a)"
    by (simp add: memory_apply_map memory_apply_one_def)
  also have "memory_apply False ?ms A a = (if a \<in> set ?as \<and> a \<notin> f_deletes ?f
      then memory_apply_one False (root_apply (backend_of v A) s a) A a else A a)"
    by (subst memory_apply_map) (simp_all add: root_apply_def)
  finally show ?thesis by simp
qed

text \<open>C7: a finished transaction hands over exactly its view.  After any balanced sequence of operations on a
  fresh substate over an in-memory backend, \<open>deconstruct\<close> does not panic, and applying its changes to the backend removes
  the deleted accounts and leaves every other account with the balance, nonce, code and storage that the substate
  showed.\<close>

theorem deconstruct_hands_over_view:
  "\<exists>s ap logs. run_ops (backend_of v A) ops (MemoryStackSubstate_new md) = Some s
     \<and> deconstruct (backend_of v A) s = Some (ap, logs)
     \<and> (let A' = memory_apply False ap A in \<forall>a. if deleted s a then A' a = None
        else backend_basic A' a = state_basic (backend_of v A) s a \<and> backend_code A' a = state_code (backend_of v A) s a
          \<and> backend_storage A' a = state_storage (backend_of v A) s a)"
proof -
  let ?B = "backend_of v A"
  obtain s where s: "run_ops ?B ops (MemoryStackSubstate_new md) = Some s" "ms_parents s = []"
    using run_balanced(2) [of ?B ops "MemoryStackSubstate_new md"] by (auto simp: MemoryStackSubstate_new_def)
  have wf: "substate_wf s"
    by (rule run_wf(2) [OF _ s(1)]) (simp add: MemoryStackSubstate_new_def substate_wf_def frames_def Frame_new_def frame_wf_def)
  then have slots: "map_of (rev (root_slots s a)) k = map_of (f_storages (ms_frame s)) (a, k)" for a k
    by (intro root_slots_lookup) (simp add: substate_wf_def frames_def frame_wf_def)
  obtain ap logs where ap: "deconstruct ?B s = Some (ap, logs)"
    using s(2) by (simp add: deconstruct_def Let_def)
  let ?A' = "memory_apply False ap A"
  have "if deleted s a then ?A' a = None
        else backend_basic ?A' a = state_basic ?B s a \<and> backend_code ?A' a = state_code ?B s a
          \<and> backend_storage ?A' a = state_storage ?B s a" for a
  proof (cases "a \<in> fst ` set (f_accounts (ms_frame s)) \<union> (fst \<circ> fst) ` set (f_storages (ms_frame s))")
    case True
    then show ?thesis
      using s(2) deconstruct_root [OF s(2) wf ap, of a]
      by (auto simp: deleted_def frames_def root_state [OF s(2)] fun_eq_iff backend_basic_def backend_code_def
          backend_storage_def root_apply_def memory_apply_one_def fold_write_slot slots remove_zeros_def Account_default_def
          backend_of_def Let_def split: option.split)
  next
    case False
    then have none: "map_of (f_accounts (ms_frame s)) a = None"
      by (auto simp: map_of_eq_None_iff)
    have "map_of (f_storages (ms_frame s)) (a, k) = None" for k
    proof (rule ccontr)
      assume "map_of (f_storages (ms_frame s)) (a, k) \<noteq> None"
      then obtain v where "((a, k), v) \<in> set (f_storages (ms_frame s))"
        by (auto dest: map_of_SomeD)
      then have "(fst \<circ> fst) ((a, k), v) \<in> (fst \<circ> fst) ` set (f_storages (ms_frame s))"
        by (rule imageI)
      then show False
        using False by simp
    qed
    then show ?thesis
      using False none s(2) deconstruct_root [OF s(2) wf ap, of a]
      by (auto simp: deleted_def frames_def root_state [OF s(2)] fun_eq_iff root_account_def backend_of_def
          backend_basic_def backend_code_def backend_storage_def)
  qed
  then show ?thesis
    using s(1) ap unfolding Let_def by blast
qed

section \<open>Where the journal departs from its view\<close>

text \<open>
  A nested call that only touches the account of a contract under construction loses the mark that its storage was
  reset: a slot that read zero before the commit reads the stale value of the backend afterwards.
\<close>

definition stale_accounts :: accounts where
  "stale_accounts = [1 \<mapsto> \<lparr>acc_nonce = 0, acc_balance = 5, acc_storage = [2 \<mapsto> 7], acc_code = []\<rparr>]"

definition reset_sample :: MemoryStackSubstate where
  "reset_sample = (let B = backend_of sample_vicinity stale_accounts in
     touch B 1 (enter 10 False (reset_storage B 1 (MemoryStackSubstate_new (StackSubstateMetadata_new 1000 frontier)))))"

lemma commit_loses_reset:
  "\<exists>s'. state_storage (backend_of sample_vicinity stale_accounts) reset_sample 1 2 = 0
     \<and> exit_commit reset_sample = Some (Inr (), s')
     \<and> state_storage (backend_of sample_vicinity stale_accounts) s' 1 2 = 7"
  by (simp add: reset_sample_def touch_def enter_def reset_storage_def MemoryStackSubstate_new_def Frame_new_def
      account_mut_def put_account_def known_account_def frames_def exit_commit_def commit_frame_def swallow_commit_def
      record_stipend_def record_refund_def StackSubstateMetadata_new_def Gasometer_new_def metadata_def spit_child_def
      state_storage_def known_storage_def backend_of_def backend_storage_def stale_accounts_def reset_addresses_def
      frontier_def Let_def)

text \<open>
  \<open>is_empty\<close> answers from the view of the transaction, except for an account without balance and nonce whose code the
  transaction has not set: there it asks the backend, which may still hold the balance that the transaction has moved.
\<close>

lemma state_is_empty_exact:
  assumes "\<And>acc. known_account s a = Some acc \<Longrightarrow> msa_code acc = None \<Longrightarrow> balance (msa_basic acc) = 0 \<Longrightarrow>
     nonce (msa_basic acc) = 0 \<Longrightarrow> balance (b_basic B a) = 0 \<and> nonce (b_basic B a) = 0"
  shows "state_is_empty B s a \<longleftrightarrow>
    balance (state_basic B s a) = 0 \<and> nonce (state_basic B s a) = 0 \<and> state_code B s a = []"
  using assms
  by (cases "known_account s a")
    (auto simp: state_is_empty_def known_empty_def state_basic_def state_code_def known_basic_def known_code_def
      split: option.splits)

lemma spent_account_not_empty:
  "\<exists>s. transfer_value (backend_of sample_vicinity stale_accounts) \<lparr>tr_source = 1, tr_target = 2, tr_value = 5\<rparr>
        (MemoryStackSubstate_new (StackSubstateMetadata_new 1000 frontier)) = (Inr (), s)
     \<and> state_basic (backend_of sample_vicinity stale_accounts) s 1 = \<lparr>balance = 0, nonce = 0\<rparr>
     \<and> state_code (backend_of sample_vicinity stale_accounts) s 1 = []
     \<and> \<not> state_is_empty (backend_of sample_vicinity stale_accounts) s 1"
  by (simp add: transfer_value_def MemoryStackSubstate_new_def Frame_new_def account_mut_def put_account_def
      known_account_def frames_def set_balance_def state_basic_def state_code_def known_basic_def known_code_def
      state_is_empty_def known_empty_def backend_of_def backend_basic_def backend_code_def stale_accounts_def
      saturating_add_def checked_add_def Let_def)

end
