(* ===== verification/Evm_Machine.thy ===== *)
theory Evm_Machine
  imports Evm_Memory
begin

text \<open>
  The EVM core machine (\<open>core/src/lib.rs\<close>): the opcode functions (\<open>core/src/eval/misc.rs\<close> and the macros of
  \<open>core/src/eval/macros.rs\<close>), the dispatch table (\<open>core/src/eval/mod.rs\<close>), \<open>Machine::step\<close> and
  \<open>Machine::run\<close>.  An opcode function maps a machine to the changed machine and a \<open>Control\<close>; the macros
  that return early from the enclosing function take the rest of that function as an argument.
  \<^const>\<open>None\<close> is a panic.  The theorems show that it does not occur, that the program counter never
  enters the immediate data of a push, and that what is stored is loaded again.
\<close>

section \<open>Machine\<close>

datatype Control = Continue nat | ControlExit ExitReason | Jump nat | ControlTrap Opcode

record Machine =
  mc_data :: "u8 list"
  mc_code :: "u8 list"
  mc_position :: "ExitReason + nat"
  mc_return_range :: "u256 \<times> u256"
  mc_valids :: "bool list"
  mc_memory :: Memory
  mc_stack :: Stack

type_synonym eval_result = "(Machine \<times> Control) option"

definition Machine_new :: "u8 list \<Rightarrow> u8 list \<Rightarrow> nat \<Rightarrow> nat \<Rightarrow> Machine" where
  "Machine_new code d limit_stack limit_memory =
     \<lparr>mc_data = d, mc_code = code, mc_position = Inr 0, mc_return_range = (0, 0),
      mc_valids = Valids_new code, mc_memory = Memory_new limit_memory, mc_stack = Stack_new limit_stack\<rparr>"

definition Machine_exit :: "ExitReason \<Rightarrow> Machine \<Rightarrow> Machine" where
  "Machine_exit reason m = m\<lparr>mc_position := Inl reason\<rparr>"

definition inspect :: "Machine \<Rightarrow> (Opcode \<times> Stack) option" where
  "inspect m = (case mc_position m of
     Inl _ \<Rightarrow> None
   | Inr position \<Rightarrow> if position < length (mc_code m) then Some (mc_code m ! position, mc_stack m) else None)"

text \<open>\<open>as_usize\<close> panics when the value does not fit.\<close>

definition as_usize :: "u256 \<Rightarrow> nat option" where
  "as_usize v = (if fits_usize v then Some (unat v) else None)"

definition return_value :: "Machine \<Rightarrow> u8 list option" where
  "return_value m = (case mc_return_range m of (start, end) \<Rightarrow>
     if \<not> fits_usize start then do {
       len \<leftarrow> checked_sub end start;
       n \<leftarrow> as_usize len;
       Some (replicate n 0) }
     else if \<not> fits_usize end then do {
       let ret = Memory_get (unat start) (USIZE_MAX - unat start) (mc_memory m);
       len \<leftarrow> checked_sub end start;
       n \<leftarrow> as_usize len;
       Some (ret @ replicate (n - length ret) 0) }
     else do {
       len \<leftarrow> checked_sub end start;
       n \<leftarrow> as_usize len;
       Some (Memory_get (unat start) n (mc_memory m)) })"

section \<open>Macros\<close>

definition exit_with :: "ExitReason \<Rightarrow> Machine \<Rightarrow> eval_result" where
  "exit_with e m = Some (m, ControlExit e)"

definition pop_u256 :: "Machine \<Rightarrow> (Machine \<Rightarrow> u256 \<Rightarrow> eval_result) \<Rightarrow> eval_result" where
  "pop_u256 m k = (case Stack_pop (mc_stack m) of
     Inl e \<Rightarrow> exit_with (Error e) m
   | Inr (v, s) \<Rightarrow> k (m\<lparr>mc_stack := s\<rparr>) v)"

definition push_u256 :: "u256 \<Rightarrow> Machine \<Rightarrow> (Machine \<Rightarrow> eval_result) \<Rightarrow> eval_result" where
  "push_u256 v m k = (case Stack_push v (mc_stack m) of
     Inl e \<Rightarrow> exit_with (Error e) m
   | Inr s \<Rightarrow> k (m\<lparr>mc_stack := s\<rparr>))"

definition resize_or_fail :: "u256 \<Rightarrow> u256 \<Rightarrow> Machine \<Rightarrow> (Machine \<Rightarrow> eval_result) \<Rightarrow> eval_result" where
  "resize_or_fail offset len m k = (case resize_offset offset len (mc_memory m) of
     Inl e \<Rightarrow> exit_with (Error e) m
   | Inr mem \<Rightarrow> k (m\<lparr>mc_memory := mem\<rparr>))"

definition as_usize_or_fail :: "u256 \<Rightarrow> ExitReason \<Rightarrow> Machine \<Rightarrow> (nat \<Rightarrow> eval_result) \<Rightarrow> eval_result" where
  "as_usize_or_fail v reason m k =
     (if \<not> fits_usize v then exit_with reason m
      else case as_usize v of Some n \<Rightarrow> k n | None \<Rightarrow> None)"

definition continue_with :: "nat \<Rightarrow> Machine \<Rightarrow> eval_result" where
  "continue_with n m = Some (m, Continue n)"

definition memory_or_fail :: "ExitFatal + Memory \<Rightarrow> Machine \<Rightarrow> eval_result" where
  "memory_or_fail r m = (case r of
     Inr mem \<Rightarrow> continue_with 1 (m\<lparr>mc_memory := mem\<rparr>)
   | Inl e \<Rightarrow> exit_with (Fatal e) m)"

definition op1_u256_fn :: "(u256 \<Rightarrow> u256) \<Rightarrow> Machine \<Rightarrow> nat \<Rightarrow> eval_result" where
  "op1_u256_fn f m position = pop_u256 m (\<lambda>m op1. push_u256 (f op1) m (continue_with 1))"

definition op2_u256_fn :: "(u256 \<Rightarrow> u256 \<Rightarrow> u256 option) \<Rightarrow> Machine \<Rightarrow> nat \<Rightarrow> eval_result" where
  "op2_u256_fn f m position =
     pop_u256 m (\<lambda>m op1. pop_u256 m (\<lambda>m op2.
       case f op1 op2 of Some ret \<Rightarrow> push_u256 ret m (continue_with 1) | None \<Rightarrow> None))"

definition op2_u256 :: "(u256 \<Rightarrow> u256 \<Rightarrow> u256) \<Rightarrow> Machine \<Rightarrow> nat \<Rightarrow> eval_result" where
  "op2_u256 f m position =
     pop_u256 m (\<lambda>m op1. pop_u256 m (\<lambda>m op2. push_u256 (f op1 op2) m (continue_with 1)))"

definition op2_u256_bool_ref :: "(u256 \<Rightarrow> u256 \<Rightarrow> bool) \<Rightarrow> Machine \<Rightarrow> nat \<Rightarrow> eval_result" where
  "op2_u256_bool_ref f m position =
     pop_u256 m (\<lambda>m op1. pop_u256 m (\<lambda>m op2. push_u256 (if f op1 op2 then 1 else 0) m (continue_with 1)))"

definition op3_u256_fn :: "(u256 \<Rightarrow> u256 \<Rightarrow> u256 \<Rightarrow> u256 option) \<Rightarrow> Machine \<Rightarrow> nat \<Rightarrow> eval_result" where
  "op3_u256_fn f m position =
     pop_u256 m (\<lambda>m op1. pop_u256 m (\<lambda>m op2. pop_u256 m (\<lambda>m op3.
       case f op1 op2 op3 of Some ret \<Rightarrow> push_u256 ret m (continue_with 1) | None \<Rightarrow> None)))"

section \<open>Opcode functions\<close>

definition eval_codesize :: "Machine \<Rightarrow> nat \<Rightarrow> eval_result" where
  "eval_codesize m position = push_u256 (of_nat (length (mc_code m))) m (continue_with 1)"

definition eval_codecopy :: "Machine \<Rightarrow> nat \<Rightarrow> eval_result" where
  "eval_codecopy m position =
     pop_u256 m (\<lambda>m memory_offset. pop_u256 m (\<lambda>m code_offset. pop_u256 m (\<lambda>m len.
       resize_or_fail memory_offset len m (\<lambda>m.
         memory_or_fail (copy_large memory_offset code_offset len (mc_code m) (mc_memory m)) m))))"

definition calldata_byte :: "u8 list \<Rightarrow> u256 \<Rightarrow> nat \<Rightarrow> u8" where
  "calldata_byte d index i = (case checked_add index (of_nat i) of
     Some p \<Rightarrow> if fits_usize p then if unat p < length d then d ! unat p else 0 else 0
   | None \<Rightarrow> 0)"

definition eval_calldataload :: "Machine \<Rightarrow> nat \<Rightarrow> eval_result" where
  "eval_calldataload m position =
     pop_u256 m (\<lambda>m index.
       push_u256 (from_be (map (calldata_byte (mc_data m) index) [0..<32])) m (continue_with 1))"

definition eval_calldatasize :: "Machine \<Rightarrow> nat \<Rightarrow> eval_result" where
  "eval_calldatasize m position = push_u256 (of_nat (length (mc_data m))) m (continue_with 1)"

definition eval_calldatacopy :: "Machine \<Rightarrow> nat \<Rightarrow> eval_result" where
  "eval_calldatacopy m position =
     pop_u256 m (\<lambda>m memory_offset. pop_u256 m (\<lambda>m data_offset. pop_u256 m (\<lambda>m len.
       resize_or_fail memory_offset len m (\<lambda>m.
         if len = 0 then continue_with 1 m
         else memory_or_fail (copy_large memory_offset data_offset len (mc_data m) (mc_memory m)) m))))"

definition eval_pop :: "Machine \<Rightarrow> nat \<Rightarrow> eval_result" where
  "eval_pop m position = pop_u256 m (\<lambda>m val. continue_with 1 m)"

definition eval_mload :: "Machine \<Rightarrow> nat \<Rightarrow> eval_result" where
  "eval_mload m position =
     pop_u256 m (\<lambda>m index.
       resize_or_fail index 32 m (\<lambda>m.
         as_usize_or_fail index (Fatal NotSupported) m (\<lambda>i.
           push_u256 (from_be (Memory_get i 32 (mc_memory m))) m (continue_with 1))))"

definition eval_mstore :: "Machine \<Rightarrow> nat \<Rightarrow> eval_result" where
  "eval_mstore m position =
     pop_u256 m (\<lambda>m index. pop_u256 m (\<lambda>m val.
       resize_or_fail index 32 m (\<lambda>m.
         as_usize_or_fail index (Fatal NotSupported) m (\<lambda>i.
           memory_or_fail (Memory_set i (be_bytes 32 val) (Some 32) (mc_memory m)) m))))"

definition eval_mstore8 :: "Machine \<Rightarrow> nat \<Rightarrow> eval_result" where
  "eval_mstore8 m position =
     pop_u256 m (\<lambda>m index. pop_u256 m (\<lambda>m val.
       resize_or_fail index 1 m (\<lambda>m.
         as_usize_or_fail index (Fatal NotSupported) m (\<lambda>i.
           memory_or_fail (Memory_set i [ucast (and (ucast val :: u32) 0xff)] (Some 1) (mc_memory m)) m))))"

definition eval_jump :: "Machine \<Rightarrow> nat \<Rightarrow> eval_result" where
  "eval_jump m position =
     pop_u256 m (\<lambda>m dest.
       as_usize_or_fail dest (Error InvalidJump) m (\<lambda>dest.
         if is_valid (mc_valids m) dest then Some (m, Jump dest) else exit_with (Error InvalidJump) m))"

definition eval_jumpi :: "Machine \<Rightarrow> nat \<Rightarrow> eval_result" where
  "eval_jumpi m position =
     pop_u256 m (\<lambda>m dest. pop_u256 m (\<lambda>m val.
       if val \<noteq> 0 then
         as_usize_or_fail dest (Error InvalidJump) m (\<lambda>dest.
           if is_valid (mc_valids m) dest then Some (m, Jump dest) else exit_with (Error InvalidJump) m)
       else continue_with 1 m))"

definition eval_pc :: "Machine \<Rightarrow> nat \<Rightarrow> eval_result" where
  "eval_pc m position = push_u256 (of_nat position) m (continue_with 1)"

definition eval_msize :: "Machine \<Rightarrow> nat \<Rightarrow> eval_result" where
  "eval_msize m position = push_u256 (mem_effective_len (mc_memory m)) m (continue_with 1)"

text \<open>Slicing \<open>code[from..to]\<close> panics unless \<open>from \<le> to \<le> len\<close>.\<close>

definition slice_bytes :: "nat \<Rightarrow> nat \<Rightarrow> u8 list \<Rightarrow> u8 list option" where
  "slice_bytes from to bs = (if from \<le> to \<and> to \<le> length bs then Some (drop from (take to bs)) else None)"

definition eval_push :: "nat \<Rightarrow> Machine \<Rightarrow> nat \<Rightarrow> eval_result" where
  "eval_push n m position =
     (let end = min (position + 1 + n) (length (mc_code m))
      in case slice_bytes (position + 1) end (mc_code m) of
          None \<Rightarrow> None
        | Some sl \<Rightarrow>
            push_u256 (from_be (write_bytes (32 - n) sl (replicate 32 0))) m (continue_with (1 + n)))"

definition eval_dup :: "nat \<Rightarrow> Machine \<Rightarrow> nat \<Rightarrow> eval_result" where
  "eval_dup n m position = (case Stack_peek (n - 1) (mc_stack m) of
     Inl e \<Rightarrow> exit_with (Error e) m
   | Inr v \<Rightarrow> push_u256 v m (continue_with 1))"

definition eval_swap :: "nat \<Rightarrow> Machine \<Rightarrow> nat \<Rightarrow> eval_result" where
  "eval_swap n m position = (case Stack_peek 0 (mc_stack m) of
     Inl e \<Rightarrow> exit_with (Error e) m
   | Inr val1 \<Rightarrow> (case Stack_peek n (mc_stack m) of
       Inl e \<Rightarrow> exit_with (Error e) m
     | Inr val2 \<Rightarrow> (case Stack_set 0 val2 (mc_stack m) of
         Inl e \<Rightarrow> exit_with (Error e) m
       | Inr s \<Rightarrow> (case Stack_set n val1 s of
           Inl e \<Rightarrow> exit_with (Error e) (m\<lparr>mc_stack := s\<rparr>)
         | Inr s \<Rightarrow> continue_with 1 (m\<lparr>mc_stack := s\<rparr>)))))"

definition eval_ret :: "Machine \<Rightarrow> nat \<Rightarrow> eval_result" where
  "eval_ret m position =
     pop_u256 m (\<lambda>m start. pop_u256 m (\<lambda>m len.
       resize_or_fail start len m (\<lambda>m.
         case checked_add start len of
           None \<Rightarrow> None
         | Some end \<Rightarrow> exit_with (Succeed Returned) (m\<lparr>mc_return_range := (start, end)\<rparr>))))"

definition eval_revert :: "Machine \<Rightarrow> nat \<Rightarrow> eval_result" where
  "eval_revert m position =
     pop_u256 m (\<lambda>m start. pop_u256 m (\<lambda>m len.
       resize_or_fail start len m (\<lambda>m.
         case checked_add start len of
           None \<Rightarrow> None
         | Some end \<Rightarrow> exit_with (Revert Reverted) (m\<lparr>mc_return_range := (start, end)\<rparr>))))"

definition eval_stop :: "Machine \<Rightarrow> nat \<Rightarrow> eval_result" where
  "eval_stop m position = exit_with (Succeed Stopped) m"

definition eval_jumpdest :: "Machine \<Rightarrow> nat \<Rightarrow> eval_result" where
  "eval_jumpdest m position = continue_with 1 m"

definition eval_invalid :: "Machine \<Rightarrow> nat \<Rightarrow> eval_result" where
  "eval_invalid m position = exit_with (Error DesignatedInvalid) m"

definition eval_external :: "Opcode \<Rightarrow> Machine \<Rightarrow> nat \<Rightarrow> eval_result" where
  "eval_external opcode m position = Some (m, ControlTrap opcode)"

section \<open>Dispatch\<close>

definition basic_table :: "(Opcode \<times> (Machine \<Rightarrow> nat \<Rightarrow> eval_result)) list" where
  "basic_table =
     [(0x00, eval_stop),
      (0x01, op2_u256 (+)),
      (0x02, op2_u256 (*)),
      (0x03, op2_u256 (-)),
      (0x04, op2_u256 div_u256),
      (0x05, op2_u256_fn sdiv_u256),
      (0x06, op2_u256 rem_u256),
      (0x07, op2_u256_fn srem_u256),
      (0x08, op3_u256_fn addmod),
      (0x09, op3_u256_fn mulmod),
      (0x0a, op2_u256 exp_u256),
      (0x0b, op2_u256 signextend),
      (0x10, op2_u256_bool_ref (<)),
      (0x11, op2_u256_bool_ref (>)),
      (0x12, op2_u256_fn slt),
      (0x13, op2_u256_fn sgt),
      (0x14, op2_u256_bool_ref (=)),
      (0x15, op1_u256_fn iszero),
      (0x16, op2_u256 and),
      (0x17, op2_u256 or),
      (0x18, op2_u256 xor),
      (0x19, op1_u256_fn not_u256),
      (0x1a, op2_u256 byte),
      (0x1b, op2_u256 shl),
      (0x1c, op2_u256 shr),
      (0x1d, op2_u256_fn sar),
      (0x35, eval_calldataload),
      (0x36, eval_calldatasize),
      (0x37, eval_calldatacopy),
      (0x38, eval_codesize),
      (0x39, eval_codecopy),
      (0x50, eval_pop),
      (0x51, eval_mload),
      (0x52, eval_mstore),
      (0x53, eval_mstore8),
      (0x56, eval_jump),
      (0x57, eval_jumpi),
      (0x58, eval_pc),
      (0x59, eval_msize),
      (0x5b, eval_jumpdest),
      (0xf3, eval_ret),
      (0xfd, eval_revert),
      (0xfe, eval_invalid)]"

definition eval_table :: "(Opcode \<times> (Machine \<Rightarrow> nat \<Rightarrow> eval_result)) list" where
  "eval_table =
     basic_table
     @ map (\<lambda>n. (0x5f + of_nat n, eval_push n)) [0..<33]
     @ map (\<lambda>n. (0x7f + of_nat n, eval_dup n)) [1..<17]
     @ map (\<lambda>n. (0x8f + of_nat n, eval_swap n)) [1..<17]"

definition eval :: "Machine \<Rightarrow> Opcode \<Rightarrow> nat \<Rightarrow> eval_result" where
  "eval m opcode position = (case map_of eval_table opcode of
     Some f \<Rightarrow> f m position
   | None \<Rightarrow> eval_external opcode m position)"

section \<open>Step and run\<close>

type_synonym Trap = Opcode

definition Machine_step :: "Machine \<Rightarrow> (Machine \<times> ((ExitReason, Trap) Capture + unit)) option" where
  "Machine_step m = (case mc_position m of
     Inl reason \<Rightarrow> Some (m, Inl (CaptureExit reason))
   | Inr position \<Rightarrow>
       if position < length (mc_code m) then
         (case eval m (mc_code m ! position) position of
            None \<Rightarrow> None
          | Some (m, Continue p) \<Rightarrow> Some (m\<lparr>mc_position := Inr (position + p)\<rparr>, Inr ())
          | Some (m, ControlExit e) \<Rightarrow> Some (m\<lparr>mc_position := Inl e\<rparr>, Inl (CaptureExit e))
          | Some (m, Jump p) \<Rightarrow> Some (m\<lparr>mc_position := Inr p\<rparr>, Inr ())
          | Some (m, ControlTrap opcode) \<Rightarrow>
              Some (m\<lparr>mc_position := Inr (position + 1)\<rparr>, Inl (CaptureTrap opcode)))
       else Some (m\<lparr>mc_position := Inl (Succeed Stopped)\<rparr>, Inl (CaptureExit (Succeed Stopped))))"

text \<open>
  The loop may not end: \<open>Some (m, None)\<close> is a run that has taken as many steps as it was given fuel
  and has not stopped.
\<close>

fun Machine_run :: "nat \<Rightarrow> Machine \<Rightarrow> (Machine \<times> (ExitReason, Trap) Capture option) option" where
  "Machine_run 0 m = Some (m, None)"
| "Machine_run (Suc fuel) m = (case Machine_step m of
     None \<Rightarrow> None
   | Some (m, Inr ()) \<Rightarrow> Machine_run fuel m
   | Some (m, Inl res) \<Rightarrow> Some (m, Some res))"

section \<open>Invariant of the machine\<close>

definition core_ok :: "u8 list \<Rightarrow> Machine \<Rightarrow> bool" where
  "core_ok code m \<longleftrightarrow> stack_ok (mc_stack m) \<and> memory_ok (mc_memory m) \<and> mc_code m = code
     \<and> mc_valids m = Valids_new code \<and> fst (mc_return_range m) \<le> snd (mc_return_range m)"

definition machine_ok :: "Machine \<Rightarrow> bool" where
  "machine_ok m \<longleftrightarrow> core_ok (mc_code m) m \<and> (case mc_position m of Inr p \<Rightarrow> boundary (mc_code m) p | Inl _ \<Rightarrow> True)"

text \<open>
  What an opcode function owes its caller: it does not panic, it keeps the invariant, it continues behind
  its immediate data of \<open>w\<close> bytes and jumps, if at all (\<open>j\<close>), to a valid destination.
\<close>

definition op_safe :: "u8 list \<Rightarrow> nat \<Rightarrow> bool \<Rightarrow> eval_result \<Rightarrow> bool" where
  "op_safe code w j r \<longleftrightarrow> (case r of None \<Rightarrow> False | Some (m, c) \<Rightarrow> core_ok code m \<and> (case c of
     Continue n \<Rightarrow> n = 1 + w | Jump p \<Rightarrow> j \<and> is_valid (Valids_new code) p | ControlExit _ \<Rightarrow> True
   | ControlTrap _ \<Rightarrow> False))"

lemma op_safe_exit [intro]: "core_ok code m \<Longrightarrow> op_safe code w j (exit_with e m)"
  by (simp add: op_safe_def exit_with_def)

lemma op_safe_continue [intro]: "core_ok code m \<Longrightarrow> n = 1 + w \<Longrightarrow> op_safe code w j (continue_with n m)"
  by (simp add: op_safe_def continue_with_def)

lemma core_ok_stack: "core_ok code m \<Longrightarrow> stack_ok s \<Longrightarrow> core_ok code (m\<lparr>mc_stack := s\<rparr>)"
  by (simp add: core_ok_def)

lemma core_ok_memory: "core_ok code m \<Longrightarrow> memory_ok mem \<Longrightarrow> core_ok code (m\<lparr>mc_memory := mem\<rparr>)"
  by (simp add: core_ok_def)

lemma core_okD: "core_ok code m \<Longrightarrow> stack_ok (mc_stack m)" "core_ok code m \<Longrightarrow> memory_ok (mc_memory m)"
  "core_ok code m \<Longrightarrow> mc_code m = code" "core_ok code m \<Longrightarrow> mc_valids m = Valids_new code"
  by (simp_all add: core_ok_def)

lemma op_safe_pop:
  assumes "core_ok code m" "\<And>m' v. core_ok code m' \<Longrightarrow> op_safe code w j (k m' v)"
  shows "op_safe code w j (pop_u256 m k)"
  using assms core_ok_stack [OF assms(1)] stack_ok_pop [OF core_okD(1) [OF assms(1)]]
  by (auto simp: pop_u256_def split: sum.splits)

lemma op_safe_push:
  assumes "core_ok code m" "\<And>m'. core_ok code m' \<Longrightarrow> op_safe code w j (k m')"
  shows "op_safe code w j (push_u256 v m k)"
  using assms core_ok_stack [OF assms(1)] stack_ok_push [OF core_okD(1) [OF assms(1)]]
  by (auto simp: push_u256_def split: sum.splits)

lemma op_safe_resize:
  assumes "core_ok code m"
    "\<And>m' mem. core_ok code m' \<Longrightarrow> resize_offset offset len mem = Inr (mc_memory m') \<Longrightarrow> op_safe code w j (k m')"
  shows "op_safe code w j (resize_or_fail offset len m k)"
  using assms core_ok_memory [OF assms(1)] memory_ok_resize [OF core_okD(2) [OF assms(1)]]
  by (auto simp: resize_or_fail_def split: sum.splits)

lemma op_safe_usize:
  assumes "core_ok code m" "\<And>n. op_safe code w j (k n)"
  shows "op_safe code w j (as_usize_or_fail v e m k)"
  using assms by (auto simp: as_usize_or_fail_def as_usize_def)

lemma op_safe_memory:
  assumes "core_ok code m" "\<And>mem. r = Inr mem \<Longrightarrow> memory_ok mem"
  shows "op_safe code 0 j (memory_or_fail r m)"
  using assms core_ok_memory [OF assms(1)] by (auto simp: memory_or_fail_def split: sum.splits)

lemmas op_safe_intros = op_safe_exit op_safe_continue op_safe_pop op_safe_push op_safe_resize op_safe_usize op_safe_memory

lemma op_safe_arith:
  assumes "core_ok code m"
  shows "op_safe code 0 j (op1_u256_fn f m p)"
    and "op_safe code 0 j (op2_u256 g m p)"
    and "op_safe code 0 j (op2_u256_bool_ref b m p)"
    and "(\<And>x y. \<exists>z. h x y = Some z) \<Longrightarrow> op_safe code 0 j (op2_u256_fn h m p)"
    and "(\<And>x y u. \<exists>z. i x y u = Some z) \<Longrightarrow> op_safe code 0 j (op3_u256_fn i m p)"
proof -
  show "op_safe code 0 j (op1_u256_fn f m p)" "op_safe code 0 j (op2_u256 g m p)"
    "op_safe code 0 j (op2_u256_bool_ref b m p)"
    by (auto simp: op1_u256_fn_def op2_u256_def op2_u256_bool_ref_def intro!: op_safe_intros assms)
  show "op_safe code 0 j (op2_u256_fn h m p)" if "\<And>x y. \<exists>z. h x y = Some z"
    unfolding op2_u256_fn_def using that
    by (auto intro!: op_safe_pop assms split: option.split) (metis option.distinct(1), auto intro!: op_safe_intros)
  show "op_safe code 0 j (op3_u256_fn i m p)" if "\<And>x y u. \<exists>z. i x y u = Some z"
    unfolding op3_u256_fn_def using that
    by (auto intro!: op_safe_pop assms split: option.split) (metis option.distinct(1), auto intro!: op_safe_intros)
qed

lemma resize_offset_checked_add: "resize_offset a b mem = Inr mem' \<Longrightarrow> \<exists>c. checked_add a b = Some c \<and> a \<le> c"
proof -
  assume r: "resize_offset a b mem = Inr mem'"
  show ?thesis
  proof (cases "b = 0")
    case True
    then show ?thesis using uint_lt_256 [of a] by (simp add: checked_add_code)
  next
    case False
    then obtain c where c: "checked_add a b = Some c" using r by (auto simp: resize_offset_def split: option.splits)
    then have "c = a + b" "uint a + uint b < 2 ^ 256" by (simp_all add: checked_add_code split: if_splits)
    then have "uint c = uint a + uint b" using uint_add_lem [of a b] by simp
    then show ?thesis using c uint_lt_256(1) [of b] by (simp add: word_le_def)
  qed
qed

lemma core_ok_range: "core_ok code m \<Longrightarrow> a \<le> b \<Longrightarrow> core_ok code (m\<lparr>mc_return_range := (a, b)\<rparr>)"
  by (simp add: core_ok_def)

lemma op_safe_return:
  assumes "core_ok code m"
  shows "op_safe code 0 j (eval_ret m p)" "op_safe code 0 j (eval_revert m p)"
  unfolding eval_ret_def eval_revert_def
  by (auto intro!: op_safe_pop op_safe_resize assms op_safe_exit core_ok_range
      dest!: resize_offset_checked_add split: option.splits)

lemma core_ok_written:
  "core_ok code m \<Longrightarrow> copy_large a b len d (mc_memory m) = Inr mem \<Longrightarrow> memory_ok mem"
  "core_ok code m \<Longrightarrow> Memory_set i bs n (mc_memory m) = Inr mem \<Longrightarrow> memory_ok mem"
  by (auto dest: core_okD(2))

lemma op_safe_misc:
  assumes "core_ok code m"
  shows "op_safe code 0 j (eval_codesize m p)" "op_safe code 0 j (eval_codecopy m p)"
    "op_safe code 0 j (eval_calldataload m p)" "op_safe code 0 j (eval_calldatasize m p)"
    "op_safe code 0 j (eval_calldatacopy m p)" "op_safe code 0 j (eval_pop m p)"
    "op_safe code 0 j (eval_mload m p)" "op_safe code 0 j (eval_mstore m p)"
    "op_safe code 0 j (eval_mstore8 m p)" "op_safe code 0 j (eval_pc m p)" "op_safe code 0 j (eval_msize m p)"
    "op_safe code 0 j (eval_stop m p)" "op_safe code 0 j (eval_jumpdest m p)" "op_safe code 0 j (eval_invalid m p)"
    "op_safe code 0 j (eval_dup n m p)"
  using assms
  by (auto simp: eval_codesize_def eval_codecopy_def eval_calldataload_def eval_calldatasize_def
      eval_calldatacopy_def eval_pop_def eval_mload_def eval_mstore_def eval_mstore8_def eval_pc_def eval_msize_def
      eval_stop_def eval_jumpdest_def eval_invalid_def eval_dup_def
      intro!: op_safe_intros intro: core_ok_written split: sum.split)

lemma op_safe_jump:
  assumes "core_ok code m"
  shows "op_safe code 0 True (eval_jump m p)" "op_safe code 0 True (eval_jumpi m p)"
proof -
  have j: "op_safe code 0 True (as_usize_or_fail v e m' (\<lambda>d.
      if is_valid (mc_valids m') d then Some (m', Jump d) else exit_with e m'))" if "core_ok code m'" for v m' e
  proof (rule op_safe_usize [OF that])
    show "op_safe code 0 True (if is_valid (mc_valids m') d then Some (m', Jump d) else exit_with e m')" for d
      using that core_okD(4) [OF that] by (auto simp: op_safe_def exit_with_def)
  qed
  show "op_safe code 0 True (eval_jump m p)" "op_safe code 0 True (eval_jumpi m p)"
    unfolding eval_jump_def eval_jumpi_def by (auto intro!: op_safe_pop op_safe_continue assms j)
qed

lemma op_safe_swap:
  assumes "core_ok code m"
  shows "op_safe code 0 j (eval_swap n m p)"
  using assms core_ok_stack [OF assms] core_okD(1) [OF assms]
  by (auto simp: eval_swap_def intro!: op_safe_intros split: sum.split dest: stack_ok_set)

lemma op_safe_eval_push:
  assumes "core_ok code m" "p < length code"
  shows "op_safe code n j (eval_push n m p)"
  using assms core_okD(3) [OF assms(1)]
  by (auto simp: eval_push_def slice_bytes_def Let_def intro!: op_safe_push op_safe_continue)

text \<open>Every entry of the dispatch table, and the table as a whole.\<close>

definition jump_opcode :: "Opcode \<Rightarrow> bool" where
  "jump_opcode opcode \<longleftrightarrow> opcode = 0x56 \<or> opcode = 0x57"

lemma push_width_table: "n < 33 \<Longrightarrow> push_width (0x5f + of_nat n) = n"
proof -
  assume n: "n < 33"
  have u: "unat (0x5f + of_nat n :: u8) = 0x5f + n" using n by (simp add: unat_word_ariths unat_of_nat)
  show ?thesis
  proof (cases n)
    case (Suc k)
    have "0x60 \<le> (0x5f + of_nat n :: u8)" "(0x5f + of_nat n :: u8) \<le> 0x7f"
      using u n Suc by (simp_all add: word_le_nat_alt)
    moreover have "(0x5f + of_nat n :: u8) - 0x60 + 1 = of_nat n" by (simp add: algebra_simps)
    ultimately show ?thesis using n by (simp add: push_width_def is_push_def unat_of_nat)
  qed (simp add: push_width_def is_push_def)
qed

lemma no_push_width: "unat opcode < 0x60 \<or> 0x7f < unat opcode \<Longrightarrow> push_width opcode = 0"
  by (auto simp: push_width_def is_push_def word_le_nat_alt)

lemma basic_table_safe:
  assumes "(opcode, f) \<in> set basic_table" "core_ok code m"
  shows "op_safe code 0 (jump_opcode opcode) (f m p)" and "push_width opcode = 0"
proof -
  have "list_all (\<lambda>(opcode, f). op_safe code 0 (jump_opcode opcode) (f m p)) basic_table"
    by (simp add: basic_table_def jump_opcode_def op_safe_misc op_safe_return op_safe_jump op_safe_arith assms(2)
        sdiv_u256_correct srem_u256_correct addmod_correct mulmod_correct slt_correct sgt_correct sar_correct)
  then show "op_safe code 0 (jump_opcode opcode) (f m p)" using assms(1) by (auto simp: list_all_iff)
  have "list_all (\<lambda>(opcode, f). push_width opcode = 0) basic_table"
    by (simp add: basic_table_def push_width_def is_push_def word_le_nat_alt)
  then show "push_width opcode = 0" using assms(1) by (auto simp: list_all_iff)
qed

lemma eval_tableE:
  assumes "(opcode, f) \<in> set eval_table"
  obtains (basic) "(opcode, f) \<in> set basic_table"
  | (push) n where "n < 33" "opcode = 0x5f + of_nat n" "f = eval_push n"
  | (dup) n where "1 \<le> n" "n < 17" "opcode = 0x7f + of_nat n" "f = eval_dup n"
  | (swap) n where "1 \<le> n" "n < 17" "opcode = 0x8f + of_nat n" "f = eval_swap n"
  using assms unfolding eval_table_def set_append set_map set_upt by auto

lemma table_safe:
  assumes "(opcode, f) \<in> set eval_table" "core_ok code m" "p < length code"
  shows "op_safe code (push_width opcode) (jump_opcode opcode) (f m p)"
  using assms(1)
proof (cases rule: eval_tableE)
  case basic
  then show ?thesis using basic_table_safe [OF basic assms(2)] by simp
next
  case (push n)
  then show ?thesis using op_safe_eval_push [OF assms(2,3)] by (simp add: push_width_table)
next
  case (dup n)
  then have "push_width opcode = 0" by (intro no_push_width) (simp add: unat_word_ariths unat_of_nat)
  then show ?thesis using op_safe_misc(15) [OF assms(2)] dup by simp
next
  case (swap n)
  then have "push_width opcode = 0" by (intro no_push_width) (simp add: unat_word_ariths unat_of_nat)
  then show ?thesis using op_safe_swap [OF assms(2)] swap by simp
qed

lemma external_no_push: "map_of eval_table opcode = None \<Longrightarrow> push_width opcode = 0"
proof (rule no_push_width, rule ccontr)
  assume none: "map_of eval_table opcode = None" and "\<not> (unat opcode < 0x60 \<or> 0x7f < unat opcode)"
  then have le: "0x5f \<le> unat opcode" "unat opcode - 0x5f < 33" by linarith+
  have n: "0x5f + of_nat (unat opcode - 0x5f) = opcode" using le(1) by (simp add: of_nat_diff)
  have "(0x5f + of_nat (unat opcode - 0x5f), eval_push (unat opcode - 0x5f)) \<in> set eval_table"
    unfolding eval_table_def set_append set_map set_upt using le(2) by auto
  then show False using none n by (auto simp: map_of_eq_None_iff image_iff)
qed

lemma eval_safe:
  assumes "core_ok code m" "p < length code"
  shows "op_safe code (push_width opcode) (jump_opcode opcode) (eval m opcode p)
    \<or> eval m opcode p = Some (m, ControlTrap opcode) \<and> push_width opcode = 0"
  using table_safe [OF map_of_SomeD assms] external_no_push
  by (auto simp: eval_def eval_external_def split: option.splits)

lemma step_safe:
  assumes "machine_ok m"
  shows "\<exists>m' r. Machine_step m = Some (m', r) \<and> machine_ok m' \<and> mc_code m' = mc_code m"
proof (cases "mc_position m")
  case (Inl e)
  then show ?thesis using assms by (simp add: Machine_step_def)
next
  case (Inr p)
  have ok: "core_ok (mc_code m) m" "boundary (mc_code m) p" using assms Inr by (simp_all add: machine_ok_def)
  show ?thesis
  proof (cases "p < length (mc_code m)")
    case True
    define w where "w = push_width (mc_code m ! p)"
    have next_ok: "boundary (mc_code m) (Suc (p + w))" using ok(2) True w_def by (simp add: boundary_next)
    have pos: "core_ok c m' \<Longrightarrow> core_ok c (m'\<lparr>mc_position := q\<rparr>)" for c m' q by (simp add: core_ok_def)
    have jump: "is_valid (Valids_new c) q \<Longrightarrow> boundary c q" for c q
      using valids_loop_nth by (auto simp: is_valid_def Valids_new_def split: if_splits)
    from eval_safe [OF ok(1) True, of "mc_code m ! p"]
    show ?thesis
    proof
      assume "op_safe (mc_code m) (push_width (mc_code m ! p)) (jump_opcode (mc_code m ! p)) (eval m (mc_code m ! p) p)"
      then obtain m' c where e: "eval m (mc_code m ! p) p = Some (m', c)" and m': "core_ok (mc_code m) m'"
        and c: "case c of Continue n \<Rightarrow> n = 1 + w | Jump q \<Rightarrow> is_valid (Valids_new (mc_code m)) q
          | ControlExit _ \<Rightarrow> True | ControlTrap _ \<Rightarrow> False"
        by (auto simp: op_safe_def w_def split: option.splits prod.splits Control.splits)
      then show ?thesis using Inr True next_ok pos [OF m'] core_okD(3) [OF m'] jump
        by (cases c) (auto simp: Machine_step_def machine_ok_def)
    next
      assume "eval m (mc_code m ! p) p = Some (m, ControlTrap (mc_code m ! p)) \<and> push_width (mc_code m ! p) = 0"
      then show ?thesis using Inr True next_ok pos [OF ok(1)]
        by (auto simp: Machine_step_def machine_ok_def w_def)
    qed
  next
    case False
    then show ?thesis using Inr ok by (auto simp: Machine_step_def machine_ok_def core_ok_def)
  qed
qed

lemma machine_ok_new: "machine_ok (Machine_new code d ls lm)"
  by (simp add: machine_ok_def core_ok_def Machine_new_def boundary_start)

lemma run_safe:
  "machine_ok m \<Longrightarrow> \<exists>m' r. Machine_run fuel m = Some (m', r) \<and> machine_ok m' \<and> mc_code m' = mc_code m"
proof (induction fuel arbitrary: m)
  case (Suc fuel)
  obtain m1 r where s: "Machine_step m = Some (m1, r)" "machine_ok m1" "mc_code m1 = mc_code m"
    using step_safe [OF Suc.prems] by blast
  then show ?case using Suc.IH [OF s(2)] by (cases r) (auto split: unit.split)
qed simp

lemma return_value_defined:
  "fst (mc_return_range m) \<le> snd (mc_return_range m) \<Longrightarrow>
   snd (mc_return_range m) - fst (mc_return_range m) \<le> 18446744073709551615 \<Longrightarrow> return_value m \<noteq> None"
  by (auto simp: return_value_def checked_sub_def as_usize_def fits_usize_def Let_def split: prod.splits)


text \<open>The addition of 2 and 3, stored at address 0 and returned.\<close>

definition sample_code :: "u8 list" where
  "sample_code = [0x60, 3, 0x60, 2, 0x01, 0x60, 0, 0x52, 0x60, 32, 0x60, 0, 0xf3]"

definition sample_machine :: Machine where
  "sample_machine = Machine_new sample_code [] 8 64"

lemma sample_run:
  "map_option (\<lambda>(m, r). (r, return_value m)) (Machine_run 8 sample_machine)
     = Some (Some (CaptureExit (Succeed Returned)), Some (replicate 31 0 @ [5]))"
  by code_simp


section \<open>Stores and loads\<close>

lemma pop_u256_snoc:
  "stack_data (mc_stack m) = xs @ [v] \<Longrightarrow> pop_u256 m k = k (m\<lparr>mc_stack := (mc_stack m)\<lparr>stack_data := xs\<rparr>\<rparr>) v"
  by (simp add: pop_u256_def Stack_pop_def)

lemma resize_offset_again:
  assumes "resize_offset a b mem = Inr mem1" "mem_effective_len mem2 = mem_effective_len mem1"
  shows "resize_offset a b mem2 = Inr mem2"
proof -
  have "x \<le> y" if "next_multiple_of_32 x = Some y" for x y
  proof -
    have y: "y = word_of_int ((uint x + 31) div 32 * 32)" "(uint x + 31) div 32 * 32 < 2 ^ 256"
      using that by (simp_all add: next_multiple_of_32_spec split: if_splits)
    moreover have "0 \<le> (uint x + 31) div 32 * 32"
      using uint_lt_256(1) [of x] by (simp add: pos_imp_zdiv_nonneg_iff)
    ultimately have "uint y = (uint x + 31) div 32 * 32" by (simp only: uint_word_of_int_256)
    then have "uint x \<le> uint y" using round_up_32 [of "uint x"] pos_mod_sign [of 32 "- uint x"] by linarith
    then show ?thesis by (simp add: word_le_def)
  qed
  then show ?thesis using assms
    by (auto simp: resize_offset_def resize_end_def not_less split: if_splits option.splits dest: leD)
qed

lemma Memory_set_keeps: "Memory_set i bs n mem = Inr mem' \<Longrightarrow> mem_effective_len mem' = mem_effective_len mem \<and> mem_limit mem' = mem_limit mem"
  by (auto simp: Memory_set_cases Let_def split: if_splits)

lemma Memory_get_set:
  assumes "Memory_set i (be_bytes 32 v) (Some 32) mem = Inr mem'"
  shows "from_be (Memory_get i 32 mem') = v"
proof -
  have "Memory_get i 32 mem' = map (\<lambda>k. be_bytes 32 v ! k) [0..<32]"
    unfolding Memory_get_bytes using Memory_set_byte [OF assms] by (intro map_cong refl) (simp del: upt_rec_numeral)
  also have "\<dots> = be_bytes 32 v" using map_nth [of "be_bytes 32 v"] by (simp only: length_be_bytes)
  finally show ?thesis by simp
qed

lemma eval_mstore_ok:
  assumes "stack_data (mc_stack m) = xs @ [val, index]" "eval_mstore m p = Some (m1, Continue 1)"
  obtains mem1 mem2 where "resize_offset index 32 (mc_memory m) = Inr mem1" "fits_usize index"
    "Memory_set (unat index) (be_bytes 32 val) (Some 32) mem1 = Inr mem2"
    "m1 = m\<lparr>mc_stack := (mc_stack m)\<lparr>stack_data := xs\<rparr>, mc_memory := mem2\<rparr>"
proof -
  have pops: "pop_u256 m k = k (m\<lparr>mc_stack := (mc_stack m)\<lparr>stack_data := xs @ [val]\<rparr>\<rparr>) index" for k
    using assms(1) by (intro pop_u256_snoc) simp
  show thesis using assms(2) that unfolding eval_mstore_def pops
    by (subst (asm) pop_u256_snoc [where xs = xs and v = val])
      (auto simp: resize_or_fail_def as_usize_or_fail_def as_usize_def memory_or_fail_def exit_with_def
        continue_with_def split: sum.splits if_splits)
qed

lemma resize_offset_bytes: "resize_offset a b mem = Inr mem1 \<Longrightarrow> mem_byte mem1 i = mem_byte mem i"
  by (auto simp: resize_offset_def resize_end_def mem_byte_def split: if_splits option.splits)

text \<open>What \<open>MSTORE\<close> writes, \<open>MLOAD\<close> reads.  When \<open>MSTORE\<close> succeeds on a stack that ends in a value and an address,
  an \<open>MLOAD\<close> of the same address on the machine it leaves succeeds, pushes exactly that value, and changes neither
  the memory nor its effective length; no byte outside the 32 bytes at the address has changed.
\<close>

theorem mstore_mload:
  assumes "stack_ok (mc_stack m)"
    and "stack_data (mc_stack m) = xs @ [val, index]"
    and "eval_mstore m p = Some (m1, Continue 1)"
  shows "(\<exists>m2. eval_mload (m1\<lparr>mc_stack := (mc_stack m1)\<lparr>stack_data := xs @ [index]\<rparr>\<rparr>) q = Some (m2, Continue 1)
        \<and> stack_data (mc_stack m2) = xs @ [val] \<and> mc_memory m2 = mc_memory m1)
    \<and> (\<forall>i. i < unat index \<or> unat index + 32 \<le> i \<longrightarrow> mem_byte (mc_memory m1) i = mem_byte (mc_memory m) i)"
proof -
  obtain mem1 mem2 where m1: "resize_offset index 32 (mc_memory m) = Inr mem1" "fits_usize index"
    "Memory_set (unat index) (be_bytes 32 val) (Some 32) mem1 = Inr mem2"
    "m1 = m\<lparr>mc_stack := (mc_stack m)\<lparr>stack_data := xs\<rparr>, mc_memory := mem2\<rparr>"
    using eval_mstore_ok [OF assms(2,3)] .
  have "resize_offset index 32 mem2 = Inr mem2"
    using Memory_set_keeps [OF m1(3)] by (intro resize_offset_again [OF m1(1)]) simp
  moreover have "from_be (Memory_get (unat index) 32 mem2) = val" by (rule Memory_get_set [OF m1(3)])
  moreover have "length xs + 1 \<le> stack_limit (mc_stack m)" using assms(1,2) by (simp add: stack_ok_def)
  ultimately have "\<exists>m2. eval_mload (m1\<lparr>mc_stack := (mc_stack m1)\<lparr>stack_data := xs @ [index]\<rparr>\<rparr>) q = Some (m2, Continue 1)
      \<and> stack_data (mc_stack m2) = xs @ [val] \<and> mc_memory m2 = mc_memory m1"
    using m1(2) unfolding m1(4) eval_mload_def
    by (subst pop_u256_snoc [where xs = xs and v = index])
      (simp_all add: resize_or_fail_def as_usize_or_fail_def as_usize_def push_u256_def Stack_push_def continue_with_def)
  moreover have "mem_byte (mc_memory m1) i = mem_byte (mc_memory m) i" if "i < unat index \<or> unat index + 32 \<le> i" for i
    using that Memory_set_byte [OF m1(3), of i] resize_offset_bytes [OF m1(1)] m1(4) by auto
  ultimately show ?thesis by blast
qed

definition store_machine :: Machine where
  "store_machine = (Machine_new [] [] 8 64)\<lparr>mc_stack := \<lparr>stack_data = [0xabcdef, 3], stack_limit = 8\<rparr>\<rparr>"

definition stored_machine :: Machine where
  "stored_machine = fst (the (eval_mstore store_machine 0))"

lemma store_machine_runs: "map_option snd (eval_mstore store_machine 0) = Some (Continue 1)"
  by code_simp

theorem mstore_mload_witness:
  "\<exists>m2. eval_mload (stored_machine\<lparr>mc_stack := (mc_stack stored_machine)\<lparr>stack_data := [3]\<rparr>\<rparr>) 1 = Some (m2, Continue 1)
     \<and> stack_data (mc_stack m2) = [0xabcdef]"
proof -
  have "eval_mstore store_machine 0 = Some (stored_machine, Continue 1)"
    using store_machine_runs by (auto simp: stored_machine_def)
  then show ?thesis
    using mstore_mload [of store_machine "[]" "0xabcdef" 3 0 stored_machine 1]
    by (auto simp: store_machine_def stack_ok_def)
qed

section \<open>Termination of code without jumps\<close>

lemma step_advances:
  assumes "machine_ok m" "mc_position m = Inr p" "p < length (mc_code m)" "\<not> jump_opcode (mc_code m ! p)"
    and "Machine_step m = Some (m', Inr ())"
  shows "\<exists>p'. mc_position m' = Inr p' \<and> p < p'"
proof -
  have ok: "core_ok (mc_code m) m" using assms(1) by (simp add: machine_ok_def)
  from eval_safe [OF ok assms(3), of "mc_code m ! p"] show ?thesis
    using assms(2-) by (auto simp: Machine_step_def op_safe_def split: option.splits prod.splits Control.splits)
qed

lemma run_without_jumps:
  assumes "machine_ok m" "list_all (\<lambda>b. \<not> jump_opcode b) (mc_code m)"
    and "0 < fuel" "case mc_position m of Inr p \<Rightarrow> length (mc_code m) < p + fuel | Inl _ \<Rightarrow> True"
  shows "\<exists>m' res. Machine_run fuel m = Some (m', Some res)"
  using assms
proof (induction fuel arbitrary: m)
  case (Suc fuel)
  obtain m1 r where s: "Machine_step m = Some (m1, r)" "machine_ok m1" "mc_code m1 = mc_code m"
    using step_safe [OF Suc.prems(1)] by blast
  show ?case
  proof (cases r)
    case (Inl res)
    then show ?thesis using s by simp
  next
    case (Inr u)
    then have s1: "Machine_step m = Some (m1, Inr ())" using s(1) by simp
    then obtain p where p: "mc_position m = Inr p" "p < length (mc_code m)"
      by (auto simp: Machine_step_def split: sum.splits if_splits)
    then have "\<not> jump_opcode (mc_code m ! p)" using Suc.prems(2) by (simp add: list_all_length)
    then obtain p' where "mc_position m1 = Inr p'" "p < p'" using step_advances [OF Suc.prems(1) p _ s1] by blast
    then have "\<exists>m' res. Machine_run fuel m1 = Some (m', Some res)"
      using Suc.prems(2,4) s(2,3) p by (intro Suc.IH) auto
    then show ?thesis using s1 by (simp split: unit.split)
  qed
qed simp

text \<open>Code without a jump terminates: a program that contains neither a \<open>JUMP\<close> nor a \<open>JUMPI\<close> byte stops (with an
  exit or a trap) after at most as many steps as it has bytes and one more, on every input and with every limit.
\<close>

theorem straight_line_terminates:
  assumes "list_all (\<lambda>b. \<not> jump_opcode b) code"
  shows "\<exists>m' res. Machine_run (Suc (length code)) (Machine_new code d limit_stack limit_memory) = Some (m', Some res)"
  using assms machine_ok_new [of code d limit_stack limit_memory]
  by (intro run_without_jumps) (simp_all add: Machine_new_def)

theorem straight_line_terminates_witness:
  "\<exists>m' res. Machine_run (Suc (length sample_code)) (Machine_new sample_code [] 8 64) = Some (m', Some res)"
proof -
  have "list_all (\<lambda>b. \<not> jump_opcode b) sample_code" by (simp add: sample_code_def jump_opcode_def)
  then show ?thesis by (rule straight_line_terminates)
qed

end
