(* ===== verification/Evm_Runtime.thy ===== *)
theory Evm_Runtime
  imports Evm_Machine Evm_Substate
begin

text \<open>
  The EVM runtime (\<open>crates/chase-evm/runtime/src\<close>): the machine of a call together with its context and its return
  data (\<open>lib.rs\<close>), the opcodes that need the outside world (\<open>eval/system.rs\<close>), their dispatch and the completion of a
  call or a creation (\<open>eval/mod.rs\<close>), and the loop that charges for an opcode before it steps the machine (the macro
  \<open>step!\<close>).  The trait \<open>Handler\<close> is the record of the methods that the runtime calls; \<open>'s\<close> is the state of the handler and
  \<open>'i\<close> its interrupt.  The macros of \<open>eval/macros.rs\<close> take the rest of the enclosing function as an argument.
  \<^const>\<open>None\<close> is a panic.
\<close>

section \<open>Context and handler\<close>

datatype CreateScheme =
    Legacy h160
  | Create2 (scheme_caller: h160) (scheme_code_hash: h256) (scheme_salt: h256)
  | FixedAddress h160

datatype CallScheme = SchemeCall | SchemeCallCode | SchemeDelegateCall | SchemeStaticCall

record Context =
  ctx_address :: h160
  ctx_caller :: h160
  ctx_apparent_value :: u256

type_synonym create_exit = "ExitReason \<times> h160 option \<times> u8 list"
type_synonym call_exit = "ExitReason \<times> u8 list"

record ('s, 'i) RuntimeHandler =
  rh_balance :: "h160 \<Rightarrow> 's \<Rightarrow> u256"
  rh_code_size :: "h160 \<Rightarrow> 's \<Rightarrow> u256"
  rh_code_hash :: "h160 \<Rightarrow> 's \<Rightarrow> h256"
  rh_code :: "h160 \<Rightarrow> 's \<Rightarrow> u8 list"
  rh_storage :: "h160 \<Rightarrow> h256 \<Rightarrow> 's \<Rightarrow> (ExitError + h256) \<times> 's"
  rh_gas_left :: "'s \<Rightarrow> u256"
  rh_gas_price :: "'s \<Rightarrow> u256"
  rh_origin :: "'s \<Rightarrow> h160"
  rh_block_hash :: "u256 \<Rightarrow> 's \<Rightarrow> h256"
  rh_block_number :: "'s \<Rightarrow> u256"
  rh_block_coinbase :: "'s \<Rightarrow> h160"
  rh_block_timestamp :: "'s \<Rightarrow> u256"
  rh_block_difficulty :: "'s \<Rightarrow> u256"
  rh_block_randomness :: "'s \<Rightarrow> h256 option"
  rh_block_gas_limit :: "'s \<Rightarrow> u256"
  rh_block_base_fee_per_gas :: "'s \<Rightarrow> u256"
  rh_chain_id :: "'s \<Rightarrow> u256"
  rh_set_storage :: "h160 \<Rightarrow> h256 \<Rightarrow> h256 \<Rightarrow> 's \<Rightarrow> (ExitError + unit) \<times> 's"
  rh_log :: "h160 \<Rightarrow> h256 list \<Rightarrow> u8 list \<Rightarrow> 's \<Rightarrow> (ExitError + unit) \<times> 's"
  rh_mark_delete :: "h160 \<Rightarrow> h160 \<Rightarrow> 's \<Rightarrow> (ExitError + unit) \<times> 's"
  rh_create :: "h160 \<Rightarrow> CreateScheme \<Rightarrow> u256 \<Rightarrow> u8 list \<Rightarrow> u64 option \<Rightarrow> 's \<Rightarrow> ((create_exit, 'i) Capture \<times> 's) option"
  rh_call :: "h160 \<Rightarrow> Transfer option \<Rightarrow> u8 list \<Rightarrow> u64 option \<Rightarrow> bool \<Rightarrow> Context \<Rightarrow> 's \<Rightarrow> ((call_exit, 'i) Capture \<times> 's) option"
  rh_pre_validate :: "Context \<Rightarrow> Opcode \<Rightarrow> Stack \<Rightarrow> 's \<Rightarrow> ((ExitError + unit) \<times> 's) option"
  rh_record_external_operation :: "ExternalOperation \<Rightarrow> 's \<Rightarrow> (ExitError + unit) \<times> 's"

section \<open>Runtime\<close>

record Runtime =
  rt_machine :: Machine
  rt_status :: "ExitReason + unit"
  rt_return_data_buffer :: "u8 list"
  rt_return_data_len :: u256
  rt_return_data_offset :: u256
  rt_context :: Context

definition Runtime_new :: "u8 list \<Rightarrow> u8 list \<Rightarrow> Context \<Rightarrow> nat \<Rightarrow> nat \<Rightarrow> Runtime" where
  "Runtime_new code d context limit_stack limit_memory =
     \<lparr>rt_machine = Machine_new code d limit_stack limit_memory, rt_status = Inr (), rt_return_data_buffer = [],
      rt_return_data_len = 0, rt_return_data_offset = 0, rt_context = context\<rparr>"

definition set_stack :: "Stack \<Rightarrow> Runtime \<Rightarrow> Runtime" where
  "set_stack st rt = rt\<lparr>rt_machine := (rt_machine rt)\<lparr>mc_stack := st\<rparr>\<rparr>"

definition set_memory :: "Memory \<Rightarrow> Runtime \<Rightarrow> Runtime" where
  "set_memory mem rt = rt\<lparr>rt_machine := (rt_machine rt)\<lparr>mc_memory := mem\<rparr>\<rparr>"

definition runtime_stack :: "Runtime \<Rightarrow> Stack" where
  "runtime_stack rt = mc_stack (rt_machine rt)"

definition runtime_memory :: "Runtime \<Rightarrow> Memory" where
  "runtime_memory rt = mc_memory (rt_machine rt)"

section \<open>Completion of a creation and of a call\<close>

definition push_result :: "h256 \<Rightarrow> Runtime \<Rightarrow> Runtime \<times> (ExitReason + unit)" where
  "push_result v rt = (case Stack_push v (runtime_stack rt) of
     Inl e \<Rightarrow> (rt, Inl (Error e))
   | Inr st \<Rightarrow> (set_stack st rt, Inr ()))"

definition fail_after_push :: "ExitFatal \<Rightarrow> Runtime \<times> (ExitReason + unit) \<Rightarrow> Runtime \<times> (ExitReason + unit)" where
  "fail_after_push e res = (case res of (rt, Inl e') \<Rightarrow> (rt, Inl e') | (rt, Inr _) \<Rightarrow> (rt, Inl (Fatal e)))"

definition finish_create :: "ExitReason \<Rightarrow> h160 option \<Rightarrow> u8 list \<Rightarrow> Runtime \<Rightarrow> Runtime \<times> (ExitReason + unit)" where
  "finish_create reason address return_data rt =
     (let rt = rt\<lparr>rt_return_data_buffer := return_data\<rparr>;
          create_address = (case address of Some a \<Rightarrow> ucast a | None \<Rightarrow> 0)
      in case reason of
          Succeed _ \<Rightarrow> push_result create_address rt
        | Revert _ \<Rightarrow> push_result 0 rt
        | Error _ \<Rightarrow> push_result 0 rt
        | Fatal e \<Rightarrow> fail_after_push e (push_result 0 rt))"

definition finish_call :: "u256 \<Rightarrow> u256 \<Rightarrow> ExitReason \<Rightarrow> u8 list \<Rightarrow> Runtime \<Rightarrow> Runtime \<times> (ExitReason + unit)" where
  "finish_call out_len out_offset reason return_data rt =
     (let rt = rt\<lparr>rt_return_data_buffer := return_data\<rparr>;
          tlen = min out_len (of_nat (length (rt_return_data_buffer rt)))
      in case reason of
          Succeed _ \<Rightarrow>
            (case copy_large out_offset 0 tlen (rt_return_data_buffer rt) (runtime_memory rt) of
               Inr mem \<Rightarrow> push_result 1 (set_memory mem rt)
             | Inl _ \<Rightarrow> push_result 0 rt)
        | Revert _ \<Rightarrow>
            (case push_result 0 rt of
               (rt, Inl e) \<Rightarrow> (rt, Inl e)
             | (rt, Inr _) \<Rightarrow>
                 (case copy_large out_offset 0 tlen (rt_return_data_buffer rt) (runtime_memory rt) of
                    Inr mem \<Rightarrow> (set_memory mem rt, Inr ())
                  | Inl _ \<Rightarrow> (rt, Inr ())))
        | Error _ \<Rightarrow> push_result 0 rt
        | Fatal e \<Rightarrow> fail_after_push e (push_result 0 rt))"

definition Runtime_finish_call :: "ExitReason \<Rightarrow> u8 list \<Rightarrow> Runtime \<Rightarrow> Runtime \<times> (ExitReason + unit)" where
  "Runtime_finish_call reason return_data rt =
     finish_call (rt_return_data_len rt) (rt_return_data_offset rt) reason return_data rt"

section \<open>Macros\<close>

datatype 'i RuntimeControl = RtContinue | CallInterrupt 'i | CreateInterrupt 'i | RtExit ExitReason

type_synonym ('s, 'i) sys_result = "(Runtime \<times> 's \<times> 'i RuntimeControl) option"

definition sys_exit :: "ExitReason \<Rightarrow> Runtime \<Rightarrow> 's \<Rightarrow> ('s, 'i) sys_result" where
  "sys_exit e rt s = Some (rt, s, RtExit e)"

definition sys_pop :: "Runtime \<Rightarrow> 's \<Rightarrow> (h256 \<Rightarrow> Runtime \<Rightarrow> ('s, 'i) sys_result) \<Rightarrow> ('s, 'i) sys_result" where
  "sys_pop rt s k = (case Stack_pop (runtime_stack rt) of
     Inl e \<Rightarrow> sys_exit (Error e) rt s
   | Inr (v, st) \<Rightarrow> k v (set_stack st rt))"

definition sys_push :: "h256 \<Rightarrow> Runtime \<Rightarrow> 's \<Rightarrow> ('s, 'i) sys_result" where
  "sys_push v rt s = (case Stack_push v (runtime_stack rt) of
     Inl e \<Rightarrow> sys_exit (Error e) rt s
   | Inr st \<Rightarrow> Some (set_stack st rt, s, RtContinue))"

definition sys_resize :: "u256 \<Rightarrow> u256 \<Rightarrow> Runtime \<Rightarrow> 's \<Rightarrow> (Runtime \<Rightarrow> ('s, 'i) sys_result) \<Rightarrow> ('s, 'i) sys_result" where
  "sys_resize offset len rt s k = (case resize_offset offset len (runtime_memory rt) of
     Inl e \<Rightarrow> sys_exit (Error e) rt s
   | Inr mem \<Rightarrow> k (set_memory mem rt))"

text \<open>The bytes of a range of the memory; an offset or a length that is not a \<open>usize\<close> ends the run.\<close>

definition sys_bytes :: "u256 \<Rightarrow> u256 \<Rightarrow> Runtime \<Rightarrow> 's \<Rightarrow> (u8 list \<Rightarrow> ('s, 'i) sys_result) \<Rightarrow> ('s, 'i) sys_result" where
  "sys_bytes offset len rt s k =
     (if len = 0 then k []
      else if \<not> fits_usize offset then sys_exit (Fatal NotSupported) rt s
      else if \<not> fits_usize len then sys_exit (Fatal NotSupported) rt s
      else k (Memory_get (unat offset) (unat len) (runtime_memory rt)))"

definition sys_ask :: "(ExitError + 'a) \<times> 's \<Rightarrow> Runtime \<Rightarrow> ('a \<Rightarrow> 's \<Rightarrow> ('s, 'i) sys_result) \<Rightarrow> ('s, 'i) sys_result" where
  "sys_ask res rt k = (case res of (Inl e, s) \<Rightarrow> sys_exit (Error e) rt s | (Inr v, s) \<Rightarrow> k v s)"

definition sys_continue :: "Runtime \<Rightarrow> 's \<Rightarrow> ('s, 'i) sys_result" where
  "sys_continue rt s = Some (rt, s, RtContinue)"

definition sys_copy :: "u256 \<Rightarrow> u256 \<Rightarrow> u256 \<Rightarrow> u8 list \<Rightarrow> Runtime \<Rightarrow> 's \<Rightarrow> ('s, 'i) sys_result" where
  "sys_copy memory_offset data_offset len bs rt s =
     (case copy_large memory_offset data_offset len bs (runtime_memory rt) of
        Inr mem \<Rightarrow> sys_continue (set_memory mem rt) s
      | Inl e \<Rightarrow> sys_exit (Fatal e) rt s)"

definition sys_finish :: "Runtime \<times> (ExitReason + unit) \<Rightarrow> 's \<Rightarrow> ('s, 'i) sys_result" where
  "sys_finish res s = (case res of (rt, Inr _) \<Rightarrow> sys_continue rt s | (rt, Inl e) \<Rightarrow> sys_exit e rt s)"

section \<open>Opcodes of the outside world\<close>

definition sys_sha3 :: "(u8 list \<Rightarrow> h256) \<Rightarrow> Runtime \<Rightarrow> 's \<Rightarrow> ('s, 'i) sys_result" where
  "sys_sha3 keccak256 rt s =
     sys_pop rt s (\<lambda>from rt. sys_pop rt s (\<lambda>len rt.
       sys_resize from len rt s (\<lambda>rt. sys_bytes from len rt s (\<lambda>d. sys_push (keccak256 d) rt s))))"

definition sys_chainid :: "('s, 'i) RuntimeHandler \<Rightarrow> Runtime \<Rightarrow> 's \<Rightarrow> ('s, 'i) sys_result" where
  "sys_chainid H rt s = sys_push (rh_chain_id H s) rt s"

definition sys_address :: "Runtime \<Rightarrow> 's \<Rightarrow> ('s, 'i) sys_result" where
  "sys_address rt s = sys_push (ucast (ctx_address (rt_context rt))) rt s"

definition sys_balance :: "('s, 'i) RuntimeHandler \<Rightarrow> Runtime \<Rightarrow> 's \<Rightarrow> ('s, 'i) sys_result" where
  "sys_balance H rt s = sys_pop rt s (\<lambda>a rt. sys_push (rh_balance H (ucast a) s) rt s)"

definition sys_selfbalance :: "('s, 'i) RuntimeHandler \<Rightarrow> Runtime \<Rightarrow> 's \<Rightarrow> ('s, 'i) sys_result" where
  "sys_selfbalance H rt s = sys_push (rh_balance H (ctx_address (rt_context rt)) s) rt s"

definition sys_origin :: "('s, 'i) RuntimeHandler \<Rightarrow> Runtime \<Rightarrow> 's \<Rightarrow> ('s, 'i) sys_result" where
  "sys_origin H rt s = sys_push (ucast (rh_origin H s)) rt s"

definition sys_caller :: "Runtime \<Rightarrow> 's \<Rightarrow> ('s, 'i) sys_result" where
  "sys_caller rt s = sys_push (ucast (ctx_caller (rt_context rt))) rt s"

definition sys_callvalue :: "Runtime \<Rightarrow> 's \<Rightarrow> ('s, 'i) sys_result" where
  "sys_callvalue rt s = sys_push (ctx_apparent_value (rt_context rt)) rt s"

definition sys_gasprice :: "('s, 'i) RuntimeHandler \<Rightarrow> Runtime \<Rightarrow> 's \<Rightarrow> ('s, 'i) sys_result" where
  "sys_gasprice H rt s = sys_push (rh_gas_price H s) rt s"

definition sys_base_fee :: "('s, 'i) RuntimeHandler \<Rightarrow> Runtime \<Rightarrow> 's \<Rightarrow> ('s, 'i) sys_result" where
  "sys_base_fee H rt s = sys_push (rh_block_base_fee_per_gas H s) rt s"

definition sys_extcodesize :: "('s, 'i) RuntimeHandler \<Rightarrow> Runtime \<Rightarrow> 's \<Rightarrow> ('s, 'i) sys_result" where
  "sys_extcodesize H rt s =
     sys_pop rt s (\<lambda>a rt. sys_ask (rh_record_external_operation H (AddressCodeRead (ucast a)) s) rt (\<lambda>_ s.
       sys_push (rh_code_size H (ucast a) s) rt s))"

definition sys_extcodehash :: "('s, 'i) RuntimeHandler \<Rightarrow> Runtime \<Rightarrow> 's \<Rightarrow> ('s, 'i) sys_result" where
  "sys_extcodehash H rt s =
     sys_pop rt s (\<lambda>a rt. sys_ask (rh_record_external_operation H (AddressCodeRead (ucast a)) s) rt (\<lambda>_ s.
       sys_push (rh_code_hash H (ucast a) s) rt s))"

definition sys_extcodecopy :: "('s, 'i) RuntimeHandler \<Rightarrow> Runtime \<Rightarrow> 's \<Rightarrow> ('s, 'i) sys_result" where
  "sys_extcodecopy H rt s =
     sys_pop rt s (\<lambda>a rt. sys_pop rt s (\<lambda>memory_offset rt. sys_pop rt s (\<lambda>code_offset rt. sys_pop rt s (\<lambda>len rt.
       sys_resize memory_offset len rt s (\<lambda>rt.
         sys_ask (rh_record_external_operation H (AddressCodeRead (ucast a)) s) rt (\<lambda>_ s.
           sys_copy memory_offset code_offset len (rh_code H (ucast a) s) rt s))))))"

definition sys_returndatasize :: "Runtime \<Rightarrow> 's \<Rightarrow> ('s, 'i) sys_result" where
  "sys_returndatasize rt s = sys_push (of_nat (length (rt_return_data_buffer rt))) rt s"

definition sys_returndatacopy :: "Runtime \<Rightarrow> 's \<Rightarrow> ('s, 'i) sys_result" where
  "sys_returndatacopy rt s =
     sys_pop rt s (\<lambda>memory_offset rt. sys_pop rt s (\<lambda>data_offset rt. sys_pop rt s (\<lambda>len rt.
       sys_resize memory_offset len rt s (\<lambda>rt.
         if (case checked_add data_offset len of
               Some l \<Rightarrow> of_nat (length (rt_return_data_buffer rt)) < l
             | None \<Rightarrow> True)
         then sys_exit (Error OutOfOffset) rt s
         else sys_copy memory_offset data_offset len (rt_return_data_buffer rt) rt s))))"

definition sys_blockhash :: "('s, 'i) RuntimeHandler \<Rightarrow> Runtime \<Rightarrow> 's \<Rightarrow> ('s, 'i) sys_result" where
  "sys_blockhash H rt s = sys_pop rt s (\<lambda>number rt. sys_push (rh_block_hash H number s) rt s)"

definition sys_coinbase :: "('s, 'i) RuntimeHandler \<Rightarrow> Runtime \<Rightarrow> 's \<Rightarrow> ('s, 'i) sys_result" where
  "sys_coinbase H rt s = sys_push (ucast (rh_block_coinbase H s)) rt s"

definition sys_timestamp :: "('s, 'i) RuntimeHandler \<Rightarrow> Runtime \<Rightarrow> 's \<Rightarrow> ('s, 'i) sys_result" where
  "sys_timestamp H rt s = sys_push (rh_block_timestamp H s) rt s"

definition sys_number :: "('s, 'i) RuntimeHandler \<Rightarrow> Runtime \<Rightarrow> 's \<Rightarrow> ('s, 'i) sys_result" where
  "sys_number H rt s = sys_push (rh_block_number H s) rt s"

definition sys_difficulty :: "('s, 'i) RuntimeHandler \<Rightarrow> Runtime \<Rightarrow> 's \<Rightarrow> ('s, 'i) sys_result" where
  "sys_difficulty H rt s = sys_push (rh_block_difficulty H s) rt s"

definition sys_prevrandao :: "('s, 'i) RuntimeHandler \<Rightarrow> Runtime \<Rightarrow> 's \<Rightarrow> ('s, 'i) sys_result" where
  "sys_prevrandao H rt s = (case rh_block_randomness H s of
     Some rand \<Rightarrow> sys_push rand rt s
   | None \<Rightarrow> sys_difficulty H rt s)"

definition sys_gaslimit :: "('s, 'i) RuntimeHandler \<Rightarrow> Runtime \<Rightarrow> 's \<Rightarrow> ('s, 'i) sys_result" where
  "sys_gaslimit H rt s = sys_push (rh_block_gas_limit H s) rt s"

text \<open>With the feature \<open>mvcc\<close> an error of the handler ends the call, without it the \<open>unwrap\<close> panics.\<close>

definition sys_sload :: "bool \<Rightarrow> ('s, 'i) RuntimeHandler \<Rightarrow> Runtime \<Rightarrow> 's \<Rightarrow> ('s, 'i) sys_result" where
  "sys_sload mvcc H rt s =
     sys_pop rt s (\<lambda>index rt. case rh_storage H (ctx_address (rt_context rt)) index s of
       (Inr v, s) \<Rightarrow> sys_push v rt s
     | (Inl e, s) \<Rightarrow> if mvcc then sys_exit (Error e) rt s else None)"

definition sys_sstore :: "('s, 'i) RuntimeHandler \<Rightarrow> Runtime \<Rightarrow> 's \<Rightarrow> ('s, 'i) sys_result" where
  "sys_sstore H rt s =
     sys_pop rt s (\<lambda>index rt. sys_pop rt s (\<lambda>v rt.
       sys_ask (rh_set_storage H (ctx_address (rt_context rt)) index v s) rt (\<lambda>_. sys_continue rt)))"

definition sys_gas :: "('s, 'i) RuntimeHandler \<Rightarrow> Runtime \<Rightarrow> 's \<Rightarrow> ('s, 'i) sys_result" where
  "sys_gas H rt s = sys_push (rh_gas_left H s) rt s"

primrec pop_topics :: "nat \<Rightarrow> h256 list \<Rightarrow> Runtime \<Rightarrow> 's \<Rightarrow> (h256 list \<Rightarrow> Runtime \<Rightarrow> ('s, 'i) sys_result) \<Rightarrow> ('s, 'i) sys_result" where
  "pop_topics 0 topics rt s k = k topics rt"
| "pop_topics (Suc n) topics rt s k = sys_pop rt s (\<lambda>v rt. pop_topics n (topics @ [v]) rt s k)"

definition sys_log :: "nat \<Rightarrow> ('s, 'i) RuntimeHandler \<Rightarrow> Runtime \<Rightarrow> 's \<Rightarrow> ('s, 'i) sys_result" where
  "sys_log n H rt s =
     sys_pop rt s (\<lambda>offset rt. sys_pop rt s (\<lambda>len rt.
       sys_resize offset len rt s (\<lambda>rt. sys_bytes offset len rt s (\<lambda>d.
         pop_topics n [] rt s (\<lambda>topics rt.
           sys_ask (rh_log H (ctx_address (rt_context rt)) topics d s) rt (\<lambda>_. sys_continue rt))))))"

definition sys_suicide :: "('s, 'i) RuntimeHandler \<Rightarrow> Runtime \<Rightarrow> 's \<Rightarrow> ('s, 'i) sys_result" where
  "sys_suicide H rt s =
     sys_pop rt s (\<lambda>t rt.
       sys_ask (rh_mark_delete H (ctx_address (rt_context rt)) (ucast t) s) rt (\<lambda>_. sys_exit (Succeed Suicided) rt))"

definition sys_create :: "(u8 list \<Rightarrow> h256) \<Rightarrow> bool \<Rightarrow> ('s, 'i) RuntimeHandler \<Rightarrow> Runtime \<Rightarrow> 's \<Rightarrow> ('s, 'i) sys_result" where
  "sys_create keccak256 is_create2 H rt s =
     (let rt = rt\<lparr>rt_return_data_buffer := []\<rparr>;
          self = ctx_address (rt_context rt);
          create = (\<lambda>scheme v code rt. case rh_create H self scheme v code None s of
              None \<Rightarrow> None
            | Some (CaptureExit (reason, address, return_data), s) \<Rightarrow>
                sys_finish (finish_create reason address return_data rt) s
            | Some (CaptureTrap interrupt, s) \<Rightarrow> Some (rt, s, CreateInterrupt interrupt))
      in sys_pop rt s (\<lambda>v rt. sys_pop rt s (\<lambda>code_offset rt. sys_pop rt s (\<lambda>len rt.
           sys_resize code_offset len rt s (\<lambda>rt. sys_bytes code_offset len rt s (\<lambda>code.
             if is_create2
             then sys_pop rt s (\<lambda>salt rt. create (Create2 self (keccak256 code) salt) v code rt)
             else create (Legacy self) v code rt))))))"

definition call_context :: "CallScheme \<Rightarrow> h160 \<Rightarrow> u256 \<Rightarrow> Context \<Rightarrow> Context" where
  "call_context scheme to v context = (case scheme of
     SchemeCall \<Rightarrow> \<lparr>ctx_address = to, ctx_caller = ctx_address context, ctx_apparent_value = v\<rparr>
   | SchemeStaticCall \<Rightarrow> \<lparr>ctx_address = to, ctx_caller = ctx_address context, ctx_apparent_value = v\<rparr>
   | SchemeCallCode \<Rightarrow>
       \<lparr>ctx_address = ctx_address context, ctx_caller = ctx_address context, ctx_apparent_value = v\<rparr>
   | SchemeDelegateCall \<Rightarrow>
       \<lparr>ctx_address = ctx_address context, ctx_caller = ctx_caller context,
        ctx_apparent_value = ctx_apparent_value context\<rparr>)"

definition call_transfer :: "CallScheme \<Rightarrow> h160 \<Rightarrow> u256 \<Rightarrow> Context \<Rightarrow> Transfer option" where
  "call_transfer scheme to v context =
     (if scheme = SchemeCall then Some \<lparr>tr_source = ctx_address context, tr_target = to, tr_value = v\<rparr>
      else if scheme = SchemeCallCode
      then Some \<lparr>tr_source = ctx_address context, tr_target = ctx_address context, tr_value = v\<rparr>
      else None)"

definition sys_call :: "CallScheme \<Rightarrow> ('s, 'i) RuntimeHandler \<Rightarrow> Runtime \<Rightarrow> 's \<Rightarrow> ('s, 'i) sys_result" where
  "sys_call scheme H rt s =
     (let rt = rt\<lparr>rt_return_data_buffer := []\<rparr>;
          pop_value = (\<lambda>rt k. case scheme of
              SchemeCall \<Rightarrow> sys_pop rt s k
            | SchemeCallCode \<Rightarrow> sys_pop rt s k
            | _ \<Rightarrow> k 0 rt)
      in sys_pop rt s (\<lambda>gas rt. sys_pop rt s (\<lambda>to rt.
         let gas = (if gas > 18446744073709551615 then None else Some (ucast gas)); to = ucast to
         in pop_value rt (\<lambda>v rt.
           sys_pop rt s (\<lambda>in_offset rt. sys_pop rt s (\<lambda>in_len rt. sys_pop rt s (\<lambda>out_offset rt. sys_pop rt s (\<lambda>out_len rt.
             sys_resize in_offset in_len rt s (\<lambda>rt. sys_resize out_offset out_len rt s (\<lambda>rt.
               sys_bytes in_offset in_len rt s (\<lambda>input.
                 case rh_call H to (call_transfer scheme to v (rt_context rt)) input gas (scheme = SchemeStaticCall)
                        (call_context scheme to v (rt_context rt)) s of
                   None \<Rightarrow> None
                 | Some (CaptureExit (reason, return_data), s) \<Rightarrow>
                     sys_finish (finish_call out_len out_offset reason return_data rt) s
                 | Some (CaptureTrap interrupt, s) \<Rightarrow>
                     Some (rt\<lparr>rt_return_data_len := out_len, rt_return_data_offset := out_offset\<rparr>, s,
                           CallInterrupt interrupt))))))))))))"

section \<open>Dispatch\<close>

definition handle_other :: "Opcode \<Rightarrow> Runtime \<Rightarrow> 's \<Rightarrow> ('s, 'i) sys_result" where
  "handle_other opcode rt s = sys_exit (Error (InvalidCode opcode)) rt s"

definition system_table :: "bool \<Rightarrow> (u8 list \<Rightarrow> h256) \<Rightarrow> ('s, 'i) RuntimeHandler
    \<Rightarrow> (Opcode \<times> (Runtime \<Rightarrow> 's \<Rightarrow> ('s, 'i) sys_result)) list" where
  "system_table mvcc keccak256 H =
     [(0x20, sys_sha3 keccak256),
      (0x30, sys_address),
      (0x31, sys_balance H),
      (0x47, sys_selfbalance H),
      (0x32, sys_origin H),
      (0x33, sys_caller),
      (0x34, sys_callvalue),
      (0x3a, sys_gasprice H),
      (0x3b, sys_extcodesize H),
      (0x3f, sys_extcodehash H),
      (0x3c, sys_extcodecopy H),
      (0x3d, sys_returndatasize),
      (0x3e, sys_returndatacopy),
      (0x40, sys_blockhash H),
      (0x41, sys_coinbase H),
      (0x42, sys_timestamp H),
      (0x43, sys_number H),
      (0x44, sys_prevrandao H),
      (0x45, sys_gaslimit H),
      (0x54, sys_sload mvcc H),
      (0x55, sys_sstore H),
      (0x5a, sys_gas H),
      (0xa0, sys_log 0 H),
      (0xa1, sys_log 1 H),
      (0xa2, sys_log 2 H),
      (0xa3, sys_log 3 H),
      (0xa4, sys_log 4 H),
      (0xff, sys_suicide H),
      (0xf0, sys_create keccak256 False H),
      (0xf5, sys_create keccak256 True H),
      (0xf1, sys_call SchemeCall H),
      (0xf2, sys_call SchemeCallCode H),
      (0xf4, sys_call SchemeDelegateCall H),
      (0xfa, sys_call SchemeStaticCall H),
      (0x46, sys_chainid H),
      (0x48, sys_base_fee H)]"

definition eval_system :: "bool \<Rightarrow> (u8 list \<Rightarrow> h256) \<Rightarrow> ('s, 'i) RuntimeHandler \<Rightarrow> Runtime \<Rightarrow> Opcode \<Rightarrow> 's
    \<Rightarrow> ('s, 'i) sys_result" where
  "eval_system mvcc keccak256 H rt opcode s = (case map_of (system_table mvcc keccak256 H) opcode of
     Some f \<Rightarrow> f rt s
   | None \<Rightarrow> handle_other opcode rt s)"

section \<open>Step and run\<close>

datatype 'i Resolve = ResolveCreate 'i | ResolveCall 'i

type_synonym ('s, 'i) step_result = "(Runtime \<times> 's \<times> ((ExitReason, 'i Resolve) Capture + unit)) option"

definition runtime_pre_validate :: "('s, 'i) RuntimeHandler \<Rightarrow> Runtime \<Rightarrow> 's \<Rightarrow> (Runtime \<times> 's) option" where
  "runtime_pre_validate H rt s = (case inspect (rt_machine rt) of
     None \<Rightarrow> Some (rt, s)
   | Some (opcode, stack) \<Rightarrow> (case rh_pre_validate H (rt_context rt) opcode stack s of
       None \<Rightarrow> None
     | Some (Inr _, s) \<Rightarrow> Some (rt, s)
     | Some (Inl e, s) \<Rightarrow>
         Some (rt\<lparr>rt_machine := Machine_exit (Error e) (rt_machine rt), rt_status := Inl (Error e)\<rparr>, s)))"

definition runtime_trap :: "bool \<Rightarrow> (u8 list \<Rightarrow> h256) \<Rightarrow> ('s, 'i) RuntimeHandler \<Rightarrow> Opcode \<Rightarrow> Runtime \<Rightarrow> 's
    \<Rightarrow> ('s, 'i) step_result" where
  "runtime_trap mvcc keccak256 H opcode rt s = (case eval_system mvcc keccak256 H rt opcode s of
     None \<Rightarrow> None
   | Some (rt, s, RtContinue) \<Rightarrow> Some (rt, s, Inr ())
   | Some (rt, s, CallInterrupt interrupt) \<Rightarrow> Some (rt, s, Inl (CaptureTrap (ResolveCall interrupt)))
   | Some (rt, s, CreateInterrupt interrupt) \<Rightarrow> Some (rt, s, Inl (CaptureTrap (ResolveCreate interrupt)))
   | Some (rt, s, RtExit exit) \<Rightarrow>
       Some (rt\<lparr>rt_machine := Machine_exit exit (rt_machine rt), rt_status := Inl exit\<rparr>, s, Inl (CaptureExit exit)))"

definition runtime_step :: "bool \<Rightarrow> (u8 list \<Rightarrow> h256) \<Rightarrow> ('s, 'i) RuntimeHandler \<Rightarrow> Runtime \<Rightarrow> 's \<Rightarrow> ('s, 'i) step_result" where
  "runtime_step mvcc keccak256 H rt s = (case runtime_pre_validate H rt s of
     None \<Rightarrow> None
   | Some (rt, s) \<Rightarrow> (case rt_status rt of
       Inl e \<Rightarrow> Some (rt, s, Inl (CaptureExit e))
     | Inr _ \<Rightarrow> (case Machine_step (rt_machine rt) of
         None \<Rightarrow> None
       | Some (m, Inr _) \<Rightarrow> Some (rt\<lparr>rt_machine := m\<rparr>, s, Inr ())
       | Some (m, Inl (CaptureExit e)) \<Rightarrow> Some (rt\<lparr>rt_machine := m, rt_status := Inl e\<rparr>, s, Inl (CaptureExit e))
       | Some (m, Inl (CaptureTrap opcode)) \<Rightarrow> runtime_trap mvcc keccak256 H opcode (rt\<lparr>rt_machine := m\<rparr>) s)))"

text \<open>\<open>Some (rt, s, None)\<close> is a run that has used up its fuel.\<close>

fun runtime_run :: "bool \<Rightarrow> (u8 list \<Rightarrow> h256) \<Rightarrow> ('s, 'i) RuntimeHandler \<Rightarrow> nat \<Rightarrow> Runtime \<Rightarrow> 's
    \<Rightarrow> (Runtime \<times> 's \<times> (ExitReason, 'i Resolve) Capture option) option" where
  "runtime_run mvcc keccak256 H 0 rt s = Some (rt, s, None)"
| "runtime_run mvcc keccak256 H (Suc fuel) rt s = (case runtime_step mvcc keccak256 H rt s of
     None \<Rightarrow> None
   | Some (rt, s, Inr _) \<Rightarrow> runtime_run mvcc keccak256 H fuel rt s
   | Some (rt, s, Inl res) \<Rightarrow> Some (rt, s, Some res))"

end
