(* ===== verification/Evm_Executor.thy ===== *)
theory Evm_Executor
  imports Evm_Runtime
begin

text \<open>
  The stack executor (\<open>crates/chase-evm/src/executor/stack/executor.rs\<close>): the creation and the call of a contract, the
  clean-up of their frames, the loop over the stack of suspended runtimes, the implementation of the trait \<open>Handler\<close>, and
  the transactions.  The environment of an executor is what it does not change: its configuration, the backend below its
  substate, and the precompiles (\<open>precompile.rs\<close>, a map from addresses to functions).  The Keccak-256 hash and the RLP
  encoding of an address and a nonce are parameters.  \<open>None\<close> is a panic.
\<close>

section \<open>Precompiles\<close>

record PrecompileOutput =
  po_exit_status :: ExitSucceed
  po_output :: "u8 list"

datatype PrecompileFailure =
    FailureError ExitError
  | FailureRevert ExitRevert "u8 list"
  | FailureFatal ExitFatal

type_synonym PrecompileFn = "u8 list \<Rightarrow> u64 option \<Rightarrow> Context \<Rightarrow> bool \<Rightarrow> PrecompileFailure + (PrecompileOutput \<times> u64)"
type_synonym PrecompileSet = "(h160, PrecompileFn) hmap"

datatype IsPrecompileResult = Answer bool u64 | IsPrecompileOutOfGas

definition is_precompile :: "PrecompileSet \<Rightarrow> h160 \<Rightarrow> u64 \<Rightarrow> IsPrecompileResult" where
  "is_precompile ps address remaining_gas = Answer (map_of ps address \<noteq> None) 0"

section \<open>The executor\<close>

datatype StackExitKind = Succeeded | RevertedKind | Failed

datatype RuntimeKind = KindCreate h160 | KindCall h160 | KindExecute

record TaggedRuntime =
  tg_kind :: RuntimeKind
  tg_inner :: Runtime

record Env =
  env_config :: Config
  env_backend :: Backend
  env_precompiles :: PrecompileSet
  env_keccak256 :: "u8 list \<Rightarrow> h256"
  env_rlp :: "h160 \<Rightarrow> u256 \<Rightarrow> u8 list"
  env_mvcc :: bool

record Exec =
  ex_state :: MemoryStackSubstate
  ex_rw_set :: "RwSet option"

definition new_with_precompiles :: "MemoryStackSubstate \<Rightarrow> bool \<Rightarrow> Exec" where
  "new_with_precompiles st simulation =
     \<lparr>ex_state = st, ex_rw_set = (if simulation then Some RwSet_new else None)\<rparr>"

definition exec_state :: "(MemoryStackSubstate \<Rightarrow> MemoryStackSubstate) \<Rightarrow> Exec \<Rightarrow> Exec" where
  "exec_state f X = X\<lparr>ex_state := f (ex_state X)\<rparr>"

definition exec_substate :: "(MemoryStackSubstate \<Rightarrow> 'r \<times> MemoryStackSubstate) \<Rightarrow> Exec \<Rightarrow> 'r \<times> Exec" where
  "exec_substate f X = (case f (ex_state X) of (r, s) \<Rightarrow> (r, X\<lparr>ex_state := s\<rparr>))"

definition exec_metadata :: "(StackSubstateMetadata \<Rightarrow> StackSubstateMetadata) \<Rightarrow> Exec \<Rightarrow> Exec" where
  "exec_metadata f = exec_state (metadata_mut f)"

definition exec_md :: "Exec \<Rightarrow> StackSubstateMetadata" where
  "exec_md X = metadata (ex_state X)"

definition exec_gas :: "(Gasometer \<Rightarrow> 'r \<times> Gasometer) \<Rightarrow> Exec \<Rightarrow> 'r \<times> Exec" where
  "exec_gas f X = (case f (md_gasometer (exec_md X)) of
     (r, g) \<Rightarrow> (r, exec_metadata (\<lambda>md. md\<lparr>md_gasometer := g\<rparr>) X))"

definition gas_fail :: "Exec \<Rightarrow> Exec" where
  "gas_fail X = snd (exec_gas fail X)"

definition gas_remaining :: "Exec \<Rightarrow> u64" where
  "gas_remaining X = gas (md_gasometer (exec_md X))"

definition enter_substate :: "u64 \<Rightarrow> bool \<Rightarrow> Exec \<Rightarrow> Exec" where
  "enter_substate limit is_static = exec_state (enter limit is_static)"

definition exit_substate :: "StackExitKind \<Rightarrow> Exec \<Rightarrow> ((ExitError + unit) \<times> Exec) option" where
  "exit_substate kind X = map_option (\<lambda>(r, s). (r, X\<lparr>ex_state := s\<rparr>))
     (case kind of
        Succeeded \<Rightarrow> exit_commit (ex_state X)
      | RevertedKind \<Rightarrow> exit_revert (ex_state X)
      | Failed \<Rightarrow> exit_discard (ex_state X))"

text \<open>\<open>or_fail\<close> is an early return on an error, \<open>leave\<close> the exit of a substate whose result is dropped.\<close>

definition or_fail :: "(ExitError + 'v) \<times> 's \<Rightarrow> (ExitError \<Rightarrow> 's \<Rightarrow> 'a) \<Rightarrow> ('v \<Rightarrow> 's \<Rightarrow> 'a) \<Rightarrow> 'a" where
  "or_fail res err k = (case res of (Inl e, X) \<Rightarrow> err e X | (Inr v, X) \<Rightarrow> k v X)"

definition leave :: "StackExitKind \<Rightarrow> (Exec \<Rightarrow> 'a option) \<Rightarrow> Exec \<Rightarrow> 'a option" where
  "leave kind k X = (case exit_substate kind X of None \<Rightarrow> None | Some (_, X) \<Rightarrow> k X)"

section \<open>Reads of the executor\<close>

definition exec_balance :: "Env \<Rightarrow> h160 \<Rightarrow> Exec \<Rightarrow> u256" where
  "exec_balance E address X = balance (state_basic (env_backend E) (ex_state X) address)"

definition exec_nonce :: "Env \<Rightarrow> h160 \<Rightarrow> Exec \<Rightarrow> u256" where
  "exec_nonce E address X = nonce (state_basic (env_backend E) (ex_state X) address)"

definition exec_code_size :: "Env \<Rightarrow> h160 \<Rightarrow> Exec \<Rightarrow> u256" where
  "exec_code_size E address X = code_size (env_backend E) (ex_state X) address"

definition exec_code :: "Env \<Rightarrow> h160 \<Rightarrow> Exec \<Rightarrow> u8 list" where
  "exec_code E address X = state_code (env_backend E) (ex_state X) address"

definition exec_exists :: "Env \<Rightarrow> h160 \<Rightarrow> Exec \<Rightarrow> bool" where
  "exec_exists E address X =
     (if cfg_empty_considered_exists (env_config E) then state_exists (env_backend E) (ex_state X) address
      else state_exists (env_backend E) (ex_state X) address \<and> \<not> state_is_empty (env_backend E) (ex_state X) address)"

definition exec_code_hash :: "Env \<Rightarrow> h160 \<Rightarrow> Exec \<Rightarrow> h256" where
  "exec_code_hash E address X =
     (if \<not> exec_exists E address X then 0
      else code_hash (env_keccak256 E) (env_backend E) (ex_state X) address)"

definition exec_deleted :: "h160 \<Rightarrow> Exec \<Rightarrow> bool" where
  "exec_deleted address X = deleted (ex_state X) address"

definition record_read :: "h160 \<Rightarrow> h256 \<Rightarrow> h256 \<Rightarrow> Exec \<Rightarrow> Exec" where
  "record_read address index v X = X\<lparr>ex_rw_set := map_option (record_read_key address index v) (ex_rw_set X)\<rparr>"

definition exec_storage :: "Env \<Rightarrow> h160 \<Rightarrow> h256 \<Rightarrow> Exec \<Rightarrow> (ExitError + h256) \<times> Exec" where
  "exec_storage E address index X =
     (let v = state_storage (env_backend E) (ex_state X) address index
      in (Inr v, record_read address index v X))"

definition exec_original_storage :: "Env \<Rightarrow> h160 \<Rightarrow> h256 \<Rightarrow> Exec \<Rightarrow> (ExitError + h256) \<times> Exec" where
  "exec_original_storage E address index X =
     (let v = (case state_original_storage (env_backend E) (ex_state X) address index of Some v \<Rightarrow> v | None \<Rightarrow> 0)
      in (Inr v, record_read address index v X))"

definition exec_is_cold :: "Env \<Rightarrow> h160 \<Rightarrow> h256 option \<Rightarrow> Exec \<Rightarrow> (ExitError + bool) \<times> Exec" where
  "exec_is_cold E address maybe_index X = (case maybe_index of
     None \<Rightarrow> (case is_precompile (env_precompiles E) address (gas_remaining X) of
         Answer precompile extra_cost \<Rightarrow>
           or_fail (exec_gas (record_cost extra_cost) X) (\<lambda>e X. (Inl e, X))
             (\<lambda>_ X. (Inr (\<not> precompile \<and> is_cold (ex_state X) address), X))
       | IsPrecompileOutOfGas \<Rightarrow> (Inl OutOfGas, X))
   | Some index \<Rightarrow> (Inr (is_storage_cold (ex_state X) address index), X))"

text \<open>The memory backend keeps the default of the trait for external operations: they cost nothing.\<close>

definition record_external_operation :: "ExternalOperation \<Rightarrow> Exec \<Rightarrow> (ExitError + unit) \<times> Exec" where
  "record_external_operation op X = (Inr (), X)"

section \<open>Writes of the executor\<close>

definition exec_set_storage :: "Env \<Rightarrow> h160 \<Rightarrow> h256 \<Rightarrow> h256 \<Rightarrow> Exec \<Rightarrow> (ExitError + unit) \<times> Exec" where
  "exec_set_storage E address index v X =
     (let X = exec_state (set_storage address index v) X
      in (Inr (), X\<lparr>ex_rw_set := map_option (record_write_key address index v) (ex_rw_set X)\<rparr>))"

definition exec_log :: "h160 \<Rightarrow> h256 list \<Rightarrow> u8 list \<Rightarrow> Exec \<Rightarrow> (ExitError + unit) \<times> Exec" where
  "exec_log address topics d X = (Inr (), exec_state (log_event address topics d) X)"

definition exec_mark_delete :: "Env \<Rightarrow> h160 \<Rightarrow> h160 \<Rightarrow> Exec \<Rightarrow> (ExitError + unit) \<times> Exec" where
  "exec_mark_delete E address dest X =
     (let B = env_backend E; bal = exec_balance E address X
      in or_fail (exec_substate (transfer_value B \<lparr>tr_source = address, tr_target = dest, tr_value = bal\<rparr>) X)
           (\<lambda>e X. (Inl e, X))
           (\<lambda>_ X. (Inr (), exec_state (set_deleted address) (exec_state (reset_balance B address) X))))"

section \<open>Gas of a call\<close>

definition l64 :: "u64 \<Rightarrow> u64" where
  "l64 g = g - g div 64"

definition after_gas :: "Env \<Rightarrow> bool \<Rightarrow> Exec \<Rightarrow> (ExitError + u64) \<times> Exec" where
  "after_gas E take_l64 X =
     (if take_l64 \<and> cfg_call_l64_after_gas (env_config E) then
        if cfg_estimate (env_config E) then
          let initial_after_gas = gas_remaining X;
              diff = initial_after_gas - l64 initial_after_gas
          in or_fail (exec_gas (record_cost diff) X) (\<lambda>e X. (Inl e, X)) (\<lambda>_ X. (Inr (gas_remaining X), X))
        else (Inr (l64 (gas_remaining X)), X)
      else (Inr (gas_remaining X), X))"

definition maybe_record_init_code_cost :: "Env \<Rightarrow> u8 list \<Rightarrow> Exec \<Rightarrow> (ExitError + unit) \<times> Exec" where
  "maybe_record_init_code_cost E init_code X = (case cfg_max_initcode_size (env_config E) of
     Some limit \<Rightarrow>
       if limit < length init_code then (Inl CreateContractLimit, gas_fail X)
       else exec_gas (record_cost (init_code_cost init_code)) X
   | None \<Rightarrow> (Inr (), X))"

section \<open>Creation\<close>

definition create_address :: "Env \<Rightarrow> CreateScheme \<Rightarrow> Exec \<Rightarrow> h160" where
  "create_address E scheme X = (case scheme of
     Create2 caller hash salt \<Rightarrow>
       ucast (env_keccak256 E ([0xff] @ be_bytes 20 (ucast caller) @ be_bytes 32 salt @ be_bytes 32 hash))
   | Legacy caller \<Rightarrow> ucast (env_keccak256 E (env_rlp E caller (exec_nonce E caller X)))
   | FixedAddress naddress \<Rightarrow> naddress)"

type_synonym create_result = "((create_exit, TaggedRuntime) Capture \<times> Exec) option"

definition create_exit :: "ExitReason \<Rightarrow> Exec \<Rightarrow> create_result" where
  "create_exit reason X = Some (CaptureExit (reason, None, []), X)"

definition create_in_substate :: "Env \<Rightarrow> h160 \<Rightarrow> h160 \<Rightarrow> u256 \<Rightarrow> u8 list \<Rightarrow> Exec \<Rightarrow> create_result" where
  "create_in_substate E caller address v init_code X =
     (let B = env_backend E; config = env_config E;
          runtime = Runtime_new init_code [] \<lparr>ctx_address = address, ctx_caller = caller, ctx_apparent_value = v\<rparr>
                      (cfg_stack_limit config) (cfg_memory_limit config);
          start = (\<lambda>X. Some (CaptureTrap \<lparr>tg_kind = KindCreate address, tg_inner = runtime\<rparr>, X))
      in or_fail (record_external_operation (AddressCodeRead address) X)
           (\<lambda>e. leave Failed (create_exit (Error e)))
           (\<lambda>_ X.
             if exec_code_size E address X \<noteq> 0 then leave Failed (create_exit (Error CreateCollision)) X
             else if 0 < exec_nonce E address X then leave Failed (create_exit (Error CreateCollision)) X
             else
               let X = exec_state (reset_storage B address) X
               in or_fail (exec_substate (transfer_value B \<lparr>tr_source = caller, tr_target = address, tr_value = v\<rparr>) X)
                    (\<lambda>e. leave RevertedKind (create_exit (Error e)))
                    (\<lambda>_ X.
                      if cfg_create_increase_nonce config then
                        or_fail (record_external_operation AccountBasicRead X)
                          (\<lambda>e. leave Failed (create_exit (Error e)))
                          (\<lambda>_ X. or_fail (exec_substate (inc_nonce B address) X)
                            (\<lambda>e. create_exit (Error e))
                            (\<lambda>_. start))
                      else start X)))"

definition create_inner :: "Env \<Rightarrow> h160 \<Rightarrow> CreateScheme \<Rightarrow> u256 \<Rightarrow> u8 list \<Rightarrow> u64 option \<Rightarrow> bool \<Rightarrow> Exec \<Rightarrow> create_result" where
  "create_inner E caller scheme v init_code target_gas take_l64 X =
     (let B = env_backend E; config = env_config E;
          address = create_address E scheme X;
          X = exec_metadata (access_address caller) X;
          X = exec_metadata (access_address address) X
      in if (case md_depth (exec_md X) of Some depth \<Rightarrow> cfg_call_stack_limit config < depth | None \<Rightarrow> False)
         then create_exit (Error CallTooDeep) X
         else if exec_balance E caller X < v then create_exit (Error OutOfFund) X
         else
           or_fail (record_external_operation AccountBasicRead X) (\<lambda>e. create_exit (Error e)) (\<lambda>_ X.
           or_fail (exec_substate (inc_nonce B caller) X) (\<lambda>e. create_exit (Error e)) (\<lambda>_ X.
           or_fail (after_gas E take_l64 X) (\<lambda>e. create_exit (Error e)) (\<lambda>after_gas X.
             let target_gas = (case target_gas of Some g \<Rightarrow> g | None \<Rightarrow> after_gas);
                 limit = min after_gas target_gas
             in or_fail (exec_gas (record_cost limit) X) (\<lambda>e. create_exit (Error e)) (\<lambda>_ X.
                  create_in_substate E caller address v init_code (enter_substate limit False X))))))"

definition exec_create :: "Env \<Rightarrow> h160 \<Rightarrow> CreateScheme \<Rightarrow> u256 \<Rightarrow> u8 list \<Rightarrow> u64 option \<Rightarrow> Exec \<Rightarrow> create_result" where
  "exec_create E caller scheme v init_code target_gas X =
     or_fail (maybe_record_init_code_cost E init_code X) (\<lambda>e. create_exit (Error e))
       (\<lambda>_. create_inner E caller scheme v init_code target_gas True)"

section \<open>Call\<close>

type_synonym call_result = "((call_exit, TaggedRuntime) Capture \<times> Exec) option"

definition call_exit :: "ExitReason \<Rightarrow> u8 list \<Rightarrow> Exec \<Rightarrow> call_result" where
  "call_exit reason output X = Some (CaptureExit (reason, output), X)"

definition precompile_execute :: "Env \<Rightarrow> h160 \<Rightarrow> u8 list \<Rightarrow> u64 \<Rightarrow> Context \<Rightarrow> bool \<Rightarrow> Exec
    \<Rightarrow> (PrecompileFailure + PrecompileOutput) option \<times> Exec" where
  "precompile_execute E code_address input limit context is_static X =
     (case map_of (env_precompiles E) code_address of
        None \<Rightarrow> (None, X)
      | Some precompile \<Rightarrow> (case precompile input (Some limit) context is_static of
          Inr (output, cost) \<Rightarrow>
            or_fail (exec_gas (record_cost cost) X) (\<lambda>e X. (Some (Inl (FailureError e)), X)) (\<lambda>_ X. (Some (Inr output), X))
        | Inl err \<Rightarrow> (Some (Inl err), X)))"

definition call_code :: "Env \<Rightarrow> h160 \<Rightarrow> u8 list \<Rightarrow> u64 \<Rightarrow> Context \<Rightarrow> u8 list \<Rightarrow> Exec \<Rightarrow> call_result" where
  "call_code E code_address input limit context code X =
     (case precompile_execute E code_address input limit context (md_is_static (exec_md X)) X of
        (Some (Inr output), X) \<Rightarrow>
          leave Succeeded (call_exit (Succeed (po_exit_status output)) (po_output output)) X
      | (Some (Inl (FailureError exit_status)), X) \<Rightarrow> leave Failed (call_exit (Error exit_status) []) X
      | (Some (Inl (FailureRevert exit_status output)), X) \<Rightarrow> leave RevertedKind (call_exit (Revert exit_status) output) X
      | (Some (Inl (FailureFatal exit_status)), X) \<Rightarrow> leave Failed (call_exit (Fatal exit_status) []) (gas_fail X)
      | (None, X) \<Rightarrow>
          Some (CaptureTrap \<lparr>tg_kind = KindCall code_address,
                  tg_inner = Runtime_new code input context (cfg_stack_limit (env_config E)) (cfg_memory_limit (env_config E))\<rparr>,
                X))"

definition call_in_substate :: "Env \<Rightarrow> h160 \<Rightarrow> Transfer option \<Rightarrow> u8 list \<Rightarrow> u64 \<Rightarrow> Context \<Rightarrow> Exec \<Rightarrow> call_result" where
  "call_in_substate E code_address transfer input limit context X =
     (let B = env_backend E;
          X = exec_state (touch B (ctx_address context)) X
      in or_fail (record_external_operation (AddressCodeRead code_address) X)
           (\<lambda>e. leave Failed (call_exit (Error e) []))
           (\<lambda>_ X.
             let code = exec_code E code_address X
             in if (case md_depth (exec_md X) of
                      Some depth \<Rightarrow> cfg_call_stack_limit (env_config E) < depth
                    | None \<Rightarrow> False)
                then leave RevertedKind (call_exit (Error CallTooDeep) []) X
                else case transfer of
                    None \<Rightarrow> call_code E code_address input limit context code X
                  | Some t \<Rightarrow>
                      or_fail (record_external_operation AccountBasicRead X)
                        (\<lambda>e. leave Failed (call_exit (Error e) []))
                        (\<lambda>_ X. or_fail (exec_substate (transfer_value B t) X)
                          (\<lambda>e. leave RevertedKind (call_exit (Error e) []))
                          (\<lambda>_. call_code E code_address input limit context code))))"

definition call_inner :: "Env \<Rightarrow> h160 \<Rightarrow> Transfer option \<Rightarrow> u8 list \<Rightarrow> u64 option \<Rightarrow> bool \<Rightarrow> bool \<Rightarrow> bool \<Rightarrow> Context \<Rightarrow> Exec
    \<Rightarrow> call_result" where
  "call_inner E code_address transfer input target_gas is_static take_l64 take_stipend context X =
     or_fail (after_gas E take_l64 X) (\<lambda>e. call_exit (Error e) []) (\<lambda>after_gas X.
       let target_gas = (case target_gas of Some g \<Rightarrow> g | None \<Rightarrow> after_gas);
           limit = min target_gas after_gas
       in or_fail (exec_gas (record_cost limit) X) (\<lambda>e. call_exit (Error e) []) (\<lambda>_ X.
            let limit = (case transfer of
                  Some t \<Rightarrow> if take_stipend \<and> tr_value t \<noteq> 0 then saturating_add limit (cfg_call_stipend (env_config E))
                            else limit
                | None \<Rightarrow> limit)
            in call_in_substate E code_address transfer input limit context (enter_substate limit is_static X)))"

definition exec_call :: "Env \<Rightarrow> h160 \<Rightarrow> Transfer option \<Rightarrow> u8 list \<Rightarrow> u64 option \<Rightarrow> bool \<Rightarrow> Context \<Rightarrow> Exec \<Rightarrow> call_result" where
  "exec_call E code_address transfer input target_gas is_static context X =
     call_inner E code_address transfer input target_gas is_static True True context X"

section \<open>Charging for an opcode\<close>

definition gas_handler :: "Env \<Rightarrow> Exec Handler" where
  "gas_handler E =
     \<lparr>h_is_cold = exec_is_cold E, h_exists = exec_exists E, h_deleted = exec_deleted, h_balance = exec_balance E,
      h_storage = exec_storage E, h_original_storage = exec_original_storage E,
      h_record_external_operation = record_external_operation\<rparr>"

definition access_target :: "StorageTarget \<Rightarrow> Exec \<Rightarrow> Exec" where
  "access_target t X = (case t of
     TargetAddress address \<Rightarrow> exec_metadata (access_address address) X
   | TargetSlot address key \<Rightarrow> exec_metadata (access_storage address key) X
   | NoTarget \<Rightarrow> X)"

definition pre_validate :: "Env \<Rightarrow> Context \<Rightarrow> Opcode \<Rightarrow> Stack \<Rightarrow> Exec \<Rightarrow> ((ExitError + unit) \<times> Exec) option" where
  "pre_validate E context opcode stack X = (case static_opcode_cost opcode of
     Some cost \<Rightarrow> Some (exec_gas (record_cost cost) X)
   | None \<Rightarrow>
       (case dynamic_opcode_cost (env_mvcc E) (gas_handler E) (ctx_address context) opcode stack
               (md_is_static (exec_md X)) (env_config E) X of
          None \<Rightarrow> None
        | Some (Inl e, X) \<Rightarrow> Some (Inl e, X)
        | Some (Inr (gas_cost, dest, memory_cost), X) \<Rightarrow>
            (case record_dynamic_cost gas_cost memory_cost (md_gasometer (exec_md X)) of
               None \<Rightarrow> None
             | Some (Inl e, g) \<Rightarrow> Some (Inl e, exec_metadata (\<lambda>md. md\<lparr>md_gasometer := g\<rparr>) X)
             | Some (Inr _, g) \<Rightarrow>
                 Some (Inr (), access_target dest (exec_metadata (\<lambda>md. md\<lparr>md_gasometer := g\<rparr>) X)))))"

definition executor_handler :: "Env \<Rightarrow> (Exec, TaggedRuntime) RuntimeHandler" where
  "executor_handler E = (let B = env_backend E in
     \<lparr>rh_balance = exec_balance E, rh_code_size = exec_code_size E, rh_code_hash = exec_code_hash E,
      rh_code = exec_code E, rh_storage = exec_storage E,
      rh_gas_left = (\<lambda>X. ucast (gas_remaining X)), rh_gas_price = (\<lambda>_. b_gas_price B), rh_origin = (\<lambda>_. b_origin B),
      rh_block_hash = (\<lambda>n _. b_block_hash B n), rh_block_number = (\<lambda>_. b_block_number B),
      rh_block_coinbase = (\<lambda>_. b_block_coinbase B), rh_block_timestamp = (\<lambda>_. b_block_timestamp B),
      rh_block_difficulty = (\<lambda>_. b_block_difficulty B), rh_block_randomness = (\<lambda>_. b_block_randomness B),
      rh_block_gas_limit = (\<lambda>_. b_block_gas_limit B), rh_block_base_fee_per_gas = (\<lambda>_. b_block_base_fee_per_gas B),
      rh_chain_id = (\<lambda>_. b_chain_id B), rh_set_storage = exec_set_storage E, rh_log = exec_log,
      rh_mark_delete = exec_mark_delete E, rh_create = exec_create E, rh_call = exec_call E,
      rh_pre_validate = pre_validate E, rh_record_external_operation = record_external_operation\<rparr>)"

section \<open>Clean-up of a frame\<close>

definition check_first_byte :: "Config \<Rightarrow> u8 list \<Rightarrow> ExitError + unit" where
  "check_first_byte config code =
     (if cfg_disallow_executable_format config \<and> code \<noteq> [] \<and> hd code = 0xef then Inl (InvalidCode 0xef) else Inr ())"

definition cleanup_for_create :: "Env \<Rightarrow> h160 \<Rightarrow> ExitReason \<Rightarrow> u8 list \<Rightarrow> Exec \<Rightarrow> (create_exit \<times> Exec) option" where
  "cleanup_for_create E created_address reason return_data X =
     (let result = (\<lambda>reason address d X. Some ((reason, address, d), X)) in case reason of
        Succeed s \<Rightarrow>
          (case check_first_byte (env_config E) return_data of
             Inl e \<Rightarrow> leave Failed (result (Error e) None []) (gas_fail X)
           | Inr _ \<Rightarrow>
               if (case cfg_create_contract_limit (env_config E) of Some limit \<Rightarrow> limit < length return_data | None \<Rightarrow> False)
               then leave Failed (result (Error CreateContractLimit) None []) (gas_fail X)
               else
                 or_fail (exec_gas (record_deposit (length return_data)) X)
                   (\<lambda>e. leave Failed (result (Error e) None []))
                   (\<lambda>_ X. case exit_substate Succeeded X of
                      None \<Rightarrow> None
                    | Some (exit_result, X) \<Rightarrow>
                        or_fail (record_external_operation WriteOperation X) (\<lambda>e. result (Error e) None []) (\<lambda>_ X.
                          let X = exec_state (set_code (env_backend E) created_address return_data) X
                          in case exit_result of
                              Inl e \<Rightarrow> result (Error e) None [] X
                            | Inr _ \<Rightarrow> result (Succeed s) (Some created_address) [] X)))
      | Error e \<Rightarrow> leave Failed (result (Error e) None []) (gas_fail X)
      | Revert e \<Rightarrow> leave RevertedKind (result (Revert e) None return_data) X
      | Fatal e \<Rightarrow> leave Failed (result (Fatal e) None []) (gas_fail X))"

definition cleanup_for_call :: "ExitReason \<Rightarrow> u8 list \<Rightarrow> Exec \<Rightarrow> (u8 list \<times> Exec) option" where
  "cleanup_for_call reason return_data X =
     (let result = (\<lambda>d X. Some (d, X)) in case reason of
        Succeed _ \<Rightarrow> leave Succeeded (result return_data) X
      | Error _ \<Rightarrow> leave Failed (result []) X
      | Revert _ \<Rightarrow> leave RevertedKind (result return_data) X
      | Fatal _ \<Rightarrow> leave Failed (result []) (gas_fail X))"

section \<open>The loop over the call stack\<close>

definition cleanup_runtime :: "Env \<Rightarrow> RuntimeKind \<Rightarrow> ExitReason \<Rightarrow> Runtime \<Rightarrow> Exec \<Rightarrow> (create_exit \<times> Exec) option" where
  "cleanup_runtime E kind reason rt X = (case return_value (rt_machine rt) of
     None \<Rightarrow> None
   | Some return_data \<Rightarrow> (case kind of
       KindCreate created_address \<Rightarrow> cleanup_for_create E created_address reason return_data X
     | KindCall code_address \<Rightarrow>
         map_option (\<lambda>(return_data, X). ((reason, None, return_data), X)) (cleanup_for_call reason return_data X)
     | KindExecute \<Rightarrow> Some ((reason, None, return_data), X)))"

definition pass_result :: "RuntimeKind \<Rightarrow> create_exit \<Rightarrow> Runtime \<Rightarrow> Runtime \<times> (ExitReason + unit)" where
  "pass_result kind res rt = (case res of (reason, maybe_address, return_data) \<Rightarrow> (case kind of
     KindCreate _ \<Rightarrow> finish_create reason maybe_address return_data rt
   | KindCall _ \<Rightarrow> Runtime_finish_call reason return_data rt
   | KindExecute \<Rightarrow> Runtime_finish_call reason return_data rt))"

text \<open>
  The call stack is a list whose head is the running runtime.  The loop spends one unit of fuel per iteration and gives
  the rest to the runtime; \<open>Some (X, None)\<close> is a run that has used it up.
\<close>

fun execute_with_call_stack :: "Env \<Rightarrow> nat \<Rightarrow> TaggedRuntime list \<Rightarrow> Exec \<Rightarrow> (Exec \<times> create_exit option) option" where
  "execute_with_call_stack E 0 call_stack X = Some (X, None)"
| "execute_with_call_stack E (Suc fuel) [] X = Some (X, Some (Fatal UnhandledInterrupt, None, []))"
| "execute_with_call_stack E (Suc fuel) (tg # call_stack) X =
     (case runtime_run (env_mvcc E) (env_keccak256 E) (executor_handler E) fuel (tg_inner tg) X of
        None \<Rightarrow> None
      | Some (rt, X, None) \<Rightarrow> Some (X, None)
      | Some (rt, X, Some (CaptureTrap (ResolveCall interrupt))) \<Rightarrow>
          execute_with_call_stack E fuel (interrupt # tg\<lparr>tg_inner := rt\<rparr> # call_stack) X
      | Some (rt, X, Some (CaptureTrap (ResolveCreate interrupt))) \<Rightarrow>
          execute_with_call_stack E fuel (interrupt # tg\<lparr>tg_inner := rt\<rparr> # call_stack) X
      | Some (rt, X, Some (CaptureExit reason)) \<Rightarrow>
          (case cleanup_runtime E (tg_kind tg) reason rt X of
             None \<Rightarrow> None
           | Some ((reason, maybe_address, return_data), X) \<Rightarrow>
               (case call_stack of
                  [] \<Rightarrow> Some (X, Some (reason, None, return_data))
                | tg' # rest \<Rightarrow>
                    (case pass_result (tg_kind tg) (reason, maybe_address, return_data) (tg_inner tg') of
                       (rt, Inl e) \<Rightarrow> Some (X, Some (e, None, []))
                     | (rt, Inr _) \<Rightarrow> execute_with_call_stack E fuel (tg'\<lparr>tg_inner := rt\<rparr> # rest) X))))"

definition execute :: "Env \<Rightarrow> nat \<Rightarrow> Runtime \<Rightarrow> Exec \<Rightarrow> (Exec \<times> ExitReason option) option" where
  "execute E fuel runtime X =
     map_option (\<lambda>(X, res). (X, map_option fst res))
       (execute_with_call_stack E fuel [\<lparr>tg_kind = KindExecute, tg_inner = runtime\<rparr>] X)"

section \<open>Transactions\<close>

type_synonym transact_result = "(Exec \<times> call_exit option) option"

definition transact_exit :: "ExitReason \<Rightarrow> u8 list \<Rightarrow> Exec \<Rightarrow> transact_result" where
  "transact_exit reason output X = Some (X, Some (reason, output))"

definition run_interrupt :: "Env \<Rightarrow> nat \<Rightarrow> TaggedRuntime \<Rightarrow> Exec \<Rightarrow> transact_result" where
  "run_interrupt E fuel rt X =
     map_option (\<lambda>(X, res). (X, map_option (\<lambda>(s, _, v). (s, v)) res)) (execute_with_call_stack E fuel [rt] X)"

definition finish_create_transaction :: "Env \<Rightarrow> nat \<Rightarrow> create_result \<Rightarrow> transact_result" where
  "finish_create_transaction E fuel res = (case res of
     None \<Rightarrow> None
   | Some (CaptureExit (s, _, v), X) \<Rightarrow> transact_exit s v X
   | Some (CaptureTrap rt, X) \<Rightarrow> run_interrupt E fuel rt X)"

definition record_create_transaction_cost :: "u8 list \<Rightarrow> (h160 \<times> h256 list) list \<Rightarrow> Exec \<Rightarrow> (ExitError + unit) \<times> Exec" where
  "record_create_transaction_cost init_code access_list X =
     exec_gas (record_transaction (create_transaction_cost init_code access_list)) X"

definition initialize_with_access_list :: "(h160 \<times> h256 list) list \<Rightarrow> Exec \<Rightarrow> Exec" where
  "initialize_with_access_list access_list X =
     (let X = exec_metadata (access_addresses (map fst access_list)) X
      in exec_metadata (access_storages (concat (map (\<lambda>(address, keys). map (\<lambda>key. (address, key)) keys) access_list))) X)"

definition init_code_too_long :: "Env \<Rightarrow> u8 list \<Rightarrow> bool" where
  "init_code_too_long E init_code =
     (case cfg_max_initcode_size (env_config E) of Some limit \<Rightarrow> limit < length init_code | None \<Rightarrow> False)"

definition transact_create :: "Env \<Rightarrow> nat \<Rightarrow> h160 \<Rightarrow> u256 \<Rightarrow> u8 list \<Rightarrow> u64 \<Rightarrow> (h160 \<times> h256 list) list \<Rightarrow> Exec \<Rightarrow> transact_result" where
  "transact_create E fuel caller v init_code limit access_list X =
     (if init_code_too_long E init_code then transact_exit (Error CreateContractLimit) [] (gas_fail X)
      else
        or_fail (record_create_transaction_cost init_code access_list X) (\<lambda>e. transact_exit (Error e) []) (\<lambda>_ X.
          let X = initialize_with_access_list access_list X
          in finish_create_transaction E fuel
               (create_inner E caller (Legacy caller) v init_code (Some limit) False X)))"

definition transact_create2 :: "Env \<Rightarrow> nat \<Rightarrow> h160 \<Rightarrow> u256 \<Rightarrow> u8 list \<Rightarrow> h256 \<Rightarrow> u64 \<Rightarrow> (h160 \<times> h256 list) list \<Rightarrow> Exec
    \<Rightarrow> transact_result" where
  "transact_create2 E fuel caller v init_code salt limit access_list X =
     (if init_code_too_long E init_code then transact_exit (Error CreateContractLimit) [] (gas_fail X)
      else
        or_fail (record_create_transaction_cost init_code access_list X) (\<lambda>e. transact_exit (Error e) []) (\<lambda>_ X.
          let X = initialize_with_access_list access_list X
          in finish_create_transaction E fuel
               (create_inner E caller (Create2 caller (env_keccak256 E init_code) salt) v init_code (Some limit) False X)))"

definition warm_addresses :: "Env \<Rightarrow> h160 \<Rightarrow> h160 \<Rightarrow> (h160 \<times> h256 list) list \<Rightarrow> Exec \<Rightarrow> Exec" where
  "warm_addresses E caller address access_list X =
     (if cfg_increase_state_access_gas (env_config E) then
        let X = (if cfg_warm_coinbase_address (env_config E)
                 then exec_metadata (access_addresses [caller, address, b_block_coinbase (env_backend E)]) X
                 else exec_metadata (access_addresses [caller, address]) X)
        in initialize_with_access_list access_list X
      else X)"

definition transact_call :: "Env \<Rightarrow> nat \<Rightarrow> h160 \<Rightarrow> h160 \<Rightarrow> u256 \<Rightarrow> u8 list \<Rightarrow> u64 \<Rightarrow> (h160 \<times> h256 list) list \<Rightarrow> Exec
    \<Rightarrow> transact_result" where
  "transact_call E fuel caller address v d limit access_list X =
     or_fail (exec_gas (record_transaction (call_transaction_cost d access_list)) X) (\<lambda>e. transact_exit (Error e) []) (\<lambda>_ X.
       let X = warm_addresses E caller address access_list X
       in or_fail (record_external_operation AccountBasicRead X) (\<lambda>e. transact_exit (Error e) []) (\<lambda>_ X.
          or_fail (exec_substate (inc_nonce (env_backend E) caller) X) (\<lambda>e. transact_exit (Error e) []) (\<lambda>_ X.
            case call_inner E address (Some \<lparr>tr_source = caller, tr_target = address, tr_value = v\<rparr>) d (Some limit)
                   False False False \<lparr>ctx_address = address, ctx_caller = caller, ctx_apparent_value = v\<rparr> X of
              None \<Rightarrow> None
            | Some (CaptureExit (s, v), X) \<Rightarrow> transact_exit s v X
            | Some (CaptureTrap rt, X) \<Rightarrow> run_interrupt E fuel rt X)))"

definition used_gas :: "Env \<Rightarrow> Exec \<Rightarrow> u64" where
  "used_gas E X =
     (let g = md_gasometer (exec_md X)
      in total_used_gas g - min (total_used_gas g div cfg_max_refund_quotient (env_config E)) (refunded_gas g))"

definition fee :: "Env \<Rightarrow> u256 \<Rightarrow> Exec \<Rightarrow> u256" where
  "fee E price X = saturating_mul (ucast (used_gas E X)) price"

end
