(* ===== verification/Evm_Replay.thy ===== *)
theory Evm_Replay
  imports Evm_Executor
begin

text \<open>
  What a simulation depends on.  The executor records every storage slot that it reads from the backend in its read set.
  The theorem of this theory is the reason why a recorded read set can be validated instead of executing a transaction
  again: on a backend that differs only in slots outside the recorded read set, the execution is the same, step by step.
\<close>

section \<open>Recorded reads\<close>

definition read_recorded :: "Exec \<Rightarrow> h160 \<Rightarrow> h256 \<Rightarrow> bool" where
  "read_recorded X a k = (case ex_rw_set X of
     Some rw \<Rightarrow> (case map_of (read_set rw) a of Some m \<Rightarrow> map_of m k \<noteq> None | None \<Rightarrow> False)
   | None \<Rightarrow> False)"

definition simulating :: "Exec \<Rightarrow> bool" where
  "simulating X = (ex_rw_set X \<noteq> None)"

definition reads_le :: "Exec \<Rightarrow> Exec \<Rightarrow> bool" where
  "reads_le X Y \<longleftrightarrow> (simulating X \<longrightarrow> simulating Y) \<and> (\<forall>a k. read_recorded X a k \<longrightarrow> read_recorded Y a k)"

lemma reads_le_refl [simp, intro]: "reads_le X X"
  by (simp add: reads_le_def)

lemma reads_le_trans [trans]: "reads_le X Y \<Longrightarrow> reads_le Y Z \<Longrightarrow> reads_le X Z"
  by (simp add: reads_le_def)

lemma reads_le_same: "map_option read_set (ex_rw_set Y) = map_option read_set (ex_rw_set X) \<Longrightarrow> reads_le X Y"
  by (cases "ex_rw_set X"; cases "ex_rw_set Y") (simp_all add: reads_le_def simulating_def read_recorded_def)

lemma read_recorded_record_read:
  "read_recorded (record_read a k v X) a' k' \<longleftrightarrow> simulating X \<and> a' = a \<and> k' = k \<or> read_recorded X a' k'"
  by (auto simp: read_recorded_def record_read_def record_read_key_def map_of_record_key simulating_def update_conv'
      split: option.splits if_splits)

lemma reads_le_record_read: "reads_le X (record_read a k v X)"
  by (auto simp: reads_le_def read_recorded_record_read) (simp add: simulating_def record_read_def)

section \<open>Another backend\<close>

definition swap_storage :: "(h160 \<Rightarrow> h256 \<Rightarrow> h256) \<Rightarrow> (h160 \<Rightarrow> h256 \<Rightarrow> h256 option) \<Rightarrow> Env \<Rightarrow> Env" where
  "swap_storage f g E = E\<lparr>env_backend := (env_backend E)\<lparr>b_storage := f, b_original_storage := g\<rparr>\<rparr>"

definition agrees :: "(h160 \<Rightarrow> h256 \<Rightarrow> h256) \<Rightarrow> (h160 \<Rightarrow> h256 \<Rightarrow> h256 option) \<Rightarrow> Env \<Rightarrow> Exec \<Rightarrow> bool" where
  "agrees f g E Y \<longleftrightarrow> (\<forall>a k. read_recorded Y a k \<longrightarrow>
     f a k = b_storage (env_backend E) a k \<and> g a k = b_original_storage (env_backend E) a k)"

lemma agrees_mono: "reads_le X Y \<Longrightarrow> agrees f g E Y \<Longrightarrow> agrees f g E X"
  by (simp add: agrees_def reads_le_def)

lemma backend_swap:
  "b_basic (B\<lparr>b_storage := f, b_original_storage := g\<rparr>) = b_basic B"
  "b_code (B\<lparr>b_storage := f, b_original_storage := g\<rparr>) = b_code B"
  "b_exists (B\<lparr>b_storage := f, b_original_storage := g\<rparr>) = b_exists B"
  "b_block_coinbase (B\<lparr>b_storage := f, b_original_storage := g\<rparr>) = b_block_coinbase B"
  by simp_all

lemma account_mut_swap: "account_mut (B\<lparr>b_storage := f, b_original_storage := g\<rparr>) = account_mut B"
  by (intro ext, unfold account_mut_def backend_swap, rule refl)

lemma substate_swap:
  "inc_nonce (B\<lparr>b_storage := f, b_original_storage := g\<rparr>) = inc_nonce B"
  "reset_storage (B\<lparr>b_storage := f, b_original_storage := g\<rparr>) = reset_storage B"
  "set_code (B\<lparr>b_storage := f, b_original_storage := g\<rparr>) = set_code B"
  "transfer_value (B\<lparr>b_storage := f, b_original_storage := g\<rparr>) = transfer_value B"
  "reset_balance (B\<lparr>b_storage := f, b_original_storage := g\<rparr>) = reset_balance B"
  "touch (B\<lparr>b_storage := f, b_original_storage := g\<rparr>) = touch B"
  "state_basic (B\<lparr>b_storage := f, b_original_storage := g\<rparr>) = state_basic B"
  "state_code (B\<lparr>b_storage := f, b_original_storage := g\<rparr>) = state_code B"
  "state_exists (B\<lparr>b_storage := f, b_original_storage := g\<rparr>) = state_exists B"
  "state_is_empty (B\<lparr>b_storage := f, b_original_storage := g\<rparr>) = state_is_empty B"
  by (unfold inc_nonce_def reset_storage_def set_code_def transfer_value_def reset_balance_def touch_def
      state_basic_def state_code_def state_exists_def state_is_empty_def backend_swap account_mut_swap) (rule refl)+

lemma code_swap:
  "code_size (B\<lparr>b_storage := f, b_original_storage := g\<rparr>) = code_size B"
  "code_hash h (B\<lparr>b_storage := f, b_original_storage := g\<rparr>) = code_hash h B"
  by (unfold code_size_def code_hash_def substate_swap) (rule refl)+

lemma deconstruct_loop_swap: "deconstruct_loop (B\<lparr>b_storage := f, b_original_storage := g\<rparr>) as s = deconstruct_loop B as s"
  by (induction B as s rule: deconstruct_loop.induct) (simp_all add: account_mut_swap split: prod.split)

lemma deconstruct_swap: "deconstruct (B\<lparr>b_storage := f, b_original_storage := g\<rparr>) s = deconstruct B s"
  by (simp add: deconstruct_def deconstruct_loop_swap Let_def)

lemma env_swap [simp]:
  "env_config (swap_storage f g E) = env_config E"
  "env_precompiles (swap_storage f g E) = env_precompiles E"
  "env_keccak256 (swap_storage f g E) = env_keccak256 E"
  "env_rlp (swap_storage f g E) = env_rlp E"
  "env_mvcc (swap_storage f g E) = env_mvcc E"
  "env_backend (swap_storage f g E) = (env_backend E)\<lparr>b_storage := f, b_original_storage := g\<rparr>"
  by (simp_all add: swap_storage_def)

lemmas swaps = env_swap substate_swap code_swap backend_swap

lemma exec_swap:
  "exec_balance (swap_storage f g E) = exec_balance E"
  "exec_nonce (swap_storage f g E) = exec_nonce E"
  "exec_code_size (swap_storage f g E) = exec_code_size E"
  "exec_code (swap_storage f g E) = exec_code E"
  "exec_exists (swap_storage f g E) = exec_exists E"
  "exec_is_cold (swap_storage f g E) = exec_is_cold E"
  "exec_set_storage (swap_storage f g E) = exec_set_storage E"
  "after_gas (swap_storage f g E) = after_gas E"
  "maybe_record_init_code_cost (swap_storage f g E) = maybe_record_init_code_cost E"
  "warm_addresses (swap_storage f g E) = warm_addresses E"
  "precompile_execute (swap_storage f g E) = precompile_execute E"
  "cleanup_for_create (swap_storage f g E) = cleanup_for_create E"
  "init_code_too_long (swap_storage f g E) = init_code_too_long E"
  by (unfold exec_balance_def exec_nonce_def exec_code_size_def exec_code_def exec_exists_def
      exec_is_cold_def exec_set_storage_def after_gas_def maybe_record_init_code_cost_def warm_addresses_def
      precompile_execute_def cleanup_for_create_def init_code_too_long_def swaps) (rule refl)+

lemma call_create_swap:
  "exec_code_hash (swap_storage f g E) = exec_code_hash E"
  "exec_mark_delete (swap_storage f g E) = exec_mark_delete E"
  "create_inner (swap_storage f g E) = create_inner E"
  "call_inner (swap_storage f g E) = call_inner E"
  "cleanup_runtime (swap_storage f g E) = cleanup_runtime E"
  by (unfold exec_code_hash_def exec_mark_delete_def create_inner_def create_in_substate_def create_address_def
      call_inner_def call_in_substate_def call_code_def cleanup_runtime_def Let_def swaps exec_swap) (rule refl)+

lemma handler_call_swap:
  "exec_create (swap_storage f g E) = exec_create E"
  "exec_call (swap_storage f g E) = exec_call E"
  by (unfold exec_create_def exec_call_def exec_swap call_create_swap) (rule refl)+

lemma gas_handler_swap:
  "gas_handler (swap_storage f g E) = (gas_handler E)\<lparr>h_storage := exec_storage (swap_storage f g E),
     h_original_storage := exec_original_storage (swap_storage f g E)\<rparr>"
  by (simp add: gas_handler_def exec_swap)

lemma executor_handler_swap:
  "executor_handler (swap_storage f g E) = (executor_handler E)\<lparr>rh_storage := exec_storage (swap_storage f g E),
     rh_pre_validate := pre_validate (swap_storage f g E)\<rparr>"
  by (simp add: executor_handler_def exec_swap call_create_swap handler_call_swap Let_def)

section \<open>Operations that read no slot\<close>

lemma rw_set_kept [simp]:
  "ex_rw_set (exec_state h X) = ex_rw_set X"
  "ex_rw_set (exec_metadata h' X) = ex_rw_set X"
  "ex_rw_set (gas_fail X) = ex_rw_set X"
  "ex_rw_set (snd (exec_gas i X)) = ex_rw_set X"
  "ex_rw_set (snd (exec_substate j X)) = ex_rw_set X"
  "ex_rw_set (enter_substate limit st X) = ex_rw_set X"
  "ex_rw_set (access_target t X) = ex_rw_set X"
  "ex_rw_set (initialize_with_access_list al X) = ex_rw_set X"
  "ex_rw_set (snd (record_external_operation op X)) = ex_rw_set X"
  by (simp_all add: exec_state_def exec_metadata_def gas_fail_def exec_gas_def exec_substate_def enter_substate_def
      access_target_def initialize_with_access_list_def record_external_operation_def Let_def split: prod.split StorageTarget.split)

lemma exit_substate_rw_set: "exit_substate kind X = Some (r, Y) \<Longrightarrow> ex_rw_set Y = ex_rw_set X"
  by (auto simp: exit_substate_def)

definition rw_kept :: "Exec \<Rightarrow> ('a \<times> Exec) option \<Rightarrow> bool" where
  "rw_kept X res \<longleftrightarrow> (\<forall>c Y. res = Some (c, Y) \<longrightarrow> ex_rw_set Y = ex_rw_set X)"

lemma rw_kept_Some: "ex_rw_set Y = ex_rw_set X \<Longrightarrow> rw_kept X (Some (c, Y))"
  by (simp add: rw_kept_def)

lemma rw_kept_None: "rw_kept X None"
  by (simp add: rw_kept_def)

lemma rw_kept_or_fail:
  assumes "ex_rw_set (snd res) = ex_rw_set X"
    and "\<And>e Y. ex_rw_set Y = ex_rw_set X \<Longrightarrow> rw_kept X (err e Y)"
    and "\<And>v Y. ex_rw_set Y = ex_rw_set X \<Longrightarrow> rw_kept X (k v Y)"
  shows "rw_kept X (or_fail res err k)"
  using assms by (cases res) (auto simp: or_fail_def split: sum.split)

lemma rw_kept_leave:
  assumes "ex_rw_set Y = ex_rw_set X" "\<And>Z. ex_rw_set Z = ex_rw_set X \<Longrightarrow> rw_kept X (k Z)"
  shows "rw_kept X (leave kind k Y)"
proof (cases "exit_substate kind Y")
  case None
  then show ?thesis by (simp add: leave_def rw_kept_def)
next
  case (Some p)
  then obtain r Z where Z: "exit_substate kind Y = Some (r, Z)" by (cases p) simp
  show ?thesis
    using assms(2) [of Z] exit_substate_rw_set [OF Z] assms(1) by (simp add: leave_def Z)
qed

lemma rw_kept_exit:
  "ex_rw_set Y = ex_rw_set X \<Longrightarrow> rw_kept X (create_exit reason Y)"
  "ex_rw_set Y = ex_rw_set X \<Longrightarrow> rw_kept X (call_exit reason out Y)"
  by (simp_all add: create_exit_def call_exit_def rw_kept_Some)

lemmas rw_kept_intros = rw_kept_Some rw_kept_None rw_kept_or_fail rw_kept_leave rw_kept_exit

lemma or_fail_rw_set:
  assumes "ex_rw_set (snd res) = ex_rw_set X"
    and "\<And>e Y. ex_rw_set Y = ex_rw_set X \<Longrightarrow> ex_rw_set (snd (err e Y)) = ex_rw_set X"
    and "\<And>v Y. ex_rw_set Y = ex_rw_set X \<Longrightarrow> ex_rw_set (snd (k v Y)) = ex_rw_set X"
  shows "ex_rw_set (snd (or_fail res err k)) = ex_rw_set X"
  using assms by (cases res) (auto simp: or_fail_def split: sum.split)

lemma rw_set_kept2 [simp]:
  "ex_rw_set (snd (after_gas E l X)) = ex_rw_set X"
  "ex_rw_set (snd (maybe_record_init_code_cost E c X)) = ex_rw_set X"
  "ex_rw_set (snd (precompile_execute E a d limit ctx st X)) = ex_rw_set X"
  "ex_rw_set (snd (exec_mark_delete E a b X)) = ex_rw_set X"
  "ex_rw_set (snd (exec_is_cold E a i X)) = ex_rw_set X"
  "ex_rw_set (warm_addresses E a b al X) = ex_rw_set X"
  by (auto simp: after_gas_def maybe_record_init_code_cost_def precompile_execute_def exec_mark_delete_def exec_is_cold_def
      is_precompile_def warm_addresses_def Let_def intro!: or_fail_rw_set split: option.split sum.split)

lemma rw_kept_create_inner: "ex_rw_set Y = ex_rw_set X \<Longrightarrow> rw_kept X (create_inner E a s v c t l Y)"
  unfolding create_inner_def create_in_substate_def Let_def
  by (auto intro!: rw_kept_intros)

lemma precompile_rw_set: "precompile_execute E a d limit ctx st Y = (r, Z) \<Longrightarrow> ex_rw_set Z = ex_rw_set Y"
  using rw_set_kept2(3) [of E a d limit ctx st Y] by (simp del: rw_set_kept2)

lemma rw_kept_call_code: "ex_rw_set Y = ex_rw_set X \<Longrightarrow> rw_kept X (call_code E a d limit ctx c Y)"
  by (auto simp: call_code_def dest!: precompile_rw_set intro!: rw_kept_intros split: prod.split option.split sum.split PrecompileFailure.split)

lemma rw_kept_call_inner: "ex_rw_set Y = ex_rw_set X \<Longrightarrow> rw_kept X (call_inner E a t d tg st l s ctx Y)"
  unfolding call_inner_def call_in_substate_def Let_def
  by (auto intro!: rw_kept_intros rw_kept_call_code split: option.split)

lemma rw_kept_map: "rw_kept X res \<Longrightarrow> rw_kept X (map_option (\<lambda>(d, Z). (h d, Z)) res)"
  by (auto simp: rw_kept_def)

lemma rw_kept_cleanup: "ex_rw_set Y = ex_rw_set X \<Longrightarrow> rw_kept X (cleanup_runtime E kind reason rt Y)"
proof -
  assume rw: "ex_rw_set Y = ex_rw_set X"
  have "rw_kept X (cleanup_for_create E a reason d Y)" for a d
    using rw unfolding cleanup_for_create_def Let_def
    by (auto intro!: rw_kept_intros split: ExitReason.split sum.split option.split dest!: exit_substate_rw_set)
  moreover have "rw_kept X (cleanup_for_call reason d Y)" for d
    using rw unfolding cleanup_for_call_def Let_def by (auto intro!: rw_kept_intros split: ExitReason.split)
  ultimately show ?thesis
    using rw by (auto simp: cleanup_runtime_def intro!: rw_kept_map rw_kept_None rw_kept_Some split: option.split RuntimeKind.split)
qed

section \<open>Reads only grow\<close>

lemma reads_le_kept: "ex_rw_set Y = ex_rw_set X \<Longrightarrow> reads_le X Y"
  by (simp add: reads_le_same)

lemma reads_le_exec_storage: "reads_le X (snd (exec_storage E a k X))"
  by (simp add: exec_storage_def reads_le_record_read Let_def)

lemma reads_le_exec_original_storage: "reads_le X (snd (exec_original_storage E a k X))"
  by (simp add: exec_original_storage_def reads_le_record_read Let_def)

lemma reads_le_exec_set_storage: "reads_le X (snd (exec_set_storage E a k v X))"
  by (intro reads_le_same)
    (cases "ex_rw_set X"; simp add: exec_set_storage_def record_write_key_def exec_state_def Let_def)

definition cost_grows :: "Exec \<Rightarrow> (Exec, 'a) handler_result \<Rightarrow> bool" where
  "cost_grows X res \<longleftrightarrow> (\<forall>r Y. res = Some (r, Y) \<longrightarrow> reads_le X Y)"

lemma cost_grows_Some: "reads_le X Y \<Longrightarrow> cost_grows X (Some (r, Y))"
  by (simp add: cost_grows_def)

lemma cost_grows_plain: "reads_le X Y \<Longrightarrow> cost_grows X (plain c Y)"
  by (simp add: cost_grows_def plain_def)

lemma cost_grows_peek: "reads_le X Y \<Longrightarrow> (\<And>v. cost_grows X (k v)) \<Longrightarrow> cost_grows X (peek_or n st Y k)"
  by (simp add: peek_or_def cost_grows_Some split: sum.split)

lemma cost_grows_ask:
  "reads_le X (snd (f Y)) \<Longrightarrow> (\<And>v Z. reads_le X Z \<Longrightarrow> cost_grows X (k v Z)) \<Longrightarrow> cost_grows X (ask_or f Y k)"
  by (auto simp: ask_or_def cost_grows_Some split: prod.split sum.split)

lemma cost_grows_slot:
  "reads_le X (snd (f Y)) \<Longrightarrow> (\<And>v Z. reads_le X Z \<Longrightarrow> cost_grows X (k v Z)) \<Longrightarrow> cost_grows X (slot_or m f Y k)"
  by (auto simp: slot_or_def cost_grows_def split: prod.splits sum.splits)

lemma reads_le_is_cold: "reads_le X Y \<Longrightarrow> reads_le X (snd (exec_is_cold E a i Y))"
  by (rule reads_le_trans, assumption) (simp add: reads_le_kept)

lemma reads_le_storage: "reads_le X Y \<Longrightarrow> reads_le X (snd (exec_storage E a i Y))"
  by (rule reads_le_trans, assumption) (rule reads_le_exec_storage)

lemma reads_le_original: "reads_le X Y \<Longrightarrow> reads_le X (snd (exec_original_storage E a i Y))"
  by (rule reads_le_trans, assumption) (rule reads_le_exec_original_storage)

lemma reads_le_external: "reads_le X Y \<Longrightarrow> reads_le X (snd (record_external_operation op Y))"
  by (rule reads_le_trans, assumption) (simp add: reads_le_kept)

lemma cost_grows_if: "(b \<Longrightarrow> cost_grows X x) \<Longrightarrow> (\<not> b \<Longrightarrow> cost_grows X y) \<Longrightarrow> cost_grows X (if b then x else y)"
  by simp

lemmas cost_grows_intros = cost_grows_if cost_grows_Some cost_grows_plain cost_grows_peek cost_grows_ask cost_grows_slot
  reads_le_is_cold reads_le_storage reads_le_original reads_le_external reads_le_refl

lemma gas_handler_simps [simp]:
  "h_is_cold (gas_handler E) = exec_is_cold E" "h_exists (gas_handler E) = exec_exists E"
  "h_deleted (gas_handler E) = exec_deleted" "h_balance (gas_handler E) = exec_balance E"
  "h_storage (gas_handler E) = exec_storage E" "h_original_storage (gas_handler E) = exec_original_storage E"
  "h_record_external_operation (gas_handler E) = record_external_operation"
  by (simp_all add: gas_handler_def)

lemma cost_grows_opcode: "cost_grows X (opcode_gas_cost m (gas_handler E) a op st is_static cfg X)"
  unfolding opcode_gas_cost_def target_cost_def exists_or_def gas_handler_simps Let_def
  by (intro cost_grows_intros; assumption)

lemma reads_le_simps [simp]:
  "reads_le X (exec_metadata h Y) \<longleftrightarrow> reads_le X Y"
  "reads_le X (access_target t Y) \<longleftrightarrow> reads_le X Y"
  by (simp_all add: reads_le_def simulating_def read_recorded_def)

lemma pair_rw_set:
  "exec_gas i X = (r, Y) \<Longrightarrow> ex_rw_set Y = ex_rw_set X"
  "maybe_record_init_code_cost E c X = (r', Y) \<Longrightarrow> ex_rw_set Y = ex_rw_set X"
  using rw_set_kept(4) [of i X] rw_set_kept2(2) [of E c X] by (simp_all del: rw_set_kept rw_set_kept2)

lemma pre_validate_reads:
  assumes "pre_validate E ctx op st X = Some (r, Y)"
  shows "reads_le X Y"
proof (cases "static_opcode_cost op")
  case None
  have grows: "reads_le X Z"
    if "dynamic_opcode_cost m (gas_handler E) a op st is_static cfg X = Some (c, Z)" for m a is_static cfg c Z
    using that cost_grows_opcode [of X m E a op st is_static cfg]
    by (auto simp: dynamic_opcode_cost_def cost_grows_def split: option.splits sum.splits prod.splits)
  then show ?thesis
    using assms None by (auto simp: pre_validate_def split: option.splits sum.splits prod.splits)
qed (use assms in \<open>auto simp: pre_validate_def intro!: reads_le_kept dest: pair_rw_set\<close>)

definition sys_grows :: "Exec \<Rightarrow> (Exec, 'i) sys_result \<Rightarrow> bool" where
  "sys_grows X res \<longleftrightarrow> (\<forall>rt Y c. res = Some (rt, Y, c) \<longrightarrow> reads_le X Y)"

lemma sys_grows_basic:
  "sys_grows X None"
  "reads_le X Y \<Longrightarrow> sys_grows X (Some (rt, Y, c))"
  "reads_le X Y \<Longrightarrow> sys_grows X (sys_exit e rt Y)"
  "reads_le X Y \<Longrightarrow> sys_grows X (sys_continue rt Y)"
  "reads_le X Y \<Longrightarrow> sys_grows X (sys_push v rt Y)"
  "reads_le X Y \<Longrightarrow> sys_grows X (sys_copy o1 o2 len bs rt Y)"
  "reads_le X Y \<Longrightarrow> sys_grows X (sys_finish fin Y)"
  by (auto simp: sys_grows_def sys_exit_def sys_continue_def sys_push_def sys_copy_def sys_finish_def
      split: sum.splits prod.splits)

lemma sys_grows_pop: "reads_le X Y \<Longrightarrow> (\<And>v rt. sys_grows X (k v rt)) \<Longrightarrow> sys_grows X (sys_pop rt Y k)"
  by (auto simp: sys_pop_def sys_grows_basic split: sum.split)

lemma sys_grows_resize: "reads_le X Y \<Longrightarrow> (\<And>rt. sys_grows X (k rt)) \<Longrightarrow> sys_grows X (sys_resize off len rt Y k)"
  by (auto simp: sys_resize_def sys_grows_basic split: sum.split)

lemma sys_grows_bytes: "reads_le X Y \<Longrightarrow> (\<And>d. sys_grows X (k d)) \<Longrightarrow> sys_grows X (sys_bytes off len rt Y k)"
  by (auto simp: sys_bytes_def sys_grows_basic)

lemma sys_grows_ask:
  "reads_le X (snd res) \<Longrightarrow> (\<And>v Z. reads_le X Z \<Longrightarrow> sys_grows X (k v Z)) \<Longrightarrow> sys_grows X (sys_ask res rt k)"
  by (cases res) (auto simp: sys_ask_def sys_grows_basic split: sum.split)

lemma sys_grows_topics:
  "reads_le X Y \<Longrightarrow> (\<And>ts rt. sys_grows X (k ts rt)) \<Longrightarrow> sys_grows X (pop_topics n ts rt Y k)"
  by (induction n arbitrary: ts rt) (simp_all add: sys_grows_pop)

lemmas sys_grows_intros = sys_grows_basic sys_grows_pop sys_grows_resize sys_grows_bytes sys_grows_ask sys_grows_topics

lemma executor_handler_simps [simp]:
  "rh_storage (executor_handler E) = exec_storage E"
  "rh_set_storage (executor_handler E) = exec_set_storage E"
  "rh_log (executor_handler E) = exec_log"
  "rh_mark_delete (executor_handler E) = exec_mark_delete E"
  "rh_create (executor_handler E) = exec_create E"
  "rh_call (executor_handler E) = exec_call E"
  "rh_pre_validate (executor_handler E) = pre_validate E"
  "rh_record_external_operation (executor_handler E) = record_external_operation"
  by (simp_all add: executor_handler_def Let_def)

lemma sys_grows_create: "sys_grows X (sys_create h b (executor_handler E) rt X)"
proof -
  have reads: "reads_le X Y" if "exec_create E a sc v c t X = Some (r, Y)" for a sc v c t r Y
    using that rw_kept_create_inner [of _ X E a sc v c t True]
    by (auto simp: exec_create_def or_fail_def rw_kept_def create_exit_def intro!: reads_le_kept dest: pair_rw_set
        split: prod.splits sum.splits)
  show ?thesis
    unfolding sys_create_def Let_def
    by (intro sys_grows_intros reads_le_refl)
      (auto intro!: sys_grows_intros intro: reads split: option.split prod.split Capture.split)
qed

lemma sys_grows_call: "sys_grows X (sys_call scheme (executor_handler E) rt X)"
proof -
  have reads: "reads_le X Y" if "exec_call E a t d g st ctx X = Some (r, Y)" for a t d g st ctx r Y
    using that rw_kept_call_inner [of X X E a t d g st True True ctx]
    by (auto simp: exec_call_def rw_kept_def intro!: reads_le_kept)
  have value_grows: "(\<And>v rt. sys_grows X (k v rt)) \<Longrightarrow>
      sys_grows X (case scheme of SchemeCall \<Rightarrow> sys_pop rt X k | SchemeCallCode \<Rightarrow> sys_pop rt X k | _ \<Rightarrow> k 0 rt)" for rt k
    by (auto intro: sys_grows_pop split: CallScheme.split)
  show ?thesis
    unfolding sys_call_def Let_def
    by (intro value_grows sys_grows_intros reads_le_refl)
      (auto intro!: sys_grows_intros intro: reads split: option.split prod.split Capture.split)
qed

lemma sys_grows_simple:
  "sys_grows X (sys_sha3 h rt X)" "sys_grows X (sys_chainid H rt X)" "sys_grows X (sys_address rt X)"
  "sys_grows X (sys_balance H rt X)" "sys_grows X (sys_selfbalance H rt X)" "sys_grows X (sys_origin H rt X)"
  "sys_grows X (sys_caller rt X)" "sys_grows X (sys_callvalue rt X)" "sys_grows X (sys_gasprice H rt X)"
  "sys_grows X (sys_base_fee H rt X)" "sys_grows X (sys_returndatasize rt X)" "sys_grows X (sys_returndatacopy rt X)"
  "sys_grows X (sys_blockhash H rt X)" "sys_grows X (sys_coinbase H rt X)" "sys_grows X (sys_timestamp H rt X)"
  "sys_grows X (sys_number H rt X)" "sys_grows X (sys_prevrandao H rt X)" "sys_grows X (sys_gaslimit H rt X)"
  "sys_grows X (sys_gas H rt X)"
  by (auto simp: sys_sha3_def sys_chainid_def sys_address_def sys_balance_def sys_selfbalance_def sys_origin_def
      sys_caller_def sys_callvalue_def sys_gasprice_def sys_base_fee_def sys_returndatasize_def sys_returndatacopy_def
      sys_blockhash_def sys_coinbase_def sys_timestamp_def sys_number_def sys_prevrandao_def sys_difficulty_def
      sys_gaslimit_def sys_gas_def intro!: sys_grows_intros split: option.split)

lemma sys_grows_handler:
  "sys_grows X (sys_extcodesize (executor_handler E) rt X)"
  "sys_grows X (sys_extcodehash (executor_handler E) rt X)"
  "sys_grows X (sys_extcodecopy (executor_handler E) rt X)"
  "sys_grows X (sys_sload m (executor_handler E) rt X)"
  "sys_grows X (sys_sstore (executor_handler E) rt X)"
  "sys_grows X (sys_log n (executor_handler E) rt X)"
  "sys_grows X (sys_suicide (executor_handler E) rt X)"
  by (auto simp: sys_extcodesize_def sys_extcodehash_def sys_extcodecopy_def sys_sload_def sys_sstore_def sys_log_def
      sys_suicide_def exec_storage_def exec_log_def Let_def
      intro!: sys_grows_intros reads_le_record_read reads_le_exec_set_storage intro: reads_le_kept split: prod.split sum.split)

lemma eval_system_reads: "sys_grows X (eval_system m h (executor_handler E) rt op X)"
proof (cases "map_of (system_table m h (executor_handler E)) op")
  case None
  then show ?thesis
    by (simp add: eval_system_def handle_other_def sys_grows_basic)
next
  case (Some f)
  then have "(op, f) \<in> set (system_table m h (executor_handler E))"
    by (rule map_of_SomeD)
  then have "sys_grows X (f rt X)"
    unfolding system_table_def
    by (auto simp: sys_grows_simple sys_grows_handler sys_grows_create sys_grows_call)
  then show ?thesis
    by (simp add: eval_system_def Some)
qed

section \<open>The same steps on the other backend\<close>

lemma opcode_gas_cost_swap:
  assumes "op \<noteq> 0x55 \<or> is_static"
  shows "opcode_gas_cost m (H\<lparr>h_storage := p, h_original_storage := q\<rparr>) a op st is_static cfg X
    = opcode_gas_cost m H a op st is_static cfg X"
  using assms by (auto simp: opcode_gas_cost_def target_cost_def exists_or_def)

lemma exec_storage_swap:
  assumes "simulating X" "agrees f g E Y" "reads_le (snd (exec_storage E a k X)) Y"
  shows "exec_storage (swap_storage f g E) a k X = exec_storage E a k X"
proof -
  have "read_recorded Y a k"
    using assms(1,3) by (simp add: exec_storage_def reads_le_def read_recorded_record_read Let_def)
  then show ?thesis
    using assms(2) by (simp add: agrees_def exec_storage_def state_storage_def Let_def split: option.split)
qed

lemma exec_original_storage_swap:
  assumes "simulating X" "agrees f g E Y" "reads_le (snd (exec_original_storage E a k X)) Y"
  shows "exec_original_storage (swap_storage f g E) a k X = exec_original_storage E a k X"
proof -
  have "read_recorded Y a k"
    using assms(1,3) by (simp add: exec_original_storage_def reads_le_def read_recorded_record_read Let_def)
  then show ?thesis
    using assms(2) by (simp add: agrees_def exec_original_storage_def state_original_storage_def Let_def split: option.split)
qed

lemma simulating_reads: "reads_le X Y \<Longrightarrow> simulating X \<Longrightarrow> simulating Y"
  by (simp add: reads_le_def)

lemma sstore_cost_swap:
  assumes "simulating X" "agrees f g E Y"
    and "opcode_gas_cost m (gas_handler E) a 0x55 st False cfg X = Some (r, Z)" "reads_le Z Y"
  shows "opcode_gas_cost m (gas_handler (swap_storage f g E)) a 0x55 st False cfg X = Some (r, Z)"
proof -
  let ?k = "\<lambda>index val original current cold s.
      Some (Inr (GasSStore original current val cold, TargetSlot a index), s) :: (Exec, GasCost \<times> StorageTarget) handler_result"
  have unf: "opcode_gas_cost m H a 0x55 st False cfg s0 = peek_or 0 st s0 (\<lambda>index. peek_or 1 st s0 (\<lambda>val.
      slot_or m (h_original_storage H a index) s0 (\<lambda>original s.
      slot_or m (h_storage H a index) s (\<lambda>current s.
      ask_or (h_is_cold H a (Some index)) s (?k index val original current)))))" for H s0
    by (simp add: opcode_gas_cost_def)
  show ?thesis
  proof (cases "Stack_peek 0 st"; cases "Stack_peek (Suc 0) st")
    fix index val
    assume peek: "Stack_peek 0 st = Inr index" "Stack_peek (Suc 0) st = Inr val"
    obtain v X1 where X1: "exec_original_storage E a index X = (Inr v, X1)"
      by (simp add: exec_original_storage_def Let_def)
    obtain w X2 where X2: "exec_storage E a index X1 = (Inr w, X2)"
      by (simp add: exec_storage_def Let_def)
    have Z: "Z = X2"
      using assms(3) by (simp add: unf peek_or_def peek slot_or_def X1 X2 ask_or_def exec_is_cold_def)
    have le: "reads_le X X1" "reads_le X1 X2"
      using reads_le_exec_original_storage [of X E a index] reads_le_exec_storage [of X1 E a index] X1 X2 by simp_all
    have "exec_original_storage (swap_storage f g E) a index X = (Inr v, X1)"
      using exec_original_storage_swap [OF assms(1,2), of a index] X1 le(2) assms(4) Z by (simp add: reads_le_trans [OF le(2)])
    moreover have "exec_storage (swap_storage f g E) a index X1 = (Inr w, X2)"
      using exec_storage_swap [OF simulating_reads [OF le(1) assms(1)] assms(2), of a index] X2 assms(4) Z by simp
    ultimately show ?thesis
      using assms(3) by (simp add: unf peek_or_def peek slot_or_def X1 X2 exec_swap)
  qed (use assms(3) in \<open>simp_all add: unf peek_or_def\<close>)
qed

lemma pre_validate_swap:
  assumes "simulating X" "agrees f g E Y" "pre_validate E ctx op st X = Some (r, Y)"
  shows "pre_validate (swap_storage f g E) ctx op st X = Some (r, Y)"
proof -
  let ?a = "ctx_address ctx" and ?s = "md_is_static (exec_md X)"
  have same: "opcode_gas_cost (env_mvcc E) (gas_handler (swap_storage f g E)) ?a op st ?s (env_config E) X
      = opcode_gas_cost (env_mvcc E) (gas_handler E) ?a op st ?s (env_config E) X"
    if none: "static_opcode_cost op = None"
  proof (cases "op \<noteq> 0x55 \<or> ?s")
    case True
    then show ?thesis
      by (simp add: gas_handler_swap opcode_gas_cost_swap)
  next
    case False
    then obtain r' Z where Z: "opcode_gas_cost (env_mvcc E) (gas_handler E) ?a op st ?s (env_config E) X = Some (r', Z)"
      using assms(3) none by (auto simp: pre_validate_def dynamic_opcode_cost_def split: option.splits)
    have "reads_le Z Y"
      using assms(3) none Z
      by (auto simp: pre_validate_def dynamic_opcode_cost_def split: option.splits sum.splits prod.splits)
    then show ?thesis
      using False Z sstore_cost_swap [OF assms(1,2), of "env_mvcc E" ?a st "env_config E" r' Z] by simp
  qed
  show ?thesis
  proof (cases "static_opcode_cost op")
    case None
    have "dynamic_opcode_cost (env_mvcc E) (gas_handler (swap_storage f g E)) ?a op st ?s (env_config E) X
        = dynamic_opcode_cost (env_mvcc E) (gas_handler E) ?a op st ?s (env_config E) X"
      by (simp add: dynamic_opcode_cost_def same [OF None])
    then show ?thesis
      using assms(3) by (simp add: pre_validate_def None)
  qed (use assms(3) in \<open>simp add: pre_validate_def\<close>)
qed

lemma sys_swap:
  fixes H :: "(Exec, 'i) RuntimeHandler"
  defines "H' p q \<equiv> H\<lparr>rh_storage := p, rh_pre_validate := q\<rparr>"
  shows "sys_chainid (H' p q) = sys_chainid H" "sys_balance (H' p q) = sys_balance H"
    "sys_selfbalance (H' p q) = sys_selfbalance H" "sys_origin (H' p q) = sys_origin H"
    "sys_gasprice (H' p q) = sys_gasprice H" "sys_base_fee (H' p q) = sys_base_fee H"
    "sys_extcodesize (H' p q) = sys_extcodesize H" "sys_extcodehash (H' p q) = sys_extcodehash H"
    "sys_extcodecopy (H' p q) = sys_extcodecopy H" "sys_blockhash (H' p q) = sys_blockhash H"
    "sys_coinbase (H' p q) = sys_coinbase H" "sys_timestamp (H' p q) = sys_timestamp H"
    "sys_number (H' p q) = sys_number H" "sys_prevrandao (H' p q) = sys_prevrandao H"
    "sys_gaslimit (H' p q) = sys_gaslimit H" "sys_sstore (H' p q) = sys_sstore H"
    "sys_gas (H' p q) = sys_gas H" "sys_log n (H' p q) = sys_log n H"
    "sys_suicide (H' p q) = sys_suicide H" "sys_create h b (H' p q) = sys_create h b H"
    "sys_call sc (H' p q) = sys_call sc H"
  by (simp_all add: H'_def fun_eq_iff sys_chainid_def sys_balance_def sys_selfbalance_def sys_origin_def sys_gasprice_def
      sys_base_fee_def sys_extcodesize_def sys_extcodehash_def sys_extcodecopy_def sys_blockhash_def sys_coinbase_def
      sys_timestamp_def sys_number_def sys_prevrandao_def sys_difficulty_def sys_gaslimit_def sys_sstore_def sys_gas_def
      sys_log_def sys_suicide_def sys_create_def sys_call_def Let_def cong del: option.case_cong_weak)

lemma system_table_swap:
  fixes H :: "(Exec, 'i) RuntimeHandler"
  shows "op \<noteq> 0x54 \<Longrightarrow> map_of (system_table m h (H\<lparr>rh_storage := p, rh_pre_validate := q\<rparr>)) op = map_of (system_table m h H) op"
  by (simp add: system_table_def sys_swap)

lemma sys_sload_swap:
  assumes "simulating X" "agrees f g E Y"
    and "sys_sload m (executor_handler E) rt X = Some (rt', Z, c)" "reads_le Z Y"
  shows "sys_sload m (executor_handler (swap_storage f g E)) rt X = Some (rt', Z, c)"
proof (cases "Stack_pop (runtime_stack rt)")
  case (Inr p)
  then obtain k stk where p: "Stack_pop (runtime_stack rt) = Inr (k, stk)" by (cases p) simp
  let ?a = "ctx_address (rt_context (set_stack stk rt))"
  obtain v X1 where X1: "exec_storage E ?a k X = (Inr v, X1)"
    by (simp add: exec_storage_def Let_def)
  then have "Z = X1"
    using assms(3) by (auto simp: sys_sload_def sys_pop_def p sys_push_def sys_exit_def split: sum.splits)
  then have "exec_storage (swap_storage f g E) ?a k X = (Inr v, X1)"
    using exec_storage_swap [OF assms(1,2), of ?a k] X1 assms(4) by simp
  then show ?thesis
    using assms(3) X1 by (simp add: sys_sload_def sys_pop_def p)
qed (use assms(3) in \<open>simp add: sys_sload_def sys_pop_def\<close>)

lemma eval_system_swap:
  assumes "simulating X" "agrees f g E Y"
    and "eval_system m h (executor_handler E) rt op X = Some (rt', Z, c)" "reads_le Z Y"
  shows "eval_system m h (executor_handler (swap_storage f g E)) rt op X = Some (rt', Z, c)"
proof (cases "op = 0x54")
  case True
  have "eval_system m h H rt 0x54 X = sys_sload m H rt X" for H :: "(Exec, TaggedRuntime) RuntimeHandler"
    by (simp add: eval_system_def system_table_def)
  then show ?thesis
    using assms sys_sload_swap [of X f g E Y m rt rt' Z c] True by simp
next
  case False
  then show ?thesis
    using assms(3) by (simp add: eval_system_def executor_handler_swap system_table_swap)
qed

lemma pre_validate_step_reads:
  "runtime_pre_validate (executor_handler E) rt X = Some (rt', Y) \<Longrightarrow> reads_le X Y"
  by (auto simp: runtime_pre_validate_def dest: pre_validate_reads split: option.splits prod.splits sum.splits)

lemma runtime_trap_reads:
  "runtime_trap m h (executor_handler E) op rt X = Some (rt', Y, c) \<Longrightarrow> reads_le X Y"
  using eval_system_reads [of X m h E rt op]
  by (auto simp: runtime_trap_def sys_grows_def split: option.splits prod.splits RuntimeControl.splits)

lemma runtime_step_reads:
  assumes "runtime_step m h (executor_handler E) rt X = Some (rt', Y, c)"
  shows "reads_le X Y"
  using assms
  by (auto simp: runtime_step_def split: option.splits prod.splits sum.splits Capture.splits
      dest!: pre_validate_step_reads runtime_trap_reads intro: reads_le_trans)

lemma runtime_trap_swap:
  assumes "simulating X" "agrees f g E Y" "runtime_trap m h (executor_handler E) op rt X = Some (rt', Y, c)"
  shows "runtime_trap m h (executor_handler (swap_storage f g E)) op rt X = Some (rt', Y, c)"
proof -
  obtain rt1 Z d where ev: "eval_system m h (executor_handler E) rt op X = Some (rt1, Z, d)"
    using assms(3) by (auto simp: runtime_trap_def split: option.splits)
  then have "Z = Y"
    using assms(3) by (auto simp: runtime_trap_def split: RuntimeControl.splits)
  then show ?thesis
    using assms(3) ev eval_system_swap [OF assms(1,2) ev] by (simp add: runtime_trap_def)
qed

lemma runtime_pre_validate_swap:
  assumes "simulating X" "agrees f g E Y" "runtime_pre_validate (executor_handler E) rt X = Some (rt', Y)"
  shows "runtime_pre_validate (executor_handler (swap_storage f g E)) rt X = Some (rt', Y)"
proof (cases "inspect (rt_machine rt)")
  case (Some p)
  then obtain op st where p: "inspect (rt_machine rt) = Some (op, st)" by (cases p) simp
  then obtain r where r: "pre_validate E (rt_context rt) op st X = Some (r, Y)"
    using assms(3) by (auto simp: runtime_pre_validate_def split: option.splits sum.splits)
  then show ?thesis
    using assms(3) pre_validate_swap [OF assms(1,2) r] by (simp add: runtime_pre_validate_def p)
qed (use assms(3) in \<open>simp add: runtime_pre_validate_def\<close>)

lemma runtime_step_swap:
  assumes "simulating X" "agrees f g E Y" "runtime_step m h (executor_handler E) rt X = Some (rt', Y, c)"
  shows "runtime_step m h (executor_handler (swap_storage f g E)) rt X = Some (rt', Y, c)"
proof -
  obtain rt1 X1 where pv: "runtime_pre_validate (executor_handler E) rt X = Some (rt1, X1)"
    using assms(3) by (auto simp: runtime_step_def split: option.splits)
  have le: "reads_le X1 Y"
    using assms(3) pv runtime_trap_reads
    by (fastforce simp: runtime_step_def split: option.splits prod.splits sum.splits Capture.splits)
  have sim: "simulating X1"
    using simulating_reads [OF pre_validate_step_reads [OF pv] assms(1)] .
  have pv': "runtime_pre_validate (executor_handler (swap_storage f g E)) rt X = Some (rt1, X1)"
    using runtime_pre_validate_swap [OF assms(1) agrees_mono [OF le assms(2)] pv] .
  show ?thesis
    using assms(3) pv pv' runtime_trap_swap [OF sim assms(2)]
    by (auto simp: runtime_step_def split: option.splits prod.splits sum.splits Capture.splits)
qed

lemma runtime_run_reads:
  "runtime_run m h (executor_handler E) fuel rt X = Some (rt', Y, c) \<Longrightarrow> reads_le X Y"
proof (induction fuel arbitrary: rt X)
  case (Suc fuel)
  then show ?case
    by (auto split: option.splits prod.splits sum.splits dest!: runtime_step_reads intro: reads_le_trans)
qed simp

lemma runtime_run_swap:
  assumes "simulating X" "agrees f g E Y" "runtime_run m h (executor_handler E) fuel rt X = Some (rt', Y, c)"
  shows "runtime_run m h (executor_handler (swap_storage f g E)) fuel rt X = Some (rt', Y, c)"
  using assms(1,3)
proof (induction fuel arbitrary: rt X)
  case (Suc fuel)
  obtain rt1 X1 d where st: "runtime_step m h (executor_handler E) rt X = Some (rt1, X1, d)"
    using Suc.prems(2) by (auto split: option.splits)
  have le: "reads_le X1 Y"
    using Suc.prems(2) st runtime_run_reads by (fastforce split: sum.splits)
  have "runtime_step m h (executor_handler (swap_storage f g E)) rt X = Some (rt1, X1, d)"
    using runtime_step_swap [OF Suc.prems(1) agrees_mono [OF le assms(2)] st] .
  moreover have "simulating X1"
    using simulating_reads [OF runtime_step_reads [OF st] Suc.prems(1)] .
  ultimately show ?case
    using Suc st by (auto split: sum.splits)
qed simp

section \<open>Whole transactions\<close>

lemma rw_kept_reads: "rw_kept X (Some (c, Y)) \<Longrightarrow> reads_le X Y"
  by (simp add: rw_kept_def reads_le_kept)

lemma cleanup_reads: "cleanup_runtime E kind reason rt X = Some (res, Y) \<Longrightarrow> reads_le X Y"
  using rw_kept_cleanup [of X X E kind reason rt] by (simp add: rw_kept_reads)

lemma execute_reads:
  "execute_with_call_stack E fuel cs X = Some (Y, res) \<Longrightarrow> reads_le X Y"
proof (induction fuel arbitrary: cs X)
  case (Suc fuel)
  show ?case
  proof (cases cs)
    case (Cons tg cs')
    obtain rt X1 c where run: "runtime_run (env_mvcc E) (env_keccak256 E) (executor_handler E) fuel (tg_inner tg) X = Some (rt, X1, c)"
      using Suc.prems Cons by (auto split: option.splits)
    have "reads_le X1 Y"
      using Suc.prems Cons run
      by (auto split: option.splits Capture.splits Resolve.splits prod.splits list.splits sum.splits
          dest: Suc.IH cleanup_reads intro: reads_le_trans)
    with runtime_run_reads [OF run] show ?thesis by (rule reads_le_trans)
  qed (use Suc.prems in simp)
qed simp

lemma execute_swap:
  assumes "simulating X" "agrees f g E Y" "execute_with_call_stack E fuel cs X = Some (Y, res)"
  shows "execute_with_call_stack (swap_storage f g E) fuel cs X = Some (Y, res)"
  using assms(1,3)
proof (induction fuel arbitrary: cs X)
  case (Suc fuel)
  let ?E' = "swap_storage f g E"
  show ?case
  proof (cases cs)
    case (Cons tg cs')
    obtain rt X1 c where run: "runtime_run (env_mvcc E) (env_keccak256 E) (executor_handler E) fuel (tg_inner tg) X = Some (rt, X1, c)"
      using Suc.prems Cons by (auto split: option.splits)
    have sim: "simulating X1"
      using simulating_reads [OF runtime_run_reads [OF run] Suc.prems(1)] .
    have le: "reads_le X1 Y"
      using Suc.prems(2) Cons run
      by (auto split: option.splits Capture.splits Resolve.splits prod.splits list.splits sum.splits
          dest: execute_reads cleanup_reads intro: reads_le_trans)
    have run': "runtime_run (env_mvcc E) (env_keccak256 E) (executor_handler ?E') fuel (tg_inner tg) X = Some (rt, X1, c)"
      using runtime_run_swap [OF Suc.prems(1) agrees_mono [OF le assms(2)] run] .
    show ?thesis
      using Suc.prems(2) Cons run run' sim simulating_reads [OF cleanup_reads sim]
      by (auto simp: call_create_swap Suc.IH split: option.splits Capture.splits Resolve.splits prod.splits list.splits sum.splits)
  qed (use Suc.prems in simp)
qed simp

lemma run_interrupt_swap:
  assumes "simulating X" "agrees f g E Y" "run_interrupt E fuel tg X = Some (Y, res)"
  shows "run_interrupt (swap_storage f g E) fuel tg X = Some (Y, res)"
  using assms(3) execute_swap [OF assms(1,2)] by (auto simp: run_interrupt_def)

end
