(* ===== verification/Evm_Simulation.thy ===== *)
theory Evm_Simulation
  imports Evm_Replay Chase_Core
begin

text \<open>
  The simulation of a transaction on a snapshot of the storage (\<open>simulate_tx\<close> in
  \<open>crates/sslab-execution/chase/src/evm_utils.rs\<close>), with the storage and its executor
  (\<open>crates/sslab-execution/evm/src/evm_storage/evm_storage.rs\<close>), the chain configuration (\<open>types.rs\<close>) and the
  classification of the exit reasons (\<open>EvmExecutionUtils\<close> in \<open>executor.rs\<close>).
\<close>

section \<open>Chain configuration\<close>

datatype SpecId =
    FRONTIER | FRONTIER_THAWING | HOMESTEAD | DAO_FORK | TANGERINE | SPURIOUS_DRAGON | BYZANTIUM | CONSTANTINOPLE
  | PETERSBURG | ISTANBUL | MUIR_GLACIER | BERLIN | LONDON | ARROW_GLACIER | GRAY_GLACIER | MERGE | SHANGHAI | CANCUN
  | LATEST

definition spec_ids :: "(u8 \<times> SpecId) list" where
  "spec_ids =
     [(0, FRONTIER), (1, FRONTIER_THAWING), (2, HOMESTEAD), (3, DAO_FORK), (4, TANGERINE), (5, SPURIOUS_DRAGON),
      (6, BYZANTIUM), (7, CONSTANTINOPLE), (8, PETERSBURG), (9, ISTANBUL), (10, MUIR_GLACIER), (11, BERLIN), (12, LONDON),
      (13, ARROW_GLACIER), (14, GRAY_GLACIER), (15, MERGE), (16, SHANGHAI), (17, CANCUN), (18, LATEST)]"

definition try_from_u8 :: "u8 \<Rightarrow> SpecId option" where
  "try_from_u8 spec_id = map_of spec_ids spec_id"

definition ChainConfig_new :: "SpecId \<Rightarrow> Config option" where
  "ChainConfig_new chain_id = (case chain_id of
     FRONTIER \<Rightarrow> Some frontier
   | ISTANBUL \<Rightarrow> Some istanbul
   | BERLIN \<Rightarrow> Some berlin
   | LONDON \<Rightarrow> Some london
   | MERGE \<Rightarrow> Some merge_fork
   | SHANGHAI \<Rightarrow> Some shanghai
   | LATEST \<Rightarrow> Some shanghai
   | _ \<Rightarrow> None)"

section \<open>EvmStorage\<close>

record EvmStorage =
  evs_backend :: Backend
  evs_precompiles :: PrecompileSet
  evs_config :: Config

definition EvmStorage_new :: "u64 \<Rightarrow> Backend \<Rightarrow> PrecompileSet \<Rightarrow> EvmStorage option" where
  "EvmStorage_new chain B precompiles =
     Option.bind (try_from_u8 (ucast chain)) (\<lambda>spec.
       map_option (\<lambda>config. \<lparr>evs_backend = B, evs_precompiles = precompiles, evs_config = config\<rparr>) (ChainConfig_new spec))"

definition storage_executor :: "EvmStorage \<Rightarrow> u64 \<Rightarrow> bool \<Rightarrow> Exec" where
  "storage_executor st limit simulation =
     new_with_precompiles (MemoryStackSubstate_new (StackSubstateMetadata_new limit (evs_config st))) simulation"

text \<open>The Keccak-256 hash, the RLP encoding of an address and a nonce, and the feature \<open>mvcc\<close> of the build.\<close>

record Hashing =
  hs_keccak256 :: "u8 list \<Rightarrow> h256"
  hs_rlp :: "h160 \<Rightarrow> u256 \<Rightarrow> u8 list"
  hs_mvcc :: bool

definition storage_env :: "Hashing \<Rightarrow> EvmStorage \<Rightarrow> Env" where
  "storage_env hs st =
     \<lparr>env_config = evs_config st, env_backend = evs_backend st, env_precompiles = evs_precompiles st,
      env_keccak256 = hs_keccak256 hs, env_rlp = hs_rlp hs, env_mvcc = hs_mvcc hs\<rparr>"

section \<open>Exit reasons\<close>

definition process_transact_call_result :: "ExitReason \<Rightarrow> string + bool" where
  "process_transact_call_result reason = (case reason of
     Succeed _ \<Rightarrow> Inr False
   | Revert e \<Rightarrow> Inr True
   | Error e \<Rightarrow> Inr True
   | Fatal e \<Rightarrow> Inl ''Fatal error occurred on EVM!'')"

definition process_transact_create_result :: "ExitReason \<Rightarrow> string + bool" where
  "process_transact_create_result reason = (case reason of
     Succeed _ \<Rightarrow> Inr False
   | Revert e \<Rightarrow> Inr True
   | Error e \<Rightarrow> Inr True
   | Fatal e \<Rightarrow> Inl ''Fatal error occurred on EVM!'')"

section \<open>simulate_tx\<close>

text \<open>\<open>None\<close> is a panic, \<open>Some None\<close> an execution that has used up its fuel.\<close>

type_synonym simulated = "(string, Apply list \<times> Log list \<times> RwSet) sim_result"

definition simulated_result :: "EvmStorage \<Rightarrow> (ExitReason \<Rightarrow> string + bool) \<Rightarrow> transact_result \<Rightarrow> simulated option option" where
  "simulated_result st process res = (case res of
     None \<Rightarrow> None
   | Some (X, None) \<Rightarrow> Some None
   | Some (X, Some (reason, _)) \<Rightarrow> (case process reason of
       Inl e \<Rightarrow> Some (Some (Sim_Err e))
     | Inr True \<Rightarrow> Some (Some (Sim_Ok None))
     | Inr False \<Rightarrow>
         Option.bind (ex_rw_set X) (\<lambda>rw.
           Option.bind (deconstruct (evs_backend st) (ex_state X)) (\<lambda>(effect, lg).
             Some (Some (Sim_Ok (Some (effect, lg, rw))))))))"

definition simulate_tx :: "Hashing \<Rightarrow> nat \<Rightarrow> EvmStorage \<Rightarrow> EthereumTransaction \<Rightarrow> simulated option option" where
  "simulate_tx hs fuel st tx =
     Option.bind (gas_limit tx) (\<lambda>limit.
       let E = storage_env hs st; X = storage_executor st limit True
       in case tt_to tx of
           Some to_addr \<Rightarrow>
             Option.bind (tx_caller tx) (\<lambda>caller. Option.bind (tx_value tx) (\<lambda>v. Option.bind (tt_data tx) (\<lambda>d.
               simulated_result st process_transact_call_result
                 (transact_call E fuel caller to_addr v d limit (tx_access_list tx) X))))
         | None \<Rightarrow> (case tt_data tx of
             Some init_code \<Rightarrow>
               Option.bind (tx_caller tx) (\<lambda>caller. Option.bind (tx_value tx) (\<lambda>v.
                 simulated_result st process_transact_create_result
                   (transact_create E fuel caller v init_code limit (tx_access_list tx) X)))
           | None \<Rightarrow>
               Option.bind (tx_caller tx) (\<lambda>caller. Option.bind (tx_value tx) (\<lambda>v. Option.bind (tt_nonce tx) (\<lambda>n.
                 Some (Some (Sim_Ok (Some
                   ([Modify caller \<lparr>balance = v, nonce = n\<rparr> None [] False],
                    [\<lparr>log_address = caller, log_topics = [], log_data = []\<rparr>], RwSet_new)))))))))"

section \<open>Transactions on another backend\<close>

text \<open>Two transactions that differ at most in how they run the interrupt of their outermost call.\<close>

definition same_or_run :: "Exec \<Rightarrow> (TaggedRuntime \<Rightarrow> Exec \<Rightarrow> transact_result) \<Rightarrow> (TaggedRuntime \<Rightarrow> Exec \<Rightarrow> transact_result)
    \<Rightarrow> transact_result \<Rightarrow> transact_result \<Rightarrow> bool" where
  "same_or_run X R R' res res' \<longleftrightarrow>
     res' = res \<or> (\<exists>tg Y. ex_rw_set Y = ex_rw_set X \<and> res = R tg Y \<and> res' = R' tg Y)"

lemma same_or_run_refl: "same_or_run X R R' res res"
  by (simp add: same_or_run_def)

lemma same_or_run_or_fail:
  assumes "ex_rw_set (snd p) = ex_rw_set X"
    and "\<And>v Y. ex_rw_set Y = ex_rw_set X \<Longrightarrow> same_or_run X R R' (k v Y) (k' v Y)"
  shows "same_or_run X R R' (or_fail p err k) (or_fail p err k')"
  using assms by (cases p) (auto simp: or_fail_def same_or_run_refl split: sum.split)

lemma transact_call_same_or_run:
  "same_or_run X (run_interrupt E fuel) (run_interrupt (swap_storage f g E) fuel)
     (transact_call E fuel caller a v d limit al X) (transact_call (swap_storage f g E) fuel caller a v d limit al X)"
proof -
  have "same_or_run X (run_interrupt E fuel) (run_interrupt (swap_storage f g E) fuel)
     (case call_inner E a t d l False False False ctx Y of
        None \<Rightarrow> None
      | Some (CaptureExit (s, v), X) \<Rightarrow> transact_exit s v X
      | Some (CaptureTrap rt, X) \<Rightarrow> run_interrupt E fuel rt X)
     (case call_inner E a t d l False False False ctx Y of
        None \<Rightarrow> None
      | Some (CaptureExit (s, v), X) \<Rightarrow> transact_exit s v X
      | Some (CaptureTrap rt, X) \<Rightarrow> run_interrupt (swap_storage f g E) fuel rt X)"
    if "ex_rw_set Y = ex_rw_set X" for t l ctx Y
    using rw_kept_call_inner [OF that, of E a t d l False False False ctx]
    by (auto simp: rw_kept_def same_or_run_def split: option.split Capture.split)
  then show ?thesis
    unfolding transact_call_def Let_def exec_swap call_create_swap env_swap substate_swap
    by (intro same_or_run_or_fail) (simp_all del: env_swap)
qed

lemma transact_create_same_or_run:
  "same_or_run X (run_interrupt E fuel) (run_interrupt (swap_storage f g E) fuel)
     (transact_create E fuel caller v c limit al X) (transact_create (swap_storage f g E) fuel caller v c limit al X)"
proof -
  have "same_or_run X (run_interrupt E fuel) (run_interrupt (swap_storage f g E) fuel)
     (finish_create_transaction E fuel (create_inner E caller sc v c l False Y))
     (finish_create_transaction (swap_storage f g E) fuel (create_inner E caller sc v c l False Y))"
    if "ex_rw_set Y = ex_rw_set X" for sc l Y
    using rw_kept_create_inner [OF that, of E caller sc v c l False]
    by (auto simp: rw_kept_def finish_create_transaction_def same_or_run_def split: option.split Capture.split)
  then show ?thesis
    by (auto simp: transact_create_def exec_swap call_create_swap Let_def record_create_transaction_cost_def
        same_or_run_refl intro!: same_or_run_or_fail)
qed

lemma transact_swap:
  assumes "same_or_run X (run_interrupt E fuel) (run_interrupt (swap_storage f g E) fuel) res res'"
    and "simulating X" "res = Some (Y, r)" "agrees f g E Y"
  shows "res' = Some (Y, r)"
  using assms run_interrupt_swap [of _ f g E Y fuel _ r] by (auto simp: same_or_run_def simulating_def)

section \<open>Replay\<close>

definition same_accounts :: "accounts \<Rightarrow> accounts \<Rightarrow> bool" where
  "same_accounts A A' \<longleftrightarrow> (\<forall>a. (A' a = None \<longleftrightarrow> A a = None) \<and> backend_basic A' a = backend_basic A a
     \<and> backend_code A' a = backend_code A a)"

definition slot_read :: "RwSet \<Rightarrow> h160 \<Rightarrow> h256 \<Rightarrow> bool" where
  "slot_read rw a k = (case map_of (read_set rw) a of Some m \<Rightarrow> map_of m k \<noteq> None | None \<Rightarrow> False)"

lemma storage_env_swap:
  assumes "same_accounts A A'"
  shows "storage_env hs (st\<lparr>evs_backend := backend_of v A'\<rparr>) =
    swap_storage (backend_storage A') (\<lambda>a k. Some (backend_storage A' a k)) (storage_env hs (st\<lparr>evs_backend := backend_of v A\<rparr>))"
  using assms by (auto simp: storage_env_def swap_storage_def backend_of_def same_accounts_def fun_eq_iff)

lemma deconstruct_same_accounts:
  assumes "same_accounts A A'"
  shows "deconstruct (backend_of v A') s = deconstruct (backend_of v A) s"
proof -
  have "backend_of v A' = (backend_of v A)\<lparr>b_storage := backend_storage A', b_original_storage := \<lambda>a k. Some (backend_storage A' a k)\<rparr>"
    using assms by (auto simp: backend_of_def same_accounts_def fun_eq_iff)
  then show ?thesis by (simp add: deconstruct_swap)
qed

lemma simulated_result_Some:
  "simulated_result st process res = Some (Some (Sim_Ok (Some (effect, lg, rw)))) \<longleftrightarrow>
     (\<exists>X reason out. res = Some (X, Some (reason, out)) \<and> process reason = Inr False \<and> ex_rw_set X = Some rw
        \<and> deconstruct (evs_backend st) (ex_state X) = Some (effect, lg))"
  by (auto simp: simulated_result_def bind_eq_Some_conv split: option.splits sum.splits bool.splits)

lemma simulated_result_swap:
  assumes "same_accounts A A'" "\<And>a k. slot_read rw a k \<Longrightarrow> backend_storage A' a k = backend_storage A a k"
    and "same_or_run X (run_interrupt E fuel)
       (run_interrupt (swap_storage (backend_storage A') (\<lambda>a k. Some (backend_storage A' a k)) E) fuel) res res'"
    and "env_backend E = backend_of v A" "simulating X"
    and "simulated_result (st\<lparr>evs_backend := backend_of v A\<rparr>) process res = Some (Some (Sim_Ok (Some (effect, lg, rw))))"
  shows "simulated_result (st\<lparr>evs_backend := backend_of v A'\<rparr>) process res' = Some (Some (Sim_Ok (Some (effect, lg, rw))))"
proof -
  obtain Y reason out where Y: "res = Some (Y, Some (reason, out))" "process reason = Inr False" "ex_rw_set Y = Some rw"
    "deconstruct (backend_of v A) (ex_state Y) = Some (effect, lg)"
    using assms(6) unfolding simulated_result_Some by auto
  have "agrees (backend_storage A') (\<lambda>a k. Some (backend_storage A' a k)) E Y"
    using assms(2,4) Y(3) by (simp add: agrees_def read_recorded_def slot_read_def backend_of_def)
  from transact_swap [OF assms(3,5) Y(1) this] show ?thesis
    unfolding simulated_result_Some using Y deconstruct_same_accounts [OF assms(1)] by auto
qed

text \<open>C2: a simulation depends on the storage only through its read set.  If a simulation succeeds, then on any
  other state that has the same accounts, with the same balances, nonces and code, and the same value in every slot of
  the recorded read set, it succeeds again with the same effects, the same logs and the same read and write sets.\<close>

theorem simulation_replay:
  assumes "simulate_tx hs fuel (st\<lparr>evs_backend := backend_of v A\<rparr>) tx = Some (Some (Sim_Ok (Some (effect, lg, rw))))"
    and "same_accounts A A'" "\<And>a k. slot_read rw a k \<Longrightarrow> backend_storage A' a k = backend_storage A a k"
  shows "simulate_tx hs fuel (st\<lparr>evs_backend := backend_of v A'\<rparr>) tx = Some (Some (Sim_Ok (Some (effect, lg, rw))))"
proof -
  let ?E = "storage_env hs (st\<lparr>evs_backend := backend_of v A\<rparr>)"
  obtain limit where limit: "gas_limit tx = Some limit"
    using assms(1) by (auto simp: simulate_tx_def bind_eq_Some_conv)
  let ?X = "storage_executor st limit True"
  have X: "storage_executor (st\<lparr>evs_backend := B\<rparr>) limit True = ?X" for B
    by (simp add: storage_executor_def)
  have sim: "simulating ?X"
    by (simp add: storage_executor_def new_with_precompiles_def simulating_def)
  have E: "env_backend ?E = backend_of v A"
    by (simp add: storage_env_def)
  note replay = simulated_result_swap [OF assms(2,3) _ E sim]
  show ?thesis
    using assms(1) replay [OF _ transact_call_same_or_run] replay [OF _ transact_create_same_or_run]
    by (auto simp: simulate_tx_def limit X storage_env_swap [OF assms(2)] bind_eq_Some_conv Let_def split: option.splits)
qed

definition sample_config :: Config where
  "sample_config =
     \<lparr>cfg_gas_ext_code = 700, cfg_gas_ext_code_hash = 700, cfg_gas_sstore_set = 20000, cfg_gas_sstore_reset =
      5000, cfg_refund_sstore_clears = 15000, cfg_max_refund_quotient = 2, cfg_gas_balance = 700,
      cfg_gas_sload = 800, cfg_gas_sload_cold = 0, cfg_gas_suicide = 5000, cfg_gas_suicide_new_account =
      25000, cfg_gas_call = 700, cfg_gas_expbyte = 50, cfg_gas_transaction_create = 53000,
      cfg_gas_transaction_call = 21000, cfg_gas_transaction_zero_data = 4, cfg_gas_transaction_non_zero_data =
      16, cfg_gas_access_list_address = 0, cfg_gas_access_list_storage_key = 0, cfg_gas_account_access_cold =
      0, cfg_gas_storage_read_warm = 0, cfg_sstore_gas_metering = True, cfg_sstore_revert_under_stipend =
      True, cfg_increase_state_access_gas = False, cfg_decrease_clears_refund = False,
      cfg_disallow_executable_format = False, cfg_warm_coinbase_address = False, cfg_err_on_call_with_more_gas
      = False, cfg_call_l64_after_gas = True, cfg_empty_considered_exists = False, cfg_create_increase_nonce =
      True, cfg_stack_limit = 16, cfg_memory_limit = 256, cfg_call_stack_limit = 8,
      cfg_create_contract_limit = None, cfg_max_initcode_size = None, cfg_call_stipend = 2300,
      cfg_has_delegate_call = True, cfg_has_create2 = True, cfg_has_revert = True, cfg_has_return_data = True,
      cfg_has_bitwise_shifting = True, cfg_has_chain_id = True, cfg_has_self_balance = True,
      cfg_has_ext_code_hash = True, cfg_has_base_fee = False, cfg_has_push0 = False, cfg_estimate = False\<rparr>"

definition sample_hashing :: Hashing where
  "sample_hashing = \<lparr>hs_keccak256 = (\<lambda>_. 0), hs_rlp = (\<lambda>_ _. []), hs_mvcc = False\<rparr>"

definition replay_vicinity :: MemoryVicinity where
  "replay_vicinity =
     \<lparr>vic_gas_price = 0, vic_origin = 0, vic_chain_id = 1, vic_block_hashes = [], vic_block_number = 0, vic_block_coinbase = 0,
      vic_block_timestamp = 0, vic_block_difficulty = 0, vic_block_gas_limit = 0, vic_block_base_fee_per_gas = 0,
      vic_block_randomness = None\<rparr>"

text \<open>A contract that copies its slot 2 to its slot 3.\<close>

definition replay_accounts :: "(h256 \<rightharpoonup> h256) \<Rightarrow> accounts" where
  "replay_accounts slots =
     [16 \<mapsto> \<lparr>acc_nonce = 1, acc_balance = 0, acc_storage = slots, acc_code = [0x60, 2, 0x54, 0x60, 3, 0x55, 0x00]\<rparr>]"

definition sample_storage :: EvmStorage where
  "sample_storage = \<lparr>evs_backend = backend_of replay_vicinity Map.empty, evs_precompiles = [], evs_config = sample_config\<rparr>"

definition replay_tx :: EthereumTransaction where
  "replay_tx = \<lparr>tt_sighash = 0, tt_from = Some 1, tt_to = Some 16, tt_value = Some 0, tt_data = Some [], tt_gas = Some 100000,
     tt_nonce = Some 0, tt_access_list = None\<rparr>"

lemma replay_run:
  "simulate_tx sample_hashing 20 (sample_storage\<lparr>evs_backend := backend_of replay_vicinity (replay_accounts [2 \<mapsto> 7])\<rparr>) replay_tx
   = Some (Some (Sim_Ok (Some
       ([Modify 1 \<lparr>balance = 0, nonce = 1\<rparr> None [] False, Modify 16 \<lparr>balance = 0, nonce = 1\<rparr> None [(3, 7)] False],
        [], \<lparr>read_set = [(16, [(2, 7), (3, 0)])], write_set = [(16, [(3, 7)])]\<rparr>))))"
  by code_simp

theorem simulation_replay_witness:
  "simulate_tx sample_hashing 20
     (sample_storage\<lparr>evs_backend := backend_of replay_vicinity (replay_accounts [2 \<mapsto> 7, 9 \<mapsto> 1])\<rparr>) replay_tx
   = Some (Some (Sim_Ok (Some
       ([Modify 1 \<lparr>balance = 0, nonce = 1\<rparr> None [] False, Modify 16 \<lparr>balance = 0, nonce = 1\<rparr> None [(3, 7)] False],
        [], \<lparr>read_set = [(16, [(2, 7), (3, 0)])], write_set = [(16, [(3, 7)])]\<rparr>))))"
proof (rule simulation_replay [OF replay_run])
  show "same_accounts (replay_accounts [2 \<mapsto> 7]) (replay_accounts [2 \<mapsto> 7, 9 \<mapsto> 1])"
    by (auto simp: same_accounts_def replay_accounts_def backend_basic_def backend_code_def)
  show "backend_storage (replay_accounts [2 \<mapsto> 7, 9 \<mapsto> 1]) a k = backend_storage (replay_accounts [2 \<mapsto> 7]) a k"
    if "slot_read \<lparr>read_set = [(16, [(2, 7), (3, 0)])], write_set = [(16, [(3, 7)])]\<rparr> a k" for a k
    using that by (auto simp: slot_read_def replay_accounts_def backend_storage_def split: if_splits)
qed

end
