(* ===== verification/Evm_Gas_Props.thy ===== *)
theory Evm_Gas_Props
  imports Evm_Gasometer
begin

text \<open>
  Properties of gas metering: the closed formulas behind the cost functions, bounds on the cost of every
  opcode, and the invariant of the gasometer under which no counter wraps around.
\<close>

section \<open>Words\<close>

lemma pow_64_256: "(2 :: int) ^ 64 < 2 ^ 256"
  by simp

lemma uint_u64: "0 \<le> uint (x :: u64)" "uint (x :: u64) < 2 ^ 64"
  using uint_lt2p [of x] by simp_all

lemma unat_of_nat_u64: "m < 2 ^ 64 \<Longrightarrow> unat (of_nat m :: u64) = m"
  by (simp add: unat_of_nat)

lemma uint_word_of_int_u64: "0 \<le> k \<Longrightarrow> k < 2 ^ 64 \<Longrightarrow> uint (word_of_int k :: u64) = k"
  by (simp add: uint_word_of_int)

lemma uint_add_u64: "uint (x :: u64) + uint y < 2 ^ 64 \<Longrightarrow> uint (x + y) = uint x + uint y"
  using uint_add_lem [of x y] by simp

lemma uint_sub_u64: "uint (y :: u64) \<le> uint x \<Longrightarrow> uint (x - y) = uint x - uint y"
  using uint_sub_lem [of y x] by simp

lemma uint_ucast_u64 [simp]: "uint (ucast (x :: u64) :: u256) = uint x"
  by (simp add: unsigned_ucast_eq take_bit_int_eq_self_iff) (use uint_u64 [of x] in simp)

lemma uint_ucast_back: "uint (v :: u256) < 2 ^ 64 \<Longrightarrow> uint (ucast v :: u64) = uint v"
  by (simp add: unsigned_ucast_eq take_bit_int_eq_self_iff)

lemma uint_div_32: "uint (len div 32 :: u256) = uint len div 32"
  by (simp add: uint_div_distrib)

lemma uint_mod_32: "uint (len mod 32 :: u256) = uint len mod 32"
  by (simp add: uint_mod_distrib)

text \<open>Rounding up to 32-byte words.\<close>

lemma ceil_div_32: "(k + 31) div 32 = (if k mod 32 = 0 then k div 32 else k div 32 + (1 :: int))"
proof -
  define q where "q = k div 32"
  define m where "m = k mod 32"
  have k: "k = 32 * q + m" and m: "0 \<le> m" "m < 32" by (simp_all add: q_def m_def)
  show ?thesis
  proof (cases "m = 0")
    case True
    then have "(k + 31) div 32 = q" using k by (intro int_div_pos_eq [where r = 31]) simp_all
    then show ?thesis using True by (simp add: q_def m_def)
  next
    case False
    then have "(k + 31) div 32 = q + 1" using k m by (intro int_div_pos_eq [where r = "m - 1"]) auto
    then show ?thesis using False by (simp add: q_def m_def)
  qed
qed

lemma word_count_uint: "uint (word_count len) = (uint len + 31) div 32"
proof -
  have lt: "uint len div 32 + 1 < 2 ^ 256"
  proof -
    have "uint len div 32 \<le> uint len div 1" using uint_lt_256 [of len] by (intro zdiv_mono2) auto
    moreover have "uint len div 32 \<le> 2 ^ 256 div 32" using uint_lt_256 [of len] by (intro zdiv_mono1) auto
    ultimately show ?thesis by simp
  qed
  have z: "len mod 32 = 0 \<longleftrightarrow> uint len mod 32 = 0" using uint_mod_32 [of len] by (metis unsigned_eq_0_iff)
  have s: "uint (len div 32 + 1) = uint len div 32 + 1"
    using uint_add_lem [of "len div 32" 1] lt uint_div_32 [of len] by simp
  show ?thesis using z s uint_div_32 [of len] ceil_div_32 [of "uint len"] by (simp add: word_count_def Let_def)
qed

lemma ok_or_out_of_gas_Inr: "ok_or_out_of_gas r k = Inr g \<longleftrightarrow> (\<exists>v. r = Some v \<and> k v = Inr g)"
  by (cases r) (auto simp: ok_or_out_of_gas_def)

lemma checked_add_Some: "checked_add (a :: u256) b = Some c \<longleftrightarrow> uint a + uint b < 2 ^ 256 \<and> c = a + b"
  by (auto simp: checked_add_code)

lemma checked_mul_Some: "checked_mul (a :: u256) b = Some c \<longleftrightarrow> uint a * uint b < 2 ^ 256 \<and> c = a * b"
  by (auto simp: checked_mul_code)

lemma gas_as_u64_Inr: "gas_as_u64 v = Inr g \<longleftrightarrow> uint v < 2 ^ 64 \<and> uint g = uint v"
proof -
  have "(v \<le> 18446744073709551615) = (uint v < 2 ^ 64)" by (auto simp: word_le_def)
  moreover have "uint v < 2 ^ 64 \<Longrightarrow> (g = ucast v) = (uint g = uint v)"
    using uint_ucast_back [of v] by (simp add: word_uint_eq_iff)
  ultimately show ?thesis by (auto simp: gas_as_u64_def not_less)
qed

text \<open>A linear price, computed with checks in 256 bits and returned in 64.\<close>

lemma linear_price:
  "ok_or_out_of_gas (checked_mul (ucast (c :: u64)) n) (\<lambda>x. ok_or_out_of_gas (checked_add (ucast (b :: u64)) x) gas_as_u64)
     = Inr g \<longleftrightarrow> uint b + uint c * uint n < 2 ^ 64 \<and> uint g = uint b + uint c * uint n"
proof -
  have m: "uint (ucast c * n :: u256) = uint c * uint n" if "uint c * uint n < 2 ^ 256"
    using that uint_mult_lem [of "ucast c" n] by simp
  have a: "uint (ucast b + ucast c * n :: u256) = uint b + uint c * uint n"
    if "uint c * uint n < 2 ^ 256" "uint b + uint c * uint n < 2 ^ 256"
    using that m uint_add_lem [of "ucast b" "ucast c * n"] by simp
  have nn: "0 \<le> uint b" "0 \<le> uint c * uint n" using uint_u64 [of b] uint_u64 [of c] uint_lt_256 [of n] by simp_all
  have small: "uint c * uint n < 2 ^ 256" if "uint b + uint c * uint n < 2 ^ 64" using that nn pow_64_256 by linarith
  show ?thesis
    using m a small
    by (auto simp: ok_or_out_of_gas_Inr checked_mul_Some checked_add_Some gas_as_u64_Inr)
qed

lemma sha3_cost_formula: "sha3_cost len = Inr g \<longleftrightarrow>
    30 + 6 * ((uint len + 31) div 32) < 2 ^ 64 \<and> uint g = 30 + 6 * ((uint len + 31) div 32)"
  using linear_price [of 6 "word_count len" 30 g] by (simp add: sha3_cost_def word_count_uint)

lemma verylowcopy_cost_formula: "verylowcopy_cost len = Inr g \<longleftrightarrow>
    3 + 3 * ((uint len + 31) div 32) < 2 ^ 64 \<and> uint g = 3 + 3 * ((uint len + 31) div 32)"
  using linear_price [of 3 "word_count len" 3 g] by (simp add: verylowcopy_cost_def word_count_uint)

lemma create2_cost_formula: "create2_cost len = Inr g \<longleftrightarrow>
    32000 + 6 * ((uint len + 31) div 32) < 2 ^ 64 \<and> uint g = 32000 + 6 * ((uint len + 31) div 32)"
proof -
  have "len div 32 + (if len mod 32 = 0 then 0 else 1) = word_count len" by (simp add: word_count_def Let_def)
  then show ?thesis
    using linear_price [of 6 "word_count len" 32000 g] by (simp add: create2_cost_def word_count_uint)
qed

lemma extcodecopy_cost_formula: "extcodecopy_cost len cold config = Inr g \<longleftrightarrow>
    uint (address_access_cost cold (cfg_gas_ext_code config) config) + 3 * ((uint len + 31) div 32) < 2 ^ 64
    \<and> uint g = uint (address_access_cost cold (cfg_gas_ext_code config) config) + 3 * ((uint len + 31) div 32)"
  using linear_price [of 3 "word_count len" _ g] by (simp add: extcodecopy_cost_def word_count_uint)

lemma log_cost_formula: "log_cost n len = Inr g \<longleftrightarrow>
    375 + 8 * uint len + 375 * uint n < 2 ^ 64 \<and> uint g = 375 + 8 * uint len + 375 * uint n"
proof -
  have n: "uint (375 * ucast n :: u64) = 375 * uint n"
  proof -
    have u: "uint (ucast n :: u64) = uint n"
      by (simp add: unsigned_ucast_eq take_bit_int_eq_self_iff) (use uint_lt2p [of n] in simp)
    then show ?thesis using uint_mult_lem [of "375 :: u64" "ucast n"] uint_lt2p [of n] by simp
  qed
  have nn: "0 \<le> uint len" "0 \<le> uint n" by simp_all
  have m: "uint (8 * len) = 8 * uint len" if "8 * uint len < 2 ^ 256"
    using that uint_mult_lem [of 8 len] by simp
  have a: "uint (375 + 8 * len) = 375 + 8 * uint len" if "375 + 8 * uint len < 2 ^ 256"
    using that m uint_add_lem [of 375 "8 * len"] by simp
  have b: "uint (375 + 8 * len + ucast (375 * ucast n :: u64)) = 375 + 8 * uint len + 375 * uint n"
    if lt: "375 + 8 * uint len + 375 * uint n < 2 ^ 256"
  proof -
    have "375 + 8 * uint len < 2 ^ 256" using lt nn by linarith
    then show ?thesis using lt a n uint_add_lem [of "375 + 8 * len" "ucast (375 * ucast n :: u64)"] by simp
  qed
  have small: "375 + 8 * uint len < 2 ^ 256" if "375 + 8 * uint len + 375 * uint n < 2 ^ 64"
    using that nn pow_64_256 by linarith
  show ?thesis
    using m a b n small
    by (auto simp: log_cost_def ok_or_out_of_gas_Inr checked_mul_Some checked_add_Some gas_as_u64_Inr)
qed

lemma memory_gas_formula:
  "memory_gas a = Inr g \<Longrightarrow> a \<le> USIZE_MAX \<Longrightarrow> a < 2 ^ 32 \<and> uint g = 3 * int a + (int a * int a) div 512"
proof -
  assume g: "memory_gas a = Inr g" and "a \<le> USIZE_MAX"
  then have a: "uint (of_nat a :: u64) = int a"
    by (simp add: USIZE_MAX_def uint_nat unat_of_nat)
  have mul: "checked_mul x y = Some z \<Longrightarrow> uint x * uint y < 2 ^ 64 \<and> uint z = uint x * uint y" for x y z :: u64
    using uint_mult_lem [of x y] by (auto simp: checked_mul_code split: if_splits)
  have add: "checked_add x y = Some z \<Longrightarrow> uint z = uint x + uint y" for x y z :: u64
    using uint_add_lem [of x y] by (auto simp: checked_add_code split: if_splits)
  obtain x y z where x: "checked_mul 3 (of_nat a) = Some x" and y: "checked_mul (of_nat a) (of_nat a) = Some y"
    and z: "checked_add x (y div 512) = Some z" "g = z"
    using g by (auto simp: memory_gas_def Let_def ok_or_out_of_gas_Inr)
  have "int a * int a < 2 ^ 64" using mul [OF y] a by simp
  have "a < 2 ^ 32"
  proof (rule ccontr)
    assume "\<not> a < 2 ^ 32"
    then have "2 ^ 32 \<le> int a" by simp
    then have "2 ^ 32 * 2 ^ 32 \<le> int a * int a" by (intro mult_mono) simp_all
    then show False using \<open>int a * int a < 2 ^ 64\<close> by simp
  qed
  moreover have "uint (y div 512) = (int a * int a) div 512" using mul [OF y] a by (simp add: uint_div_distrib)
  ultimately show ?thesis using add [OF z(1)] z(2) mul [OF x] a by simp
qed

section \<open>Exponents\<close>

lemma leading_zeros_bits:
  assumes "w \<noteq> 0"
  shows "leading_zeros w < 64" "bit w (63 - leading_zeros w)" "\<And>i. 63 - leading_zeros w < i \<Longrightarrow> \<not> bit w i"
proof -
  let ?xs = "rev [0..<64]"
  have nth: "?xs ! j = 63 - j" if "j < 64" for j using that by (simp add: rev_nth del: upt_rec_numeral)
  have "\<exists>i. bit w i \<and> i < 64"
  proof (rule ccontr)
    assume "\<nexists>i. bit w i \<and> i < 64"
    then have "w = 0" by (intro bit_word_eqI) auto
    then show False using assms by simp
  qed
  then obtain i where i: "bit w i" "i < 64" by blast
  show lt: "leading_zeros w < 64"
  proof -
    have "\<exists>j\<in>set ?xs. bit w j" using i by (auto simp del: upt_rec_numeral)
    then have "length (takeWhile (\<lambda>i. \<not> bit w i) ?xs) < length ?xs"
      by (metis (mono_tags, lifting) length_takeWhile_le le_neq_implies_less takeWhile_eq_all_conv takeWhile_eq_take take_all_iff)
    then show ?thesis by (simp add: leading_zeros_def del: upt_rec_numeral)
  qed
  have "\<not> \<not> bit w (?xs ! leading_zeros w)"
    unfolding leading_zeros_def using lt
    by (intro nth_length_takeWhile) (simp add: leading_zeros_def del: upt_rec_numeral)
  then show "bit w (63 - leading_zeros w)" using nth [OF lt] by simp
  show "\<not> bit w i" if "63 - leading_zeros w < i" for i
  proof (cases "i < 64")
    case True
    then have j: "63 - i < leading_zeros w" using that lt by linarith
    then have "takeWhile (\<lambda>i. \<not> bit w i) ?xs ! (63 - i) = i"
      using nth [of "63 - i"] True by (simp add: leading_zeros_def takeWhile_nth del: upt_rec_numeral)
    then show ?thesis
      using j by (metis (mono_tags, lifting) leading_zeros_def nth_mem set_takeWhileD)
  next
    case False
    then show ?thesis using bit_imp_le_length [of w i] by auto
  qed
qed

lemma le_div_iff: "0 < d \<Longrightarrow> a \<le> v div d \<longleftrightarrow> a * d \<le> (v :: int)"
proof
  assume d: "0 < d" and "a \<le> v div d"
  then have "a * d \<le> v div d * d" by (intro mult_right_mono) simp_all
  then show "a * d \<le> v" using div_mult_mod_eq [of v d] pos_mod_sign [OF d, of v] by linarith
next
  assume d: "0 < d" and le: "a * d \<le> v"
  show "a \<le> v div d" using zdiv_mono1 [OF le d] d by simp
qed

lemma div_less_iff: "0 < d \<Longrightarrow> v div d < a \<longleftrightarrow> v < a * (d :: int)"
  using le_div_iff [of d a v] by linarith

lemma leading_zeros_bounds:
  assumes "w \<noteq> 0"
  shows "2 ^ (63 - leading_zeros w) \<le> uint w" "uint w < 2 ^ (64 - leading_zeros w)"
proof -
  note b = leading_zeros_bits [OF assms]
  let ?e = "63 - leading_zeros w"
  have "bit (uint w) ?e" using b(2) by (simp add: bit_uint_iff)
  then have "uint w div 2 ^ ?e \<noteq> 0" by (auto simp: bit_iff_odd)
  then show "2 ^ ?e \<le> uint w" using uint_u64(1) [of w] by (metis div_pos_pos_trivial not_less)
  have "take_bit (64 - leading_zeros w) w = w"
  proof (rule bit_word_eqI)
    fix n
    have "\<not> n < 64 - leading_zeros w \<Longrightarrow> \<not> bit w n" using b(3) [of n] b(1) by linarith
    then show "bit (take_bit (64 - leading_zeros w) w) n = bit w n" by (auto simp: bit_take_bit_iff)
  qed
  then have "uint w = take_bit (64 - leading_zeros w) (uint w)" by (metis unsigned_take_bit_eq)
  then show "uint w < 2 ^ (64 - leading_zeros w)" by (metis take_bit_int_less_exp)
qed

lemma uint_limb: "uint (limb v i) = uint v div 2 ^ (64 * i) mod 2 ^ 64"
proof -
  have "uint (limb v i) = take_bit 64 (uint (drop_bit (64 * i) v))"
    by (simp only: limb_def unsigned_ucast_eq) simp
  then show ?thesis by (simp only: uint_drop_bit take_bit_eq_mod)
qed

lemma log2floor_loop_spec:
  "v \<noteq> 0 \<Longrightarrow> k \<le> 4 \<Longrightarrow> uint v < 2 ^ (64 * k) \<Longrightarrow>
   \<exists>n. log2floor_loop v (rev [0..<k]) (of_nat (64 * k)) = of_nat n \<and> n < 256 \<and> 2 ^ n \<le> uint v \<and> uint v < 2 ^ (n + 1)"
proof (induction k)
  case 0
  then show ?case using uint_pos [of v] by simp
next
  case (Suc k)
  let ?w = "limb v k"
  have "uint v div 2 ^ (64 * k) < 2 ^ 64"
    using Suc.prems(3) by (simp add: div_less_iff power_add mult.commute)
  moreover have "0 \<le> uint v div 2 ^ (64 * k)" using uint_lt_256(1) [of v] by (simp add: pos_imp_zdiv_nonneg_iff)
  ultimately have w: "uint ?w = uint v div 2 ^ (64 * k)" by (simp add: uint_limb)
  show ?case
  proof (cases "?w = 0")
    case True
    then have "uint v < 2 ^ (64 * k)" using w div_less_iff [of "2 ^ (64 * k)" "uint v" 1] by simp
    then show ?thesis using Suc.IH Suc.prems True by simp
  next
    case False
    note b = leading_zeros_bounds [OF False] leading_zeros_bits(1) [OF False]
    define e where "e = 63 - leading_zeros ?w"
    have e: "64 - leading_zeros ?w = e + 1" "leading_zeros ?w = 63 - e" "e < 64" using b(3) by (simp_all add: e_def)
    have l: "of_nat (64 * Suc k) - of_nat (leading_zeros ?w) = (of_nat (64 * k + e + 1) :: u64)"
      using e by (simp add: of_nat_diff)
    have "unat (of_nat (64 * k + e + 1) :: u64) = 64 * k + e + 1"
      using Suc.prems(2) e(3) by (intro unat_of_nat_u64) simp
    then have nz: "(of_nat (64 * k + e + 1) :: u64) \<noteq> 0" by (metis unat_0 Suc_eq_plus1 nat.distinct(1))
    have "log2floor_loop v (rev [0..<Suc k]) (of_nat (64 * Suc k)) = of_nat (64 * k + e + 1) - 1"
    proof -
      have "rev [0..<Suc k] = k # rev [0..<k]" by simp
      then show ?thesis using False nz by (simp only: log2floor_loop.simps Let_def l if_False)
    qed
    also have "\<dots> = of_nat (64 * k + e)" by simp
    moreover have "2 ^ (64 * k + e) \<le> uint v"
    proof -
      have "2 ^ e \<le> uint v div 2 ^ (64 * k)" using b(1) w by (simp add: e_def)
      then have "2 ^ e * 2 ^ (64 * k) \<le> uint v" by (simp add: le_div_iff)
      then show ?thesis by (simp add: power_add mult.commute)
    qed
    moreover have "uint v < 2 ^ (64 * k + e + 1)"
    proof -
      have "uint v div 2 ^ (64 * k) < 2 ^ (e + 1)" using b(2) w e(1) by simp
      then have "uint v < 2 ^ (e + 1) * 2 ^ (64 * k)" by (simp add: div_less_iff)
      then show ?thesis by (simp add: power_add mult_ac)
    qed
    ultimately show ?thesis using Suc.prems(2) e(3) by (intro exI [of _ "64 * k + e"]) simp
  qed
qed

lemma log2floor_spec:
  "v \<noteq> 0 \<Longrightarrow> \<exists>n. log2floor v = Some (of_nat n) \<and> n < 256 \<and> 2 ^ n \<le> uint v \<and> uint v < 2 ^ (n + 1)"
proof -
  assume v: "v \<noteq> 0"
  have "rev [0..<4] = [3, 2, 1, 0 :: nat]" by (simp add: upt_rec)
  then show ?thesis using log2floor_loop_spec [OF v, of 4] uint_lt_256 [of v] v by (simp add: log2floor_def)
qed

lemma exp_cost_formula:
  assumes "v \<noteq> 0" "uint (cfg_gas_expbyte config) < 2 ^ 32"
  obtains n g where "2 ^ n \<le> uint v" "uint v < 2 ^ (n + 1)" "n < 256" "exp_cost v config = Some (Inr g)"
    "uint g = 10 + uint (cfg_gas_expbyte config) * (int n div 8 + 1)"
proof -
  obtain n where n: "log2floor v = Some (of_nat n)" "n < 256" "2 ^ n \<le> uint v" "uint v < 2 ^ (n + 1)"
    using log2floor_spec [OF assms(1)] by blast
  have un: "uint (of_nat n :: u64) = int n" using n(2) unat_of_nat_u64 [of n] by (simp add: uint_nat)
  have "uint (of_nat n div 8 :: u64) = int n div 8" by (simp add: uint_div_distrib un)
  moreover have "int n div 8 < 32" using n(2) by simp
  ultimately have l: "uint (of_nat n div 8 + 1 :: u64) = int n div 8 + 1"
    using uint_add_u64 [of "of_nat n div 8" 1] by simp
  define p where "p = uint (cfg_gas_expbyte config) * (int n div 8 + 1)"
  have "p \<le> 2 ^ 32 * 32" unfolding p_def
    using assms(2) \<open>int n div 8 < 32\<close> uint_u64 [of "cfg_gas_expbyte config"] by (intro mult_mono) simp_all
  moreover have "0 \<le> p" using uint_u64 [of "cfg_gas_expbyte config"] by (simp add: p_def)
  ultimately have lt: "10 + p < 2 ^ 64" "0 \<le> 10 + p" by simp_all
  have g: "uint (word_of_int (10 + p) :: u64) = 10 + p" using uint_word_of_int_u64 [OF lt(2,1)] .
  have "exp_cost v config = Some (Inr (word_of_int (10 + p)))"
    using linear_price [of "cfg_gas_expbyte config" "ucast (of_nat n div 8 + 1 :: u64)" 10] lt l n(1) assms(1) g
    by (simp only: exp_cost_def if_False Option.bind.simps p_def uint_ucast_u64) simp
  then show thesis using that n g p_def by blast
qed

section \<open>Bounds on the cost of an opcode\<close>

definition config_ok :: "Config \<Rightarrow> bool" where
  "config_ok c \<longleftrightarrow> list_all (\<lambda>v. v < 2 ^ 32)
     [cfg_gas_ext_code c, cfg_gas_ext_code_hash c, cfg_gas_balance c, cfg_gas_sload c, cfg_gas_sload_cold c,
      cfg_gas_sstore_set c, cfg_gas_sstore_reset c, cfg_gas_suicide c, cfg_gas_suicide_new_account c, cfg_gas_call c,
      cfg_gas_expbyte c, cfg_gas_account_access_cold c, cfg_gas_storage_read_warm c]"

lemma config_ok_presets: "list_all config_ok [frontier, istanbul, berlin, london, merge_fork, shanghai]"
  by (simp add: config_ok_def frontier_def istanbul_def berlin_def london_def merge_fork_def shanghai_def
      config_with_derived_values_def DerivedConfigInputs_berlin_def DerivedConfigInputs_london_def
      DerivedConfigInputs_merge_def DerivedConfigInputs_shanghai_def)

lemma config_ok_bounds:
  assumes "config_ok c"
  shows "uint (cfg_gas_ext_code c) < 2 ^ 32" "uint (cfg_gas_ext_code_hash c) < 2 ^ 32" "uint (cfg_gas_balance c) < 2 ^ 32"
    "uint (cfg_gas_sload c) < 2 ^ 32" "uint (cfg_gas_sload_cold c) < 2 ^ 32" "uint (cfg_gas_sstore_set c) < 2 ^ 32"
    "uint (cfg_gas_sstore_reset c) < 2 ^ 32" "uint (cfg_gas_suicide c) < 2 ^ 32"
    "uint (cfg_gas_suicide_new_account c) < 2 ^ 32" "uint (cfg_gas_call c) < 2 ^ 32" "uint (cfg_gas_expbyte c) < 2 ^ 32"
    "uint (cfg_gas_account_access_cold c) < 2 ^ 32" "uint (cfg_gas_storage_read_warm c) < 2 ^ 32"
  using assms by (simp_all add: config_ok_def word_less_def)

lemma address_access_bound:
  "config_ok c \<Longrightarrow> uint v < 2 ^ 32 \<Longrightarrow> uint (address_access_cost cold v c) < 2 ^ 32"
  using config_ok_bounds(12,13) [of c] by (simp add: address_access_cost_def)

lemma uint_add_bound: "uint (x :: u64) \<le> a \<Longrightarrow> uint y \<le> b \<Longrightarrow> uint (x + y) \<le> a + b"
  using uint_add_le [of x y] by linarith

text \<open>The length that the price of an opcode depends on, if it does.\<close>

definition priced_len :: "GasCost \<Rightarrow> u256 option" where
  "priced_len c = (case c of
     GasSha3 len \<Rightarrow> Some len | GasLog _ len \<Rightarrow> Some len | GasExtCodeCopy _ len \<Rightarrow> Some len
   | GasVeryLowCopy len \<Rightarrow> Some len | GasCreate2 len \<Rightarrow> Some len | _ \<Rightarrow> None)"

lemma call_cost_bound: "config_ok c \<Longrightarrow> uint (call_cost v a b d e c) \<le> 2 ^ 32 + 34000"
proof -
  assume c: "config_ok c"
  have "uint (address_access_cost a (cfg_gas_call c) c) \<le> 2 ^ 32"
    using address_access_bound [OF c config_ok_bounds(10) [OF c]] by (simp add: less_imp_le)
  moreover have "uint (xfer_cost b x) \<le> 9000" "uint (new_cost d e x c) \<le> 25000" for x
    by (simp_all add: xfer_cost_def new_cost_def Let_def)
  ultimately show ?thesis
    using uint_add_bound [OF uint_add_bound, of "address_access_cost a (cfg_gas_call c) c" "2 ^ 32" _ 9000 _ 25000]
    by (simp add: call_cost_def Let_def)
qed

lemma suicide_cost_bound: "config_ok c \<Longrightarrow> uint (suicide_cost v a b c) \<le> 3 * 2 ^ 32"
proof -
  assume c: "config_ok c"
  note b = config_ok_bounds [OF c, THEN less_imp_le]
  have "uint (cfg_gas_suicide c + cfg_gas_suicide_new_account c) \<le> 2 ^ 32 + 2 ^ 32"
    "uint (cfg_gas_suicide c + cfg_gas_account_access_cold c) \<le> 2 ^ 32 + 2 ^ 32"
    "uint (cfg_gas_suicide c + cfg_gas_suicide_new_account c + cfg_gas_account_access_cold c) \<le> (2 ^ 32 + 2 ^ 32) + 2 ^ 32"
    by (intro uint_add_bound b)+
  then show ?thesis using b(8) unfolding suicide_cost_def Let_def by auto
qed

lemma len_price_bound: "uint len \<le> 2 ^ 37 \<Longrightarrow> (uint (len :: u256) + 31) div 32 \<le> 2 ^ 32 + 1"
proof -
  assume "uint len \<le> 2 ^ 37"
  then have "(uint len + 31) div 32 \<le> (2 ^ 37 + 31) div 32" by (intro zdiv_mono1) simp_all
  then show ?thesis by simp
qed

lemma gas_cost_bound:
  assumes c: "config_ok (inner_config i)" and len: "\<And>len. priced_len cost = Some len \<Longrightarrow> uint len \<le> 2 ^ 37"
  shows "\<exists>r. Inner_gas_cost cost g i = Some r \<and> (\<forall>n. r = Inr n \<longrightarrow> uint n \<le> 2 ^ 42)"
proof -
  note b = config_ok_bounds [OF c]
  note a = address_access_bound [OF c]
  note l = len_price_bound
  show ?thesis
  proof (cases cost)
    case (GasExp v)
    show ?thesis
    proof (cases "v = 0")
      case False
      from exp_cost_formula [OF False b(11)] obtain n x where "exp_cost v (inner_config i) = Some (Inr x)" "n < 256"
        "uint x = 10 + uint (cfg_gas_expbyte (inner_config i)) * (int n div 8 + 1)" by metis
      moreover have "uint (cfg_gas_expbyte (inner_config i)) * (int n div 8 + 1) \<le> 2 ^ 32 * 32"
        using b(11) \<open>n < 256\<close> by (intro mult_mono) simp_all
      ultimately show ?thesis using GasExp by (simp add: Inner_gas_cost_def Let_def)
    qed (use GasExp in \<open>simp add: Inner_gas_cost_def exp_cost_def Let_def\<close>)
  next
    case (GasSStore x1 x2 x3 x4)
    have s: "uint (x + cfg_gas_sload_cold (inner_config i)) \<le> 2 ^ 32 + 2 ^ 32" if "uint x < 2 ^ 32" for x
      using b(5) that by (intro uint_add_bound) simp_all
    show ?thesis using GasSStore b(4,6,7) s [OF b(4)] s [OF b(6)] s [OF b(7)]
      by (auto simp: Inner_gas_cost_def sstore_cost_def Let_def)
  next
    case (GasLog n len)
    then show ?thesis using len [of len] uint_lt2p [of n]
      by (auto simp: Inner_gas_cost_def Let_def log_cost_formula priced_len_def)
  next
    case (GasExtCodeCopy cold len)
    then show ?thesis using len [of len] l [of len] a [OF b(1), of cold]
      by (auto simp: Inner_gas_cost_def Let_def extcodecopy_cost_formula priced_len_def)
  next
    case (GasSLoad cold)
    then show ?thesis using b by (auto simp: Inner_gas_cost_def Let_def sload_cost_def)
  next
    case (GasSuicide v x1 x2 x3)
    then show ?thesis using suicide_cost_bound [OF c, of v x1 x2] by (simp add: Inner_gas_cost_def Let_def)
  next
    case (GasCall v g x1 x2)
    then show ?thesis using call_cost_bound [OF c, of v x1 True True "\<not> x2"] by (simp add: Inner_gas_cost_def Let_def)
  next
    case (GasCallCode v g x1 x2)
    then show ?thesis using call_cost_bound [OF c, of v x1 True False "\<not> x2"] by (simp add: Inner_gas_cost_def Let_def)
  next
    case (GasDelegateCall g x1 x2)
    then show ?thesis using call_cost_bound [OF c, of 0 x1 False False "\<not> x2"] by (simp add: Inner_gas_cost_def Let_def)
  next
    case (GasStaticCall g x1 x2)
    then show ?thesis using call_cost_bound [OF c, of 0 x1 False True "\<not> x2"] by (simp add: Inner_gas_cost_def Let_def)
  next
    case (GasExtCodeSize cold)
    then show ?thesis using a [OF b(1), of cold] by (simp add: Inner_gas_cost_def Let_def)
  next
    case (GasBalance cold)
    then show ?thesis using a [OF b(3), of cold] by (simp add: Inner_gas_cost_def Let_def)
  next
    case (GasExtCodeHash cold)
    then show ?thesis using a [OF b(2), of cold] by (simp add: Inner_gas_cost_def Let_def)
  next
    case (GasSha3 len)
    then show ?thesis using len [of len] l [of len]
      by (auto simp: Inner_gas_cost_def Let_def sha3_cost_formula priced_len_def)
  next
    case (GasVeryLowCopy len)
    then show ?thesis using len [of len] l [of len]
      by (auto simp: Inner_gas_cost_def Let_def verylowcopy_cost_formula priced_len_def)
  next
    case (GasCreate2 len)
    then show ?thesis using len [of len] l [of len]
      by (auto simp: Inner_gas_cost_def Let_def create2_cost_formula priced_len_def)
  qed (simp_all add: Inner_gas_cost_def Let_def)
qed

text \<open>Memory that can be paid for ends below \<open>2 ^ 37\<close>: the square of its number of words fits into 64 bits.\<close>

lemma Inner_memory_gas_bound:
  assumes "Inner_memory_gas mc i = Inr mg"
  shows "uint (mcost_len mc) \<le> 2 ^ 37" "uint (inner_memory_gas i) \<le> uint mg"
    "uint mg \<le> max (uint (inner_memory_gas i)) (2 ^ 56)"
proof -
  have "uint (mcost_len mc) \<le> 2 ^ 37 \<and> uint (inner_memory_gas i) \<le> uint mg
    \<and> uint mg \<le> max (uint (inner_memory_gas i)) (2 ^ 56)"
  proof (cases "mcost_len mc = 0")
    case True
    then show ?thesis using assms by (simp add: Inner_memory_gas_def)
  next
    case False
    then obtain e where e: "checked_add (mcost_offset mc) (mcost_len mc) = Some e" "fits_usize e"
      using assms by (auto simp: Inner_memory_gas_def ok_or_out_of_gas_Inr split: if_splits)
    define new where "new = (if unat e mod 32 = 0 then unat e div 32 else unat e div 32 + 1)"
    obtain g where g: "memory_gas new = Inr g" "mg = max (inner_memory_gas i) g"
      using assms False e
      by (auto simp: Inner_memory_gas_def ok_or_out_of_gas_def Let_def new_def split: if_splits sum.splits)
    have ue: "uint e = uint (mcost_offset mc) + uint (mcost_len mc)"
      using e(1) uint_add_lem [of "mcost_offset mc" "mcost_len mc"] by (auto simp: checked_add_Some)
    have "unat e \<le> USIZE_MAX" using e(2) by (simp add: fits_usize_def USIZE_MAX_def word_le_nat_alt)
    moreover have "new \<le> unat e"
    proof (cases "unat e = 0")
      case False
      then have "unat e div 32 < unat e" by (intro div_less_dividend) simp_all
      then show ?thesis by (simp add: new_def)
    qed (simp add: new_def)
    ultimately have "new \<le> USIZE_MAX" by (rule order_trans [rotated])
    then have n: "new < 2 ^ 32" "uint g = 3 * int new + int new * int new div 512"
      using memory_gas_formula [OF g(1)] by simp_all
    have "unat e \<le> 32 * new"
      using div_mult_mod_eq [of "unat e" 32] mod_less_divisor [of 32 "unat e"] by (auto simp: new_def)
    then have "unat e \<le> 2 ^ 37" using n(1) by simp
    then have "int (unat e) \<le> int (2 ^ 37)" by (simp only: of_nat_le_iff)
    then have "uint e \<le> 2 ^ 37" by simp
    then have "uint (mcost_len mc) \<le> 2 ^ 37" using ue uint_lt_256(1) [of "mcost_offset mc"] by linarith
    moreover have "uint g \<le> 2 ^ 56"
    proof -
      have "int new * int new \<le> 2 ^ 32 * 2 ^ 32" using n(1) by (intro mult_mono) simp_all
      then have "int new * int new div 512 \<le> 2 ^ 32 * 2 ^ 32 div 512" by (intro zdiv_mono1) simp_all
      then show ?thesis using n by simp
    qed
    ultimately show ?thesis using g(2) by (auto simp: max_def word_le_def)
  qed
  then show "uint (mcost_len mc) \<le> 2 ^ 37" "uint (inner_memory_gas i) \<le> uint mg"
    "uint mg \<le> max (uint (inner_memory_gas i)) (2 ^ 56)" by blast+
qed

text \<open>An opcode whose price depends on a length also pays for the memory of that length.\<close>

definition cost_post :: "(GasCost \<Rightarrow> bool) \<Rightarrow> ('s, GasCost \<times> StorageTarget) handler_result \<Rightarrow> bool" where
  "cost_post P r \<longleftrightarrow> (\<forall>c t s. r = Some (Inr (c, t), s) \<longrightarrow> P c)"

lemma cost_post_intros:
  "P c \<Longrightarrow> cost_post P (plain c s)"
  "P c \<Longrightarrow> cost_post P (Some (Inr (c, t), s))"
  "(\<And>v. Stack_peek n stack = Inr v \<Longrightarrow> cost_post P (k v)) \<Longrightarrow> cost_post P (peek_or n stack s k)"
  "(\<And>v s. cost_post P (k' v s)) \<Longrightarrow> cost_post P (ask_or f s k')"
  "(\<And>v s. cost_post P (k'' v s)) \<Longrightarrow> cost_post P (slot_or mvcc g s k'')"
  "(\<And>t v s. cost_post P (k3 t v s)) \<Longrightarrow> cost_post P (target_cost H n stack s k3)"
  "(\<And>v s. cost_post P (k4 v s)) \<Longrightarrow> cost_post P (exists_or H a s k4)"
  "(b \<Longrightarrow> cost_post P x) \<Longrightarrow> (\<not> b \<Longrightarrow> cost_post P y) \<Longrightarrow> cost_post P (if b then x else y)"
  by (auto simp: cost_post_def plain_def peek_or_def ask_or_def slot_or_def target_cost_def exists_or_def Let_def
      split: sum.splits prod.splits if_splits)

definition len_position :: "Opcode \<Rightarrow> nat" where
  "len_position opcode = (if opcode = 0x3c then 3 else if opcode = 0x37 \<or> opcode = 0x39 \<or> opcode = 0x3e \<or> opcode = 0xf5 then 2 else 1)"

lemma opcode_gas_cost_priced:
  "cost_post (\<lambda>c. \<forall>len. priced_len c = Some len \<longrightarrow> Stack_peek (len_position opcode) stack = Inr len \<and>
      (opcode \<in> {0x20, 0x3c, 0x37, 0x39, 0x3e, 0xf5} \<or> 0xa0 \<le> opcode \<and> opcode \<le> 0xa4))
    (opcode_gas_cost mvcc H address opcode stack is_static config s)"
  unfolding opcode_gas_cost_def Let_def
  by (intro cost_post_intros) (auto simp: priced_len_def len_position_def)

lemma opcode_memory_cost_priced:
  assumes "opcode_memory_cost opcode stack = Inr mc" "Stack_peek (len_position opcode) stack = Inr len"
    "opcode \<in> {0x20, 0x3c, 0x37, 0x39, 0x3e, 0xf5} \<or> 0xa0 \<le> opcode \<and> opcode \<le> 0xa4"
  shows "\<exists>m. mc = Some m \<and> mcost_len m = len"
proof -
  have range: "opcode \<notin> {0x20, 0x3c, 0x37, 0x39, 0x3e, 0xf5}" if "0xa0 \<le> opcode \<and> opcode \<le> 0xa4"
    using that by (auto simp: word_le_nat_alt)
  show ?thesis using assms range
    by (auto simp: opcode_memory_cost_def peek_range_def len_position_def word_le_nat_alt split: if_splits sum.splits)
qed

section \<open>Invariant of the gasometer\<close>

definition gasometer_ok :: "Gasometer \<Rightarrow> bool" where
  "gasometer_ok g \<longleftrightarrow> (case gm_inner g of Inl _ \<Rightarrow> True
     | Inr i \<Rightarrow> uint (inner_used_gas i) + uint (inner_memory_gas i) \<le> uint (gm_gas_limit g) \<and> inner_config i = gm_config g)"

lemma gasometer_ok_new [simp]: "gasometer_ok (Gasometer_new limit config)"
  by (simp add: gasometer_ok_def Gasometer_new_def)

lemma gas_Inr:
  assumes "gasometer_ok g" "gm_inner g = Inr i"
  shows "uint (gas g) = uint (gm_gas_limit g) - uint (inner_used_gas i) - uint (inner_memory_gas i)"
proof -
  have le: "uint (inner_used_gas i) + uint (inner_memory_gas i) \<le> uint (gm_gas_limit g)"
    using assms by (simp add: gasometer_ok_def)
  have "uint (gm_gas_limit g - inner_used_gas i) = uint (gm_gas_limit g) - uint (inner_used_gas i)"
    using le uint_u64(1) [of "inner_memory_gas i"] by (intro uint_sub_u64) linarith
  then have "uint (gm_gas_limit g - inner_used_gas i - inner_memory_gas i)
      = uint (gm_gas_limit g) - uint (inner_used_gas i) - uint (inner_memory_gas i)"
    using le by (subst uint_sub_u64) linarith+
  then show ?thesis using assms(2) by (simp add: gas_def)
qed

lemma total_used_gas_Inr:
  assumes "gasometer_ok g" "gm_inner g = Inr i"
  shows "uint (total_used_gas g) = uint (inner_used_gas i) + uint (inner_memory_gas i)"
proof -
  have "uint (inner_used_gas i) + uint (inner_memory_gas i) < 2 ^ 64"
    using assms uint_u64(2) [of "gm_gas_limit g"] by (simp add: gasometer_ok_def)
  then show ?thesis using assms(2) by (simp add: total_used_gas_def uint_add_u64)
qed

text \<open>An explicit cost is charged exactly, or the gasometer fails.\<close>

lemma record_cost_ok:
  assumes ok: "gasometer_ok g" and lim: "uint (gm_gas_limit g) + uint cost < 2 ^ 64"
    and r: "record_cost cost g = (r, g')"
  shows "gasometer_ok g' \<and> gm_gas_limit g' = gm_gas_limit g \<and> gm_config g' = gm_config g \<and>
    (case r of Inl _ \<Rightarrow> gas g' = 0 | Inr _ \<Rightarrow> uint (gas g') = uint (gas g) - uint cost \<and> uint cost \<le> uint (gas g))"
proof (cases "gm_inner g")
  case (Inl e)
  then show ?thesis using r by (auto simp: record_cost_def Let_def gasometer_ok_def gas_def split: if_splits)
next
  case (Inr i)
  have le: "uint (inner_used_gas i) + uint (inner_memory_gas i) \<le> uint (gm_gas_limit g)" "inner_config i = gm_config g"
    using ok Inr by (simp_all add: gasometer_ok_def)
  note tot = total_used_gas_Inr [OF ok Inr]
  have sum: "uint (total_used_gas g + cost) = uint (inner_used_gas i) + uint (inner_memory_gas i) + uint cost"
    using lim le tot by (subst uint_add_u64) linarith+
  have used: "uint (inner_used_gas i + cost) = uint (inner_used_gas i) + uint cost"
    using lim le uint_u64(1) [of "inner_memory_gas i"] by (intro uint_add_u64) linarith
  show ?thesis
  proof (cases "gm_gas_limit g < total_used_gas g + cost")
    case True
    then show ?thesis using r by (auto simp: record_cost_def gasometer_ok_def gas_def)
  next
    case False
    then have fits: "uint (inner_used_gas i) + uint (inner_memory_gas i) + uint cost \<le> uint (gm_gas_limit g)"
      using sum by (simp add: word_less_def)
    define i' where "i' = i\<lparr>inner_used_gas := inner_used_gas i + cost\<rparr>"
    have g': "r = Inr ()" "g' = g\<lparr>gm_inner := Inr i'\<rparr>"
      using r False Inr by (auto simp: record_cost_def i'_def)
    then have ok': "gasometer_ok g'" "gm_inner g' = Inr i'"
      using fits used le(2) by (simp_all add: gasometer_ok_def i'_def)
    show ?thesis using g' ok' gas_Inr [OF ok'] gas_Inr [OF ok Inr] fits used by (simp add: i'_def)
  qed
qed

text \<open>The dynamic cost of an opcode.\<close>

lemma record_dynamic_cost_ok:
  assumes ok: "gasometer_ok g" and lim: "uint (gm_gas_limit g) \<le> 2 ^ 62" and cfg: "config_ok (gm_config g)"
    and priced: "\<And>len. priced_len cost = Some len \<Longrightarrow> \<exists>m. mc = Some m \<and> mcost_len m = len"
  shows "\<exists>r g'. record_dynamic_cost cost mc g = Some (r, g') \<and> gasometer_ok g'
    \<and> gm_gas_limit g' = gm_gas_limit g \<and> gm_config g' = gm_config g
    \<and> (case r of Inl _ \<Rightarrow> gas g' = 0 | Inr _ \<Rightarrow> (\<exists>i i' n. gm_inner g = Inr i \<and> gm_inner g' = Inr i'
        \<and> Inner_gas_cost cost (gas g) i = Some (Inr n) \<and> uint (inner_memory_gas i) \<le> uint (inner_memory_gas i')
        \<and> uint (gas g) = uint (gas g') + uint n + (uint (inner_memory_gas i') - uint (inner_memory_gas i))))"
proof (cases "gm_inner g")
  case (Inl e)
  then show ?thesis using ok by (simp add: record_dynamic_cost_def gas_def)
next
  case (Inr i)
  have le: "uint (inner_used_gas i) + uint (inner_memory_gas i) \<le> uint (gm_gas_limit g)" "inner_config i = gm_config g"
    using ok Inr by (simp_all add: gasometer_ok_def)
  have failed: "gasometer_ok (g\<lparr>gm_inner := Inl e\<rparr>) \<and> gas (g\<lparr>gm_inner := Inl e\<rparr>) = 0" for e
    by (simp add: gasometer_ok_def gas_def)
  define mem where "mem = (case mc of Some m \<Rightarrow> Inner_memory_gas m i | None \<Rightarrow> Inr (inner_memory_gas i))"
  show ?thesis
  proof (cases mem)
    case (Inl e)
    then show ?thesis using Inr failed by (auto simp: record_dynamic_cost_def simp flip: mem_def)
  next
    case mem: (Inr mg)
    have mg: "uint (inner_memory_gas i) \<le> uint mg" "uint mg \<le> max (uint (inner_memory_gas i)) (2 ^ 56)"
      using mem Inner_memory_gas_bound(2,3) by (auto simp: mem_def split: option.splits)
    have "uint len \<le> 2 ^ 37" if "priced_len cost = Some len" for len
      using priced [OF that] mem Inner_memory_gas_bound(1) by (auto simp: mem_def)
    then obtain c where c: "Inner_gas_cost cost (gas g) i = Some c" "\<forall>n. c = Inr n \<longrightarrow> uint n \<le> 2 ^ 42"
      using gas_cost_bound [of i cost] cfg le(2) by metis
    show ?thesis
    proof (cases c)
      case (Inl e)
      then show ?thesis using Inr mem c failed by (auto simp: record_dynamic_cost_def simp flip: mem_def)
    next
      case cost: (Inr n)
      have n: "uint n \<le> 2 ^ 42" using c(2) cost by simp
      have "uint (inner_memory_gas i) \<le> 2 ^ 62" "uint (inner_used_gas i) \<le> 2 ^ 62"
        using le(1) lim uint_u64(1) [of "inner_memory_gas i"] uint_u64(1) [of "inner_used_gas i"] by linarith+
      moreover have "uint mg \<le> 2 ^ 62" using mg(2) calculation(1) by simp
      ultimately have small: "uint mg + uint (inner_used_gas i) + uint n < 2 ^ 64" using n by simp
      have nn: "0 \<le> uint mg" "0 \<le> uint n" by simp_all
      have s1: "uint (mg + inner_used_gas i) = uint mg + uint (inner_used_gas i)"
        using small nn by (intro uint_add_u64) linarith
      have s2: "uint (mg + inner_used_gas i + n) = uint mg + uint (inner_used_gas i) + uint n"
        using small s1 by (subst uint_add_u64) linarith+
      have s3: "uint (inner_used_gas i + n) = uint (inner_used_gas i) + uint n"
        using small nn by (intro uint_add_u64) linarith
      define i' where "i' = i\<lparr>inner_used_gas := inner_used_gas i + n, inner_memory_gas := mg,
        inner_refunded_gas := inner_refunded_gas i + gas_refund cost i\<rparr>"
      define g' where "g' = g\<lparr>gm_inner := Inr i'\<rparr>"
      show ?thesis
      proof (cases "gm_gas_limit g < mg + inner_used_gas i + n
          \<or> (\<exists>e. extra_check cost (gm_gas_limit g - (mg + inner_used_gas i + n)) i = Inl e)")
        case True
        then show ?thesis using Inr mem c(1) cost failed
          by (auto simp: record_dynamic_cost_def Let_def simp flip: mem_def)
      next
        case False
        then have fits: "uint mg + uint (inner_used_gas i) + uint n \<le> uint (gm_gas_limit g)"
          using s2 by (simp add: word_less_def)
        have rec: "record_dynamic_cost cost mc g = Some (Inr (), g')"
          using False Inr mem c(1) cost
          by (cases "extra_check cost (gm_gas_limit g - (mg + inner_used_gas i + n)) i")
            (auto simp: record_dynamic_cost_def Let_def g'_def i'_def simp flip: mem_def split: unit.split)
        have ok': "gasometer_ok g'" "gm_inner g' = Inr i'"
          using fits s3 le(2) by (simp_all add: gasometer_ok_def g'_def i'_def)
        have "uint (gas g) = uint (gas g') + uint n + (uint (inner_memory_gas i') - uint (inner_memory_gas i))"
          using gas_Inr [OF ok'] gas_Inr [OF ok Inr] s3 by (simp add: g'_def i'_def)
        moreover have "gm_gas_limit g' = gm_gas_limit g" "gm_config g' = gm_config g" "inner_memory_gas i' = mg"
          by (simp_all add: g'_def i'_def)
        ultimately show ?thesis using rec ok' Inr mg(1) c(1) cost
          by (intro exI [of _ "Inr ()"] exI [of _ g']) simp
      qed
    qed
  qed
qed

lemma memory_gas_iff:
  assumes a: "a \<le> USIZE_MAX"
  shows "memory_gas a = Inr g \<longleftrightarrow> int a * int a < 2 ^ 64 \<and> uint g = 3 * int a + int a * int a div 512"
proof
  assume g: "memory_gas a = Inr g"
  then have "a < 2 ^ 32" "uint g = 3 * int a + int a * int a div 512" using memory_gas_formula [OF g a] by simp_all
  moreover have "int a * int a < 2 ^ 32 * 2 ^ 32" using \<open>a < 2 ^ 32\<close> by (intro mult_strict_mono) simp_all
  ultimately show "int a * int a < 2 ^ 64 \<and> uint g = 3 * int a + int a * int a div 512" by simp
next
  assume g: "int a * int a < 2 ^ 64 \<and> uint g = 3 * int a + int a * int a div 512"
  have ua: "uint (of_nat a :: u64) = int a" using a by (simp add: USIZE_MAX_def uint_nat unat_of_nat)
  have lt: "int a < 2 ^ 32"
  proof (rule ccontr)
    assume "\<not> int a < 2 ^ 32"
    then have "2 ^ 32 * 2 ^ 32 \<le> int a * int a" by (intro mult_mono) simp_all
    then show False using g by simp
  qed
  define x where "x = (3 * of_nat a :: u64)"
  define y where "y = (of_nat a * of_nat a :: u64)"
  have x: "uint x = 3 * int a" using uint_mult_lem [of "3 :: u64" "of_nat a"] ua lt by (simp add: x_def)
  have y: "uint y = int a * int a" using uint_mult_lem [of "of_nat a :: u64" "of_nat a"] ua g by (simp add: y_def)
  have d: "uint (y div 512) = int a * int a div 512" by (simp add: uint_div_distrib y)
  have "int a * int a div 512 \<le> 2 ^ 64 div 512" using g by (intro zdiv_mono1) simp_all
  then have s: "uint x + uint (y div 512) < 2 ^ 64" using x d lt by simp
  have "uint (x + y div 512) = uint g" using uint_add_u64 [OF s] x d g by simp
  then have "g = x + y div 512" by (simp add: word_uint_eq_iff)
  moreover have "checked_mul 3 (of_nat a) = Some x" "checked_mul (of_nat a) (of_nat a) = Some y"
    "checked_add x (y div 512) = Some (x + y div 512)"
    using ua lt g s by (simp_all add: checked_mul_code checked_add_code x_def y_def)
  ultimately show "memory_gas a = Inr g" by (simp add: memory_gas_def Let_def ok_or_out_of_gas_def)
qed

lemma exp_cost_bytes:
  assumes "uint (cfg_gas_expbyte config) < 2 ^ 32"
  shows "\<exists>n g. exp_cost v config = Some (Inr g) \<and> uint g = 10 + uint (cfg_gas_expbyte config) * int n
    \<and> (if v = 0 then n = 0 else 0 < n \<and> 256 ^ (n - 1) \<le> uint v \<and> uint v < 256 ^ n)"
proof (cases "v = 0")
  case True
  then show ?thesis by (intro exI [of _ 0] exI [of _ 10]) (simp add: exp_cost_def)
next
  case False
  obtain m g where m: "2 ^ m \<le> uint v" "uint v < 2 ^ (m + 1)" "exp_cost v config = Some (Inr g)"
    "uint g = 10 + uint (cfg_gas_expbyte config) * (int m div 8 + 1)"
    using exp_cost_formula [OF False assms] by metis
  have p: "(256 :: int) ^ k = 2 ^ (8 * k)" for k by (simp add: power_mult)
  have "(256 :: int) ^ (m div 8) \<le> 2 ^ m" unfolding p by (intro power_increasing) simp_all
  moreover have "(2 :: int) ^ (m + 1) \<le> 256 ^ (m div 8 + 1)" unfolding p by (intro power_increasing) simp_all
  ultimately show ?thesis using m False
    by (intro exI [of _ "m div 8 + 1"] exI [of _ g]) (simp add: zdiv_int)
qed

text \<open>C36: The cost functions compute the prices of the EVM, with the rounding and the overflow checks they need.
  A copy, a hash, a log and a \<open>CREATE2\<close> cost a constant and a price per started word or per byte, and fail exactly when
  the price does not fit into 64 bits; memory of \<open>a\<close> words costs \<open>3 a + a * a / 512\<close> and fails exactly when the square
  overflows; \<open>EXP\<close> is priced by the number of significant bytes of the exponent.
\<close>

theorem gas_formulas:
  assumes "a \<le> USIZE_MAX" "uint (cfg_gas_expbyte config) < 2 ^ 32"
  shows "(sha3_cost len = Inr g \<longleftrightarrow>
      30 + 6 * ((uint len + 31) div 32) < 2 ^ 64 \<and> uint g = 30 + 6 * ((uint len + 31) div 32))
    \<and> (verylowcopy_cost len = Inr g \<longleftrightarrow>
      3 + 3 * ((uint len + 31) div 32) < 2 ^ 64 \<and> uint g = 3 + 3 * ((uint len + 31) div 32))
    \<and> (create2_cost len = Inr g \<longleftrightarrow>
      32000 + 6 * ((uint len + 31) div 32) < 2 ^ 64 \<and> uint g = 32000 + 6 * ((uint len + 31) div 32))
    \<and> (log_cost n len = Inr g \<longleftrightarrow>
      375 + 8 * uint len + 375 * uint n < 2 ^ 64 \<and> uint g = 375 + 8 * uint len + 375 * uint n)
    \<and> (memory_gas a = Inr g \<longleftrightarrow> int a * int a < 2 ^ 64 \<and> uint g = 3 * int a + int a * int a div 512)
    \<and> (\<exists>bytes p. exp_cost v config = Some (Inr p) \<and> uint p = 10 + uint (cfg_gas_expbyte config) * int bytes
      \<and> (if v = 0 then bytes = 0 else 0 < bytes \<and> 256 ^ (bytes - 1) \<le> uint v \<and> uint v < 256 ^ bytes))"
  by (intro conjI sha3_cost_formula verylowcopy_cost_formula create2_cost_formula log_cost_formula
      memory_gas_iff [OF assms(1)] exp_cost_bytes [OF assms(2)])

theorem gas_formulas_witness:
  "sha3_cost 33 = Inr 42 \<and> memory_gas 100 = Inr 319
   \<and> (\<exists>bytes p. exp_cost 256 shanghai = Some (Inr p) \<and> uint p = 10 + 50 * int bytes
      \<and> 256 ^ (bytes - 1) \<le> (256 :: int) \<and> (256 :: int) < 256 ^ bytes)"
proof -
  have a: "100 \<le> USIZE_MAX" "uint (cfg_gas_expbyte shanghai) < 2 ^ 32" "cfg_gas_expbyte shanghai = 50"
    by (simp_all add: USIZE_MAX_def shanghai_def config_with_derived_values_def DerivedConfigInputs_shanghai_def)
  show ?thesis
    using gas_formulas [OF a(1,2), of 33 42 0 256] gas_formulas [OF a(1,2), of 33 319 0 256] a(3) by auto
qed


definition idle_handler :: "unit Handler" where
  "idle_handler = \<lparr>h_is_cold = \<lambda>a i s. (Inr True, s), h_exists = \<lambda>a s. True, h_deleted = \<lambda>a s. False,
     h_balance = \<lambda>a s. 0, h_storage = \<lambda>a i s. (Inr 0, s), h_original_storage = \<lambda>a i s. (Inr 0, s),
     h_record_external_operation = \<lambda>x s. (Inr (), s)\<rparr>"


end
