(* ===== verification/Evm_Gas_Stack.thy ===== *)
theory Evm_Gas_Stack
  imports Evm_Executor Evm_Gas_Props Evm_Substate_Props
begin

text \<open>
  The gas of an executor: the gasometers of its frames, innermost first.  The invariant \<open>gas_stack_ok\<close> says that every
  gasometer is within its limit and that the gas limit of a frame was paid by the frame below, so that what is left of it
  can be given back.  Every operation of the executor keeps the invariant and creates no gas, apart from the stipend of a
  call that transfers value.
\<close>

section \<open>The gasometers of the frames\<close>

definition gas_stack :: "Exec \<Rightarrow> Gasometer list" where
  "gas_stack X = map (\<lambda>f. md_gasometer (f_metadata f)) (frames (ex_state X))"

definition gas_left :: "Gasometer \<Rightarrow> int" where
  "gas_left g = uint (gas g)"

fun gas_stack_ok :: "Config \<Rightarrow> Gasometer list \<Rightarrow> bool" where
  "gas_stack_ok c [] \<longleftrightarrow> False"
| "gas_stack_ok c [g] \<longleftrightarrow> gasometer_ok g \<and> gm_config g = c \<and> uint (gm_gas_limit g) \<le> 2 ^ 62"
| "gas_stack_ok c (g # p # gs) \<longleftrightarrow> gasometer_ok g \<and> gm_config g = c
     \<and> (\<exists>i. gm_inner p = Inr i \<and> uint (gm_gas_limit g) \<le> uint (inner_used_gas i)) \<and> gas_stack_ok c (p # gs)"

lemma gas_stack_okD:
  assumes "gas_stack_ok c (g # gs)"
  shows "gasometer_ok g" "gm_config g = c" "uint (gm_gas_limit g) \<le> 2 ^ 62"
proof -
  show "gasometer_ok g" "gm_config g = c"
    using assms by (cases gs; simp)+
  show "uint (gm_gas_limit g) \<le> 2 ^ 62"
    using assms
  proof (induction gs arbitrary: g)
    case (Cons p gs)
    obtain i where i: "gm_inner p = Inr i" "uint (gm_gas_limit g) \<le> uint (inner_used_gas i)" and p: "gas_stack_ok c (p # gs)"
      using Cons.prems by auto
    have "gasometer_ok p" "uint (gm_gas_limit p) \<le> 2 ^ 62"
      using p Cons.IH [OF p] by (cases gs; simp)+
    then show ?case
      using i by (simp add: gasometer_ok_def) (smt (verit) uint_nonnegative)
  qed simp
qed

lemma gas_stack_ok_head:
  assumes "gas_stack_ok c (g # gs)" "gasometer_ok g'" "gm_config g' = c" "gm_gas_limit g' = gm_gas_limit g"
  shows "gas_stack_ok c (g' # gs)"
  using assms by (cases gs) auto

lemma gas_stack_ok_tl: "gas_stack_ok c (g # p # gs) \<Longrightarrow> gas_stack_ok c (p # gs)"
  by simp

lemma gas_left_nonneg [simp]: "0 \<le> gas_left g"
  by (simp add: gas_left_def)

section \<open>Operations that use no gas\<close>

lemma put_account_metadata [simp]: "metadata (put_account a acc s) = metadata s"
  by (simp add: put_account_def metadata_def)

lemma account_mut_metadata: "account_mut B a s = (acc, s') \<Longrightarrow> metadata s' = metadata s"
  by (auto simp: account_mut_def Let_def split: option.splits)

lemma frame_update_metadata [simp]:
  "metadata (s\<lparr>ms_frame := (ms_frame s)\<lparr>f_storages := x1\<rparr>\<rparr>) = metadata s"
  "metadata (s\<lparr>ms_frame := (ms_frame s)\<lparr>f_logs := x2\<rparr>\<rparr>) = metadata s"
  "metadata (s\<lparr>ms_frame := (ms_frame s)\<lparr>f_deletes := x3\<rparr>\<rparr>) = metadata s"
  by (simp_all add: metadata_def)

lemma operation_metadata [simp]:
  "metadata (snd (inc_nonce B a s)) = metadata s"
  "metadata (set_storage a k v s) = metadata s"
  "metadata (reset_storage B a s) = metadata s"
  "metadata (log_event a ts d s) = metadata s"
  "metadata (set_deleted a s) = metadata s"
  "metadata (set_code B a code s) = metadata s"
  "metadata (reset_balance B a s) = metadata s"
  by (auto simp: inc_nonce_def set_storage_def reset_storage_def log_event_def set_deleted_def set_code_def
      reset_balance_def Let_def split: prod.splits dest!: account_mut_metadata)

lemma touch_metadata [simp]: "metadata (touch B a s) = metadata s"
  unfolding touch_def by (metis account_mut_metadata prod.collapse)

lemma transfer_metadata [simp]: "metadata (snd (transfer_value B t s)) = metadata s"
  by (auto simp: transfer_value_def Let_def split: prod.splits dest!: account_mut_metadata)

lemma gas_stack_eq:
  "gas_stack X = md_gasometer (exec_md X) # map (\<lambda>f. md_gasometer (f_metadata f)) (ms_parents (ex_state X))"
  by (simp add: gas_stack_def frames_def exec_md_def metadata_def)

lemma gas_stack_exec_state:
  assumes "metadata (h (ex_state X)) = metadata (ex_state X)" "ms_parents (h (ex_state X)) = ms_parents (ex_state X)"
  shows "gas_stack (exec_state h X) = gas_stack X"
  using assms by (simp add: gas_stack_eq exec_state_def exec_md_def)

lemma gas_stack_exec_substate:
  assumes "metadata (snd (h (ex_state X))) = metadata (ex_state X)" "ms_parents (snd (h (ex_state X))) = ms_parents (ex_state X)"
  shows "gas_stack (snd (exec_substate h X)) = gas_stack X"
  using assms by (cases "h (ex_state X)") (simp add: gas_stack_eq exec_substate_def exec_md_def)

lemma gas_stack_simps [simp]:
  "gas_stack (exec_state (reset_storage B a) X) = gas_stack X"
  "gas_stack (exec_state (set_storage a k v) X) = gas_stack X"
  "gas_stack (exec_state (log_event a ts d) X) = gas_stack X"
  "gas_stack (exec_state (set_deleted a) X) = gas_stack X"
  "gas_stack (exec_state (set_code B a code) X) = gas_stack X"
  "gas_stack (exec_state (reset_balance B a) X) = gas_stack X"
  "gas_stack (exec_state (touch B a) X) = gas_stack X"
  "gas_stack (snd (exec_substate (inc_nonce B a) X)) = gas_stack X"
  "gas_stack (snd (exec_substate (transfer_value B t) X)) = gas_stack X"
  "gas_stack (snd (record_external_operation op X)) = gas_stack X"
  "gas_stack (record_read a k v X) = gas_stack X"
  by (simp_all add: gas_stack_exec_state gas_stack_exec_substate record_external_operation_def)
    (simp add: gas_stack_def record_read_def)

lemma gas_stack_metadata:
  "md_gasometer (h (exec_md X)) = md_gasometer (exec_md X) \<Longrightarrow> gas_stack (exec_metadata h X) = gas_stack X"
  by (simp add: gas_stack_eq exec_metadata_def exec_state_def exec_md_def metadata_mut_def) (simp add: metadata_def)

lemma gas_stack_access [simp]:
  "gas_stack (exec_metadata (access_address a) X) = gas_stack X"
  "gas_stack (exec_metadata (access_addresses as) X) = gas_stack X"
  "gas_stack (exec_metadata (access_storage a k) X) = gas_stack X"
  "gas_stack (exec_metadata (access_storages ks) X) = gas_stack X"
  by (simp_all add: gas_stack_metadata access_address_def access_addresses_def access_storage_def access_storages_def)

lemma gas_stack_access_target [simp]: "gas_stack (access_target t X) = gas_stack X"
  by (simp add: access_target_def split: StorageTarget.split)

lemma gas_stack_initialize [simp]: "gas_stack (initialize_with_access_list al X) = gas_stack X"
  by (simp add: initialize_with_access_list_def Let_def)

lemma gas_stack_warm [simp]: "gas_stack (warm_addresses E a b al X) = gas_stack X"
  by (simp add: warm_addresses_def Let_def)

section \<open>Operations on the gasometers\<close>

lemma gas_stack_set_gasometer:
  "gas_stack X = g # gs \<Longrightarrow> gas_stack (exec_metadata (\<lambda>md. md\<lparr>md_gasometer := g'\<rparr>) X) = g' # gs"
  by (simp add: gas_stack_eq exec_metadata_def exec_state_def exec_md_def metadata_mut_def) (simp add: metadata_def)

lemma gas_stack_exec_gas:
  "gas_stack X = g # gs \<Longrightarrow> exec_gas h X = (r, Y) \<Longrightarrow> \<exists>g'. h g = (r, g') \<and> gas_stack Y = g' # gs"
  by (auto simp: exec_gas_def gas_stack_eq [of X] intro: gas_stack_set_gasometer split: prod.splits)

lemma gas_stack_enter:
  "gas_stack X = g # gs \<Longrightarrow> gas_stack (enter_substate limit st X) = Gasometer_new limit (gm_config g) # g # gs"
  by (auto simp: gas_stack_eq enter_substate_def exec_state_def exec_md_def enter_def metadata_def Frame_new_def spit_child_def)

lemma gas_remaining_left: "gas_stack X = g # gs \<Longrightarrow> gas_remaining X = gas g"
  by (simp add: gas_remaining_def gas_stack_eq)

definition give_back :: "StackExitKind \<Rightarrow> Gasometer \<Rightarrow> Gasometer \<Rightarrow> (ExitError + unit) \<times> Gasometer" where
  "give_back kind g p = (case kind of
     Succeeded \<Rightarrow> (case record_stipend (gas g) p of
         (Inl e, p) \<Rightarrow> (Inl e, p)
       | (Inr _, p) \<Rightarrow> record_refund (refunded_gas g) p)
   | RevertedKind \<Rightarrow> record_stipend (gas g) p
   | Failed \<Rightarrow> (Inr (), p))"

lemma exit_substate_gas:
  assumes "gas_stack X = g # p # gs"
  shows "\<exists>Y. exit_substate kind X = Some (fst (give_back kind g p), Y) \<and> gas_stack Y = snd (give_back kind g p) # gs"
proof -
  obtain f fs where fs: "ms_parents (ex_state X) = f # fs" "md_gasometer (f_metadata f) = p"
    "map (\<lambda>f. md_gasometer (f_metadata f)) fs = gs" and g: "md_gasometer (f_metadata (ms_frame (ex_state X))) = g"
    using assms by (auto simp: gas_stack_eq exec_md_def metadata_def)
  show ?thesis
    using fs g
    by (cases kind)
      (auto simp: exit_substate_def exit_commit_def exit_revert_def exit_discard_def commit_frame_def swallow_commit_def
        swallow_revert_def swallow_discard_def give_back_def gas_stack_def frames_def metadata_def Let_def
        split: prod.splits sum.splits)
qed

lemma gas_left_Inr:
  "gasometer_ok g \<Longrightarrow> gm_inner g = Inr i \<Longrightarrow>
     gas_left g = uint (gm_gas_limit g) - uint (inner_used_gas i) - uint (inner_memory_gas i)"
  by (simp add: gas_left_def gas_Inr)

lemma gas_left_Inl: "gm_inner g = Inl e \<Longrightarrow> gas_left g = 0"
  by (simp add: gas_left_def gas_def)

lemma gas_left_le_limit: "gasometer_ok g \<Longrightarrow> gas_left g \<le> uint (gm_gas_limit g)"
proof (cases "gm_inner g")
  case (Inr i)
  assume "gasometer_ok g"
  from gas_left_Inr [OF this Inr] show ?thesis
    using uint_u64(1) [of "inner_used_gas i"] uint_u64(1) [of "inner_memory_gas i"] by linarith
qed (simp add: gas_left_Inl)

lemma give_back_ok:
  assumes "gas_stack_ok c (g # p # gs)"
  shows "gas_stack_ok c (snd (give_back kind g p) # gs)" "gas_left (snd (give_back kind g p)) \<le> gas_left p + gas_left g"
    and "fst (give_back kind g p) = Inr ()"
proof -
  obtain i where i: "gm_inner p = Inr i" "uint (gm_gas_limit g) \<le> uint (inner_used_gas i)" and p: "gas_stack_ok c (p # gs)"
    using assms by auto
  note okp = gas_stack_okD [OF p]
  have "gas_left g \<le> uint (inner_used_gas i)"
    using gas_left_le_limit [OF gas_stack_okD(1) [OF assms]] i(2) by simp
  then have used: "uint (inner_used_gas i - gas g) = uint (inner_used_gas i) - gas_left g"
    unfolding gas_left_def by (rule uint_sub_u64)
  define j where "j r = i\<lparr>inner_used_gas := inner_used_gas i - gas g, inner_refunded_gas := r\<rparr>" for r
  have given: "gas_stack_ok c (p\<lparr>gm_inner := Inr (j r)\<rparr> # gs) \<and> gas_left (p\<lparr>gm_inner := Inr (j r)\<rparr>) = gas_left p + gas_left g" for r
  proof -
    have ok: "gasometer_ok (p\<lparr>gm_inner := Inr (j r)\<rparr>)"
      using okp(1) i(1) used gas_left_nonneg [of g] unfolding gasometer_ok_def j_def by (simp del: gas_left_nonneg)
    have "gas_left (p\<lparr>gm_inner := Inr (j r)\<rparr>) = gas_left p + gas_left g"
      using gas_left_Inr [OF ok, of "j r"] gas_left_Inr [OF okp(1) i(1)] used by (simp add: j_def)
    moreover have "gas_stack_ok c (p\<lparr>gm_inner := Inr (j r)\<rparr> # gs)"
      by (rule gas_stack_ok_head [OF p ok]) (use okp(2) in simp_all)
    ultimately show ?thesis by simp
  qed
  have "give_back Succeeded g p = (Inr (), p\<lparr>gm_inner := Inr (j (inner_refunded_gas i + refunded_gas g))\<rparr>)"
    "give_back RevertedKind g p = (Inr (), p\<lparr>gm_inner := Inr (j (inner_refunded_gas i))\<rparr>)"
    "give_back Failed g p = (Inr (), p)"
    by (simp_all add: give_back_def record_stipend_def record_refund_def i(1) j_def)
  then show "gas_stack_ok c (snd (give_back kind g p) # gs)" "gas_left (snd (give_back kind g p)) \<le> gas_left p + gas_left g"
    "fst (give_back kind g p) = Inr ()"
    using given p by (cases kind; simp)+
qed

lemma record_cost_stack:
  assumes "gas_stack X = g # gs" "gas_stack_ok c (g # gs)" "uint cost \<le> 2 ^ 62" "exec_gas (record_cost cost) X = (r, Y)"
  shows "\<exists>g'. gas_stack Y = g' # gs \<and> gas_stack_ok c (g' # gs) \<and>
    (case r of Inl _ \<Rightarrow> gas_left g' = 0 \<and> (\<exists>e. gm_inner g' = Inl e)
     | Inr _ \<Rightarrow> gas_left g' + uint cost = gas_left g \<and>
         (\<exists>i i'. gm_inner g = Inr i \<and> gm_inner g' = Inr i' \<and> uint (inner_used_gas i') = uint (inner_used_gas i) + uint cost))"
proof -
  note ok = gas_stack_okD [OF assms(2)]
  obtain g' where g': "record_cost cost g = (r, g')" "gas_stack Y = g' # gs"
    using gas_stack_exec_gas [OF assms(1,4)] by auto
  have lim: "uint (gm_gas_limit g) + uint cost < 2 ^ 64"
    using ok(3) assms(3) by simp
  note spec = record_cost_ok [OF ok(1) lim g'(1)]
  have head: "gas_stack_ok c (g' # gs)"
    using spec ok(2) by (intro gas_stack_ok_head [OF assms(2)]) simp_all
  show ?thesis
  proof (cases r)
    case (Inl e)
    then have "\<exists>e. gm_inner g' = Inl e"
      using g'(1) by (auto simp: record_cost_def Let_def split: if_splits sum.splits)
    then show ?thesis using g'(2) head spec Inl by (simp add: gas_left_def)
  next
    case (Inr u)
    then obtain i where i: "gm_inner g = Inr i" "gm_inner g' = Inr (i\<lparr>inner_used_gas := inner_used_gas i + cost\<rparr>)"
      using g'(1) by (auto simp: record_cost_def Let_def split: if_splits sum.splits)
    have "uint (inner_used_gas i) + uint (inner_memory_gas i) \<le> uint (gm_gas_limit g)"
      using ok(1) i(1) by (simp add: gasometer_ok_def)
    then have "uint (inner_used_gas i + cost) = uint (inner_used_gas i) + uint cost"
      using lim uint_u64(1) [of "inner_memory_gas i"] by (intro uint_add_u64) linarith
    then show ?thesis using g'(2) head spec i Inr by (simp add: gas_left_def)
  qed
qed

lemma record_cost_le:
  assumes "gas_stack X = g # gs" "gas_stack_ok c (g # gs)" "uint cost \<le> 2 ^ 62" "exec_gas (record_cost cost) X = (r, Y)"
  shows "\<exists>g'. gas_stack Y = g' # gs \<and> gas_stack_ok c (g' # gs) \<and> gas_left g' \<le> gas_left g"
proof -
  obtain g' where g': "gas_stack Y = g' # gs" "gas_stack_ok c (g' # gs)"
    "case r of Inl _ \<Rightarrow> gas_left g' = 0 | Inr _ \<Rightarrow> gas_left g' + uint cost = gas_left g"
    using record_cost_stack [OF assms] by (cases r) auto
  have "gas_left g' \<le> gas_left g"
  proof (cases r)
    case (Inr u)
    then have "gas_left g' + uint cost = gas_left g" using g'(3) by simp
    then show ?thesis using uint_u64(1) [of cost] by linarith
  qed (use g'(3) in simp)
  then show ?thesis using g' by blast
qed

section \<open>Calls and creations\<close>

text \<open>The gas within a frame and below it, and the outcome of a call or a creation: it has left its frame, or it has
  set up a fresh runtime in it.\<close>

definition gas_within :: "Config \<Rightarrow> Gasometer list \<Rightarrow> int \<Rightarrow> Exec \<Rightarrow> bool" where
  "gas_within c gs b X \<longleftrightarrow> (\<exists>g. gas_stack X = g # gs \<and> gas_stack_ok c (g # gs) \<and> gas_left g \<le> b)"

definition gas_within_frame :: "Config \<Rightarrow> Gasometer list \<Rightarrow> int \<Rightarrow> Exec \<Rightarrow> bool" where
  "gas_within_frame c gs b X \<longleftrightarrow>
     (\<exists>g p. gas_stack X = g # p # gs \<and> gas_stack_ok c (g # p # gs) \<and> gas_left g + gas_left p \<le> b)"

definition fresh_runtime :: "Config \<Rightarrow> TaggedRuntime \<Rightarrow> bool" where
  "fresh_runtime c tg \<longleftrightarrow> tg_kind tg \<noteq> KindExecute \<and>
     (\<exists>code d ctx. tg_inner tg = Runtime_new code d ctx (cfg_stack_limit c) (cfg_memory_limit c))"

lemma fresh_runtime_new:
  "kind \<noteq> KindExecute \<Longrightarrow>
     fresh_runtime c \<lparr>tg_kind = kind, tg_inner = Runtime_new code d ctx (cfg_stack_limit c) (cfg_memory_limit c)\<rparr>"
  unfolding fresh_runtime_def by (intro conjI exI) simp_all

definition call_outcome :: "Config \<Rightarrow> Gasometer list \<Rightarrow> int \<Rightarrow> (('e, TaggedRuntime) Capture \<times> Exec) option \<Rightarrow> bool" where
  "call_outcome c gs b res \<longleftrightarrow> (\<exists>r Y. res = Some (r, Y) \<and> (case r of
     CaptureExit _ \<Rightarrow> gas_within c gs b Y
   | CaptureTrap tg \<Rightarrow> fresh_runtime c tg \<and> gas_within_frame c gs b Y))"

lemma gas_within_stack: "gas_stack Y = gas_stack X \<Longrightarrow> gas_within c gs b Y \<longleftrightarrow> gas_within c gs b X"
  by (simp add: gas_within_def)

lemma gas_within_frame_stack: "gas_stack Y = gas_stack X \<Longrightarrow> gas_within_frame c gs b Y \<longleftrightarrow> gas_within_frame c gs b X"
  by (simp add: gas_within_frame_def)

lemma gas_within_mono: "gas_within c gs b X \<Longrightarrow> b \<le> b' \<Longrightarrow> gas_within c gs b' X"
  by (auto simp: gas_within_def)

lemma call_outcome_mono: "call_outcome c gs b res \<Longrightarrow> b \<le> b' \<Longrightarrow> call_outcome c gs b' res"
  unfolding call_outcome_def gas_within_def gas_within_frame_def
  by (elim exE conjE, intro exI conjI, assumption) (auto split: Capture.splits)

lemma call_outcome_exit:
  "gas_within c gs b X \<Longrightarrow> call_outcome c gs b (create_exit reason X)"
  "gas_within c gs b X \<Longrightarrow> call_outcome c gs b (call_exit reason out X)"
  by (simp_all add: call_outcome_def create_exit_def call_exit_def)

lemma leave_within:
  assumes "gas_within_frame c gs b X"
  shows "\<exists>Y. leave kind k X = k Y \<and> gas_within c gs b Y"
proof -
  obtain g p where X: "gas_stack X = g # p # gs" "gas_stack_ok c (g # p # gs)" "gas_left g + gas_left p \<le> b"
    using assms by (auto simp: gas_within_frame_def)
  obtain Y where Y: "exit_substate kind X = Some (fst (give_back kind g p), Y)" "gas_stack Y = snd (give_back kind g p) # gs"
    using exit_substate_gas [OF X(1)] by blast
  then show ?thesis
    using give_back_ok [OF X(2), of kind] X(3) by (auto simp: leave_def gas_within_def)
qed

lemma call_outcome_leave:
  assumes "gas_within_frame c gs b X" "\<And>Y. gas_within c gs b Y \<Longrightarrow> call_outcome c gs b (k Y)"
  shows "call_outcome c gs b (leave kind k X)"
  using leave_within [OF assms(1), of kind k] assms(2) by auto

lemma call_outcome_or_fail:
  assumes "P (snd res)" "\<And>e Y. P Y \<Longrightarrow> call_outcome c gs b (err e Y)" "\<And>v Y. P Y \<Longrightarrow> call_outcome c gs b (k v Y)"
  shows "call_outcome c gs b (or_fail res err k)"
  using assms by (cases res) (auto simp: or_fail_def split: sum.split)

lemma call_outcome_trap:
  "fresh_runtime c tg \<Longrightarrow> gas_within_frame c gs b X \<Longrightarrow> call_outcome c gs b (Some (CaptureTrap tg, X))"
  by (simp add: call_outcome_def)

lemma gas_within_frame_cost:
  assumes "gas_within_frame c gs b X" "uint cost \<le> 2 ^ 62"
  shows "gas_within_frame c gs b (snd (exec_gas (record_cost cost) X))"
proof -
  obtain g p where X: "gas_stack X = g # p # gs" "gas_stack_ok c (g # p # gs)" "gas_left g + gas_left p \<le> b"
    using assms by (auto simp: gas_within_frame_def)
  obtain r Y where Y: "exec_gas (record_cost cost) X = (r, Y)" by fastforce
  obtain g' where g': "gas_stack Y = g' # p # gs" "gas_stack_ok c (g' # p # gs)" "gas_left g' \<le> gas_left g"
    using record_cost_le [OF X(1,2) assms(2) Y] by blast
  then show ?thesis
    using X(3) Y by (auto simp: gas_within_frame_def)
qed

lemma gas_within_frame_fail:
  assumes "gas_within_frame c gs b X"
  shows "gas_within_frame c gs b (gas_fail X)"
proof -
  obtain g p where X: "gas_stack X = g # p # gs" "gas_stack_ok c (g # p # gs)" "gas_left g + gas_left p \<le> b"
    using assms by (auto simp: gas_within_frame_def)
  obtain r Y where Y: "exec_gas fail X = (r, Y)" by fastforce
  then have Y': "gas_stack Y = g\<lparr>gm_inner := Inl OutOfGas\<rparr> # p # gs"
    using gas_stack_exec_gas [OF X(1) Y] by (auto simp: fail_def)
  have "gas_stack_ok c (g\<lparr>gm_inner := Inl OutOfGas\<rparr> # p # gs)"
    using X(2) by (simp add: gasometer_ok_def)
  moreover have "gas_left (g\<lparr>gm_inner := Inl OutOfGas\<rparr>) = 0"
    by (simp add: gas_left_def gas_def)
  ultimately show ?thesis
    using X(3) Y Y' gas_left_nonneg [of g] by (simp add: gas_fail_def gas_within_frame_def del: gas_left_nonneg)
qed

text \<open>What is assumed of the precompiles: prices of at most \<open>2 ^ 62\<close>, as for the gas limits.\<close>

definition precompiles_ok :: "PrecompileSet \<Rightarrow> bool" where
  "precompiles_ok ps \<longleftrightarrow> (\<forall>a f input limit ctx st. map_of ps a = Some f \<longrightarrow> (case f input limit ctx st of
     Inr (output, cost) \<Rightarrow> uint cost \<le> 2 ^ 62 | Inl _ \<Rightarrow> True))"

lemma precompile_execute_within:
  assumes "precompiles_ok (env_precompiles E)" "gas_within_frame c gs b X"
  shows "gas_within_frame c gs b (snd (precompile_execute E a input limit ctx st X))"
proof (cases "map_of (env_precompiles E) a")
  case (Some f)
  then have "case f input (Some limit) ctx st of Inr (output, cost) \<Rightarrow> uint cost \<le> 2 ^ 62 | Inl _ \<Rightarrow> True"
    using assms(1) by (simp add: precompiles_ok_def)
  then show ?thesis
    using Some assms(2) gas_within_frame_cost [OF assms(2)]
    by (auto simp: precompile_execute_def or_fail_def split: sum.splits prod.splits) force+
qed (use assms(2) in \<open>simp add: precompile_execute_def\<close>)

lemma call_code_outcome:
  assumes "precompiles_ok (env_precompiles E)" "c = env_config E" "gas_within_frame c gs b X"
  shows "call_outcome c gs b (call_code E a input limit ctx code X)"
proof -
  obtain r Y where Y: "precompile_execute E a input limit ctx (md_is_static (exec_md X)) X = (r, Y)" by fastforce
  then have "gas_within_frame c gs b Y"
    using precompile_execute_within [OF assms(1,3), of a input limit ctx "md_is_static (exec_md X)"] by simp
  then show ?thesis
    using assms(2) unfolding call_code_def Y
    by (auto intro!: call_outcome_leave call_outcome_exit call_outcome_trap gas_within_frame_fail fresh_runtime_new
        split: option.split sum.split PrecompileFailure.split)
qed

lemma call_in_substate_outcome:
  assumes "precompiles_ok (env_precompiles E)" "c = env_config E" "gas_within_frame c gs b X"
  shows "call_outcome c gs b (call_in_substate E a t input limit ctx X)"
  unfolding call_in_substate_def Let_def
  using assms
  by (auto intro!: call_outcome_or_fail [where P = "gas_within_frame c gs b"] call_outcome_leave call_outcome_exit
      call_code_outcome simp: gas_within_frame_stack [OF gas_stack_simps(7)] gas_within_frame_stack [OF gas_stack_simps(10)]
      gas_within_frame_stack [OF gas_stack_simps(9)] split: option.split)

lemma uint_l64: "uint (l64 g) \<le> uint g"
proof -
  have d: "uint (g div 64) = uint g div 64"
    by (simp add: uint_div)
  have "x div 64 \<le> x \<and> 0 \<le> x div 64" if "0 \<le> x" for x :: int
    using that by presburger
  then have le: "uint g div 64 \<le> uint g" "0 \<le> uint g div 64"
    using uint_u64(1) [of g] by blast+
  have "uint (l64 g) = uint g - uint g div 64"
    unfolding l64_def using le(1) by (subst uint_sub_u64) (simp_all add: d)
  then show ?thesis
    using le(2) by simp
qed

definition paid :: "int \<Rightarrow> Gasometer \<Rightarrow> bool" where
  "paid n g \<longleftrightarrow> (\<forall>i. gm_inner g = Inr i \<longrightarrow> n \<le> uint (inner_used_gas i))"

lemma paid_0 [simp]: "paid 0 g"
  by (simp add: paid_def)

lemma after_gas_stack:
  assumes "gas_stack X = g # gs" "gas_stack_ok c (g # gs)" "paid n g" "after_gas E tk X = (r, Y)"
  shows "\<exists>g'. gas_stack Y = g' # gs \<and> gas_stack_ok c (g' # gs) \<and> paid n g' \<and> gas_left g' \<le> gas_left g
    \<and> (\<forall>a. r = Inr a \<longrightarrow> uint a \<le> gas_left g')"
proof (cases "tk \<and> cfg_call_l64_after_gas (env_config E) \<and> cfg_estimate (env_config E)")
  case True
  let ?d = "gas g - l64 (gas g)"
  obtain r1 X1 where X1: "exec_gas (record_cost ?d) X = (r1, X1)" by fastforce
  have le: "uint ?d \<le> uint (gas g)"
    using uint_l64 [of "gas g"] uint_u64(1) [of "l64 (gas g)"] by (subst uint_sub_u64) simp_all
  then have d: "uint ?d \<le> 2 ^ 62"
    using gas_left_le_limit [OF gas_stack_okD(1) [OF assms(2)]] gas_stack_okD(3) [OF assms(2)] unfolding gas_left_def by linarith
  obtain g' where g': "gas_stack X1 = g' # gs" "gas_stack_ok c (g' # gs)" "gas_left g' \<le> gas_left g"
    using record_cost_le [OF assms(1,2) d X1] by blast
  have "paid n g'"
  proof (cases r1)
    case (Inr u)
    then show ?thesis
      using record_cost_stack [OF assms(1,2) d X1] g'(1) assms(3) by (auto simp: paid_def intro: add_increasing2)
  qed (use record_cost_stack [OF assms(1,2) d X1] g'(1) in \<open>auto simp: paid_def\<close>)
  then show ?thesis
    using assms(4) True X1 g' gas_remaining_left [OF assms(1)] gas_remaining_left [OF g'(1)]
    by (auto simp: after_gas_def or_fail_def gas_left_def split: sum.splits)
next
  case False
  then show ?thesis
    using assms uint_l64 [of "gas g"] gas_remaining_left [OF assms(1)]
    by (auto simp: after_gas_def gas_left_def split: if_splits)
qed

lemma or_fail_Inr: "or_fail (Inr v, X) err k = k v X"
  by (simp add: or_fail_def)

text \<open>Paying the gas limit of a new frame and entering it.\<close>

lemma enter_outcome:
  assumes "gas_stack X = g # gs" "gas_stack_ok c (g # gs)" "paid n g" "0 \<le> n" "uint a \<le> gas_left g"
    and "uint limit \<le> uint a" "gas_left g + n \<le> b"
    and "uint limit' \<le> uint limit + n"
    and exit: "\<And>e Y. gas_within c gs b Y \<Longrightarrow> call_outcome c gs b (err e Y)"
    and enter: "\<And>Y. gas_within_frame c gs b Y \<Longrightarrow> call_outcome c gs b (k Y)"
  shows "call_outcome c gs b (or_fail (exec_gas (record_cost limit) X) err (\<lambda>_ X. k (enter_substate limit' st X)))"
proof -
  obtain r Y where Y: "exec_gas (record_cost limit) X = (r, Y)" by fastforce
  have limit: "uint limit \<le> 2 ^ 62"
    using assms(5,6) gas_left_le_limit [OF gas_stack_okD(1) [OF assms(2)]] gas_stack_okD(3) [OF assms(2)] by linarith
  show ?thesis
  proof (cases r)
    case (Inl e)
    obtain g' where "gas_stack Y = g' # gs" "gas_stack_ok c (g' # gs)" "gas_left g' \<le> gas_left g"
      using record_cost_le [OF assms(1,2) limit Y] by blast
    then have "gas_within c gs b Y"
      using assms(4,7) by (auto simp: gas_within_def)
    then show ?thesis using Inl Y exit by (simp add: or_fail_def)
  next
    case (Inr u)
    obtain g' i i' where g': "gas_stack Y = g' # gs" "gas_stack_ok c (g' # gs)" "gas_left g' + uint limit = gas_left g"
      "gm_inner g = Inr i" "gm_inner g' = Inr i'" "uint (inner_used_gas i') = uint (inner_used_gas i) + uint limit"
      using record_cost_stack [OF assms(1,2) limit Y] Inr by auto
    have new: "gas_left (Gasometer_new limit' c) = uint limit'" "gm_gas_limit (Gasometer_new limit' c) = limit'"
      "gm_config (Gasometer_new limit' c) = c"
      by (simp_all add: gas_left_def gas_def Gasometer_new_def)
    have "gas_stack_ok c (Gasometer_new limit' c # g' # gs)"
      using g' assms(3,8) new by (auto simp: paid_def)
    moreover have "gas_left (Gasometer_new limit' c) + gas_left g' \<le> b"
      using new g'(3) assms(7,8) by simp
    ultimately have "gas_within_frame c gs b (enter_substate limit' st Y)"
      using gas_stack_enter [OF g'(1), of limit' st] gas_stack_okD(2) [OF g'(2)] by (auto simp: gas_within_frame_def)
    then show ?thesis using Inr Y enter by (simp add: or_fail_def)
  qed
qed

lemma uint_saturating_add: "uint (saturating_add a b :: u64) \<le> uint a + uint b"
proof -
  have "unat (saturating_add a b) \<le> unat a + unat b"
    by (simp add: unat_saturating_add)
  then show ?thesis
    unfolding uint_nat by (metis of_nat_add of_nat_mono)
qed

lemma call_inner_outcome:
  assumes E: "precompiles_ok (env_precompiles E)" "c = env_config E"
    and X: "gas_stack X = g # gs" "gas_stack_ok c (g # gs)"
    and n: "n = (case t of Some tr \<Rightarrow> if take_stipend \<and> tr_value tr \<noteq> 0 then uint (cfg_call_stipend c) else 0 | None \<Rightarrow> 0)"
    and "paid n g"
  shows "call_outcome c gs (gas_left g + n) (call_inner E a t input target_gas st l take_stipend ctx X)"
proof -
  have n0: "0 \<le> n"
    using n by (simp split: option.splits)
  obtain r Y where Y: "after_gas E l X = (r, Y)" by fastforce
  obtain g' where g': "gas_stack Y = g' # gs" "gas_stack_ok c (g' # gs)" "paid n g'" "gas_left g' \<le> gas_left g"
    "\<And>a. r = Inr a \<Longrightarrow> uint a \<le> gas_left g'"
    using after_gas_stack [OF X assms(6) Y] by blast
  show ?thesis
  proof (cases r)
    case (Inl e)
    then show ?thesis
      using Y g' n0 by (auto simp: call_inner_def or_fail_def gas_within_def intro!: call_outcome_exit)
  next
    case (Inr after)
    define limit where "limit = min (case target_gas of Some x \<Rightarrow> x | None \<Rightarrow> after) after"
    have limit: "uint limit \<le> uint after"
      by (simp add: limit_def word_le_def [symmetric])
    define limit' where "limit' = (case t of
        Some tr \<Rightarrow> if take_stipend \<and> tr_value tr \<noteq> 0 then saturating_add limit (cfg_call_stipend c) else limit
      | None \<Rightarrow> limit)"
    have limit': "uint limit' \<le> uint limit + n"
      using uint_saturating_add [of limit "cfg_call_stipend c"] by (simp add: limit'_def n split: option.split)
    have "call_inner E a t input target_gas st l take_stipend ctx X =
        or_fail (exec_gas (record_cost limit) Y) (\<lambda>e. call_exit (Error e) [])
          (\<lambda>_ X. call_in_substate E a t input limit' ctx (enter_substate limit' st X))"
      unfolding call_inner_def Let_def limit'_def limit_def Y Inr or_fail_Inr E(2) ..
    then show ?thesis
      using enter_outcome [OF g'(1,2,3) n0 g'(5) [OF Inr] limit _ limit', of "gas_left g + n"
          "\<lambda>e. call_exit (Error e) []" "call_in_substate E a t input limit' ctx" st] g'(4)
        call_in_substate_outcome [OF E] call_outcome_exit(2)
      by simp
  qed
qed

text \<open>The nonce of a new contract is zero, so that incrementing it does not fail.\<close>

lemma state_basic_put_account:
  "state_basic B (put_account a acc s) b = (if b = a then msa_basic acc else state_basic B s b)"
  by (simp add: state_basic_def known_basic_def known_account_def frames_def put_account_def update_conv')

lemma account_mut_basic:
  assumes "account_mut B a s = (acc, s')"
  shows "msa_basic acc = state_basic B s a" "state_basic B s' b = state_basic B s b"
proof -
  show acc: "msa_basic acc = state_basic B s a"
    using assms
    by (auto simp: account_mut_def state_basic_def known_basic_def known_account_def frames_def Let_def split: option.splits)
  show "state_basic B s' b = state_basic B s b"
    using assms acc by (auto simp: account_mut_def state_basic_put_account Let_def split: option.splits)
qed

lemma nonce_reset_storage: "nonce (state_basic B (reset_storage B a s) b) = nonce (state_basic B s b)"
proof -
  define s1 where "s1 = s\<lparr>ms_frame := (ms_frame s)\<lparr>f_storages := fold (\<lambda>ok. AList.delete (a, ok))
    (map (\<lambda>((_, ok), _). ok) (filter (\<lambda>((oa, _), _). oa = a) (f_storages (ms_frame s)))) (f_storages (ms_frame s))\<rparr>\<rparr>"
  have "state_basic B s1 x = state_basic B s x" for x
    by (simp add: s1_def state_basic_def known_basic_def known_account_def frames_def)
  moreover obtain acc s2 where s2: "account_mut B a s1 = (acc, s2)" by fastforce
  ultimately show ?thesis
    using account_mut_basic [OF s2] s2
    by (simp add: reset_storage_def s1_def [symmetric] Let_def state_basic_put_account)
qed

lemma nonce_transfer: "nonce (state_basic B (snd (transfer_value B t s)) b) = nonce (state_basic B s b)"
proof -
  obtain acc s1 where s1: "account_mut B (tr_source t) s = (acc, s1)" by fastforce
  define s2 where "s2 = put_account (tr_source t) (set_balance (balance (msa_basic acc) - tr_value t) acc) s1"
  obtain acc' s3 where s3: "account_mut B (tr_target t) s2 = (acc', s3)" by fastforce
  show ?thesis
    using account_mut_basic [OF s1] account_mut_basic [OF s3] s1 s3
    by (simp add: transfer_value_def s2_def [symmetric] Let_def state_basic_put_account set_balance_def)
      (simp add: s2_def state_basic_put_account set_balance_def)
qed

lemma inc_nonce_fresh:
  assumes "nonce (state_basic B s a) = 0"
  shows "fst (inc_nonce B a s) = Inr ()"
proof -
  obtain acc s' where s': "account_mut B a s = (acc, s')" by fastforce
  then show ?thesis
    using assms account_mut_basic(1) [OF s'] by (simp add: inc_nonce_def)
qed

lemma create_in_substate_outcome:
  assumes c: "c = env_config E" and X: "gas_within_frame c gs b X"
  shows "call_outcome c gs b (create_in_substate E caller address v init_code X)"
proof -
  let ?B = "env_backend E"
  let ?t = "\<lparr>tr_source = caller, tr_target = address, tr_value = v\<rparr>"
  have X1: "gas_within_frame c gs b (exec_state (reset_storage ?B address) X)"
    using X by (simp add: gas_within_frame_stack [OF gas_stack_simps(1)])
  have fresh: "fresh_runtime c \<lparr>tg_kind = KindCreate address, tg_inner = Runtime_new init_code []
      \<lparr>ctx_address = address, ctx_caller = caller, ctx_apparent_value = v\<rparr> (cfg_stack_limit (env_config E))
      (cfg_memory_limit (env_config E))\<rparr>"
    unfolding c by (rule fresh_runtime_new) simp
  have start: "call_outcome c gs b (if cfg_create_increase_nonce (env_config E)
      then or_fail (exec_substate (inc_nonce ?B address) Y) (\<lambda>e. create_exit (Error e))
        (\<lambda>_ X. Some (CaptureTrap \<lparr>tg_kind = KindCreate address, tg_inner = Runtime_new init_code []
          \<lparr>ctx_address = address, ctx_caller = caller, ctx_apparent_value = v\<rparr> (cfg_stack_limit (env_config E))
          (cfg_memory_limit (env_config E))\<rparr>, X))
      else Some (CaptureTrap \<lparr>tg_kind = KindCreate address, tg_inner = Runtime_new init_code []
          \<lparr>ctx_address = address, ctx_caller = caller, ctx_apparent_value = v\<rparr> (cfg_stack_limit (env_config E))
          (cfg_memory_limit (env_config E))\<rparr>, Y))"
    if nonce: "exec_nonce E address Y = 0" and Y: "gas_within_frame c gs b Y" for Y
  proof -
    have "fst (exec_substate (inc_nonce ?B address) Y) = Inr ()"
      using inc_nonce_fresh [of ?B "ex_state Y" address] nonce
      by (cases "inc_nonce ?B address (ex_state Y)") (simp add: exec_nonce_def exec_substate_def)
    moreover have "gas_within_frame c gs b (snd (exec_substate (inc_nonce ?B address) Y))"
      using Y by (simp add: gas_within_frame_stack [OF gas_stack_simps(8)])
    ultimately show ?thesis
      using Y fresh by (cases "exec_substate (inc_nonce ?B address) Y") (auto simp: or_fail_def intro!: call_outcome_trap)
  qed
  show ?thesis
  proof (cases "exec_code_size E address X \<noteq> 0 \<or> 0 < exec_nonce E address X")
    case True
    then show ?thesis
      using X by (auto simp: create_in_substate_def record_external_operation_def or_fail_def Let_def
          intro!: call_outcome_leave call_outcome_exit)
  next
    case False
    define Y where "Y = exec_state (reset_storage ?B address) X"
    obtain r Z where Z: "exec_substate (transfer_value ?B ?t) Y = (r, Z)" by fastforce
    have gZ: "gas_within_frame c gs b Z"
      using X1 Z gas_within_frame_stack [OF gas_stack_simps(9), of c gs b ?B ?t Y] unfolding Y_def by simp
    have "exec_nonce E address Z = exec_nonce E address X"
      using Z nonce_transfer [of ?B ?t "ex_state Y" address] nonce_reset_storage [of ?B address "ex_state X" address]
      by (auto simp: exec_nonce_def exec_substate_def Y_def exec_state_def split: prod.splits)
    then have nZ: "exec_nonce E address Z = 0"
      using False by (simp add: word_gt_0)
    show ?thesis
    proof (cases r)
      case (Inl e)
      then show ?thesis
        using False gZ Z
        by (auto simp: create_in_substate_def record_external_operation_def or_fail_def Y_def Let_def
            intro!: call_outcome_leave call_outcome_exit)
    next
      case (Inr u)
      then show ?thesis
        using False start [OF nZ gZ] Z
        by (auto simp: create_in_substate_def record_external_operation_def or_fail_Inr Y_def [symmetric] Let_def
            split: if_splits)
    qed
  qed
qed

lemma create_inner_outcome:
  assumes c: "c = env_config E" and X: "gas_stack X = g # gs" "gas_stack_ok c (g # gs)"
  shows "call_outcome c gs (gas_left g) (create_inner E caller scheme v init_code target_gas l X)"
proof -
  define X1 where "X1 = exec_metadata (access_address (create_address E scheme X)) (exec_metadata (access_address caller) X)"
  have X1: "gas_stack X1 = g # gs"
    using X(1) by (simp add: X1_def)
  then have within: "gas_within c gs (gas_left g) X1"
    using X(2) by (simp add: gas_within_def)
  obtain r2 X2 where X2: "exec_substate (inc_nonce (env_backend E) caller) X1 = (r2, X2)" by fastforce
  have gX2: "gas_stack X2 = g # gs"
    using gas_stack_simps(8) [of "env_backend E" caller X1] X1 X2 by simp
  obtain r3 X3 where X3: "after_gas E l X2 = (r3, X3)" by fastforce
  obtain g' where g': "gas_stack X3 = g' # gs" "gas_stack_ok c (g' # gs)" "gas_left g' \<le> gas_left g"
    "\<And>a. r3 = Inr a \<Longrightarrow> uint a \<le> gas_left g'"
    using after_gas_stack [OF gX2 X(2) paid_0 X3] by blast
  have rest: "call_outcome c gs (gas_left g) (or_fail (after_gas E l X2) (\<lambda>e. create_exit (Error e)) (\<lambda>after_gas X.
      let target_gas = (case target_gas of Some g \<Rightarrow> g | None \<Rightarrow> after_gas); limit = min after_gas target_gas
      in or_fail (exec_gas (record_cost limit) X) (\<lambda>e. create_exit (Error e)) (\<lambda>_ X.
        create_in_substate E caller (create_address E scheme X0) v init_code (enter_substate limit False X))))" for X0
  proof (cases r3)
    case (Inl e)
    then show ?thesis
      using X3 g' by (auto simp: or_fail_def gas_within_def intro!: call_outcome_exit)
  next
    case (Inr after)
    define limit where "limit = min after (case target_gas of Some g \<Rightarrow> g | None \<Rightarrow> after)"
    have limit: "uint limit \<le> uint after" "uint limit \<le> uint limit + 0"
      by (simp_all add: limit_def word_le_def [symmetric])
    have "call_outcome c gs (gas_left g) (or_fail (exec_gas (record_cost limit) X3) (\<lambda>e. create_exit (Error e)) (\<lambda>_ X.
        create_in_substate E caller (create_address E scheme X0) v init_code (enter_substate limit False X)))"
      using enter_outcome [OF g'(1,2) paid_0 order_refl g'(4) [OF Inr] limit(1) _ limit(2), of "gas_left g"
          "\<lambda>e. create_exit (Error e)" "create_in_substate E caller (create_address E scheme X0) v init_code" False] g'(3)
        create_in_substate_outcome [OF c] call_outcome_exit(1)
      by simp
    then show ?thesis
      by (simp add: X3 Inr or_fail_Inr limit_def Let_def)
  qed
  have gas2: "gas_within c gs (gas_left g) X2"
    using gX2 X(2) by (simp add: gas_within_def)
  have "call_outcome c gs (gas_left g) (or_fail (exec_substate (inc_nonce (env_backend E) caller) X1) (\<lambda>e. create_exit (Error e)) (\<lambda>_ X2.
      or_fail (after_gas E l X2) (\<lambda>e. create_exit (Error e)) (\<lambda>after_gas X.
      let target_gas = (case target_gas of Some g \<Rightarrow> g | None \<Rightarrow> after_gas); limit = min after_gas target_gas
      in or_fail (exec_gas (record_cost limit) X) (\<lambda>e. create_exit (Error e)) (\<lambda>_ X.
        create_in_substate E caller (create_address E scheme X0) v init_code (enter_substate limit False X)))))" for X0
    using rest [of X0] gas2 by (cases r2) (simp_all add: X2 or_fail_def call_outcome_exit)
  then show ?thesis
    unfolding create_inner_def Let_def X1_def [symmetric]
    using within by (auto simp: record_external_operation_def or_fail_Inr intro!: call_outcome_exit)
qed

text \<open>Configurations whose prices are positive where the code can continue, as in every hard fork of the repository.\<close>

definition prices_live :: "Config \<Rightarrow> bool" where
  "prices_live c \<longleftrightarrow> 0 < cfg_gas_sload c \<and> 0 < cfg_gas_sstore_set c \<and> 0 < cfg_gas_sstore_reset c
     \<and> cfg_call_stipend c < G_CALLVALUE
     \<and> (if cfg_increase_state_access_gas c
        then 0 < cfg_gas_account_access_cold c \<and> 0 < cfg_gas_storage_read_warm c \<and> 0 < cfg_gas_sload_cold c
        else 0 < cfg_gas_ext_code c \<and> 0 < cfg_gas_ext_code_hash c \<and> 0 < cfg_gas_balance c \<and> 0 < cfg_gas_call c)
     \<and> (case cfg_max_initcode_size c of Some limit \<Rightarrow> limit \<le> 2 ^ 32 | None \<Rightarrow> True)"

definition config_live :: "Config \<Rightarrow> bool" where
  "config_live c \<longleftrightarrow> config_ok c \<and> prices_live c"

lemma prices_live_presets: "list_all prices_live [frontier, istanbul, berlin, london, merge_fork, shanghai]"
  by (simp add: prices_live_def frontier_def istanbul_def berlin_def london_def merge_fork_def shanghai_def
      config_with_derived_values_def DerivedConfigInputs_berlin_def DerivedConfigInputs_london_def
      DerivedConfigInputs_merge_def DerivedConfigInputs_shanghai_def)

lemma config_live_presets: "list_all config_live [frontier, istanbul, berlin, london, merge_fork, shanghai]"
  using config_ok_presets prices_live_presets by (simp add: config_live_def)

lemma uint_mult_bound: "uint (x * y :: u64) \<le> uint x * uint y"
  using zmod_le_nonneg_dividend [of "uint x * uint y" "2 ^ 64"] by (simp add: uint_word_ariths(3))

lemma uint_of_nat_bound: "uint (of_nat n :: u64) \<le> int n"
  by (simp add: unsigned_of_nat take_bit_nat_less_eq_self)

lemma init_code_cost_bound:
  assumes "length d \<le> 2 ^ 32"
  shows "uint (init_code_cost d) \<le> 2 ^ 62"
proof -
  let ?w = "(of_nat (length d) + 31) div 32 :: u64"
  have "int (length d) \<le> 2 ^ 32"
    using assms by simp
  then have "uint (of_nat (length d) :: u64) \<le> 2 ^ 32"
    by (rule order_trans [OF uint_of_nat_bound])
  then have "uint (of_nat (length d) + 31 :: u64) \<le> 2 ^ 32 + 31"
    by (subst uint_add_u64) simp_all
  moreover have "uint ?w = uint (of_nat (length d) + 31 :: u64) div 32"
    by (simp add: uint_div)
  ultimately have "uint ?w \<le> 2 ^ 33"
    using zdiv_mono1 [of "uint (of_nat (length d) + 31 :: u64)" "2 ^ 32 + 31" 32] by simp
  then show ?thesis
    using uint_mult_bound [of 2 ?w] by (simp add: init_code_cost_def)
qed

lemma exec_create_outcome:
  assumes c: "c = env_config E" "config_live c" and X: "gas_stack X = g # gs" "gas_stack_ok c (g # gs)"
  shows "call_outcome c gs (gas_left g) (exec_create E caller scheme v init_code target_gas X)"
proof -
  obtain r Y where Y: "maybe_record_init_code_cost E init_code X = (r, Y)" by fastforce
  have "\<exists>g'. gas_stack Y = g' # gs \<and> gas_stack_ok c (g' # gs) \<and> gas_left g' \<le> gas_left g"
  proof (cases "cfg_max_initcode_size (env_config E)")
    case None
    then show ?thesis using X Y by (simp add: maybe_record_init_code_cost_def)
  next
    case (Some limit)
    show ?thesis
    proof (cases "limit < length init_code")
      case True
      then have "Y = gas_fail X" using Y Some by (simp add: maybe_record_init_code_cost_def)
      then have "gas_stack Y = g\<lparr>gm_inner := Inl OutOfGas\<rparr> # gs"
        using gas_stack_exec_gas [OF X(1), of fail] unfolding gas_fail_def
        by (cases "exec_gas fail X") (auto simp: fail_def)
      moreover have "gas_stack_ok c (g\<lparr>gm_inner := Inl OutOfGas\<rparr> # gs)"
        using gas_stack_okD(2) [OF X(2)] by (intro gas_stack_ok_head [OF X(2)]) (simp_all add: gasometer_ok_def)
      moreover have "gas_left (g\<lparr>gm_inner := Inl OutOfGas\<rparr>) = 0"
        by (simp add: gas_left_def gas_def)
      ultimately show ?thesis by simp
    next
      case False
      then have "uint (init_code_cost init_code) \<le> 2 ^ 62"
        using Some c by (intro init_code_cost_bound) (simp add: config_live_def prices_live_def)
      moreover have "exec_gas (record_cost (init_code_cost init_code)) X = (r, Y)"
        using Y Some False by (simp add: maybe_record_init_code_cost_def)
      ultimately show ?thesis using record_cost_le [OF X] by blast
    qed
  qed
  then obtain g' where g': "gas_stack Y = g' # gs" "gas_stack_ok c (g' # gs)" "gas_left g' \<le> gas_left g" by blast
  have inner: "call_outcome c gs (gas_left g) (create_inner E caller scheme v init_code target_gas True Y)"
    by (rule call_outcome_mono [OF create_inner_outcome [OF c(1) g'(1,2)] g'(3)])
  have gY: "gas_within c gs (gas_left g) Y"
    using g' by (auto simp: gas_within_def)
  show ?thesis
    unfolding exec_create_def Y or_fail_def using inner gY by (cases r) (simp_all add: call_outcome_exit)
qed

section \<open>Clean-up\<close>

lemma deposit_within:
  assumes "gas_within_frame c gs b X" "length d \<le> 2 ^ 40"
  shows "gas_within_frame c gs b (snd (exec_gas (record_deposit (length d)) X))"
proof -
  have "uint (of_nat (length d) * G_CODEDEPOSIT) \<le> int (length d) * 200"
    using uint_mult_bound [of "of_nat (length d)" G_CODEDEPOSIT] uint_of_nat_bound [of "length d"] by simp
  also have "\<dots> \<le> 2 ^ 62"
    using assms(2) by simp
  finally have "uint (of_nat (length d) * G_CODEDEPOSIT) \<le> 2 ^ 62" .
  from gas_within_frame_cost [OF assms(1) this] show ?thesis
    by (simp add: record_deposit_def [abs_def])
qed

definition returns_within :: "Config \<Rightarrow> Gasometer list \<Rightarrow> int \<Rightarrow> ('r \<times> Exec) option \<Rightarrow> bool" where
  "returns_within c gs b res \<longleftrightarrow> (\<exists>r Y. res = Some (r, Y) \<and> gas_within c gs b Y)"

lemma returns_within_Some: "gas_within c gs b Y \<Longrightarrow> returns_within c gs b (Some (r, Y))"
  by (simp add: returns_within_def)

lemma returns_within_leave:
  assumes "gas_within_frame c gs b X" "\<And>Y. gas_within c gs b Y \<Longrightarrow> returns_within c gs b (k Y)"
  shows "returns_within c gs b (leave kind k X)"
  using leave_within [OF assms(1), of kind k] assms(2) by auto

lemma exit_substate_within:
  "gas_within_frame c gs b X \<Longrightarrow> \<exists>r Y. exit_substate kind X = Some (r, Y) \<and> gas_within c gs b Y"
  using leave_within [of c gs b X kind "\<lambda>Y. Some Y"] by (auto simp: leave_def split: option.splits)

lemma cleanup_for_create_within:
  assumes "gas_within_frame c gs b X" "length d \<le> 2 ^ 40"
  shows "returns_within c gs b (cleanup_for_create E a reason d X)"
proof (cases reason)
  case (Succeed s)
  obtain r Y where Y: "exec_gas (record_deposit (length d)) X = (r, Y)" by fastforce
  have gY: "gas_within_frame c gs b Y"
    using deposit_within [OF assms] Y by simp
  obtain r' Z where Z: "exit_substate Succeeded Y = Some (r', Z)" "gas_within c gs b Z"
    using exit_substate_within [OF gY] by blast
  have code: "gas_within c gs b (exec_state (set_code B a d) Z)" for B
    using Z(2) by (simp add: gas_within_stack [OF gas_stack_simps(5)])
  show ?thesis
    using Succeed assms(1) Y gY Z code
    by (auto simp: cleanup_for_create_def or_fail_def record_external_operation_def Let_def
        intro!: returns_within_leave returns_within_Some gas_within_frame_fail split: sum.split option.split)
qed (use assms(1) in \<open>auto simp: cleanup_for_create_def Let_def
  intro!: returns_within_leave returns_within_Some gas_within_frame_fail\<close>)

lemma cleanup_for_call_within:
  assumes "gas_within_frame c gs b X"
  shows "returns_within c gs b (cleanup_for_call reason d X)"
  using assms by (auto simp: cleanup_for_call_def Let_def
      intro!: returns_within_leave returns_within_Some gas_within_frame_fail split: ExitReason.split)

lemma cleanup_runtime_within:
  assumes "gas_within_frame c gs b X" "return_value (rt_machine rt) = Some d" "length d \<le> 2 ^ 40" "kind \<noteq> KindExecute"
  shows "returns_within c gs b (cleanup_runtime E kind reason rt X)"
proof (cases kind)
  case (KindCall a)
  then show ?thesis
    using cleanup_for_call_within [OF assms(1), of reason d] assms(2) by (auto simp: cleanup_runtime_def returns_within_def)
qed (use cleanup_for_create_within [OF assms(1,3)] assms(2,4) in \<open>simp_all add: cleanup_runtime_def\<close>)

end
