(* ===== verification/Spec2Isabelle.thy ===== *)
theory Spec2Isabelle
  imports Chase_Core Pipeline_Bridge Evm_Substate_Props Evm_Simulation Evm_Gas_Stack
begin

text \<open>
  CHASE is an execution layer for Ethereum transactions that come ordered out of consensus in batches.
  It simulates the transactions of several batches in parallel, orders them by the state they touched,
  commits them in conflict-free groups and re-executes those that lost a conflict.  An optional
  pipelined mode (EV-BLP) overlaps ordering, execution and persistence and keeps uncommitted state in a
  two-level cache.

  \<^bold>\<open>The theories.\<close>  Paths are relative to \<open>src/crates/\<close>; \<open>chase\<close>, \<open>evm\<close> and \<open>stack\<close> stand for
  \<open>sslab-execution/chase/src\<close>, \<open>sslab-execution/evm/src\<close> and \<open>sslab-execution/stack/src\<close>.

  \<^item> \<open>Chase_Prelude\<close>: machine integers as words, the checked and saturating integer methods of Rust,
    lists as hash sets, chunking, generic lemmas.
  \<^item> \<open>Chase_Types\<close>: transactions, batches, account effects, read/write sets and the life cycle of a
    transaction (\<open>chase/types.rs\<close>, \<open>evm/types.rs\<close>, \<open>chase-evm/src/backend/mod.rs\<close>).
  \<^item> \<open>Conflict_Graph\<close>, \<open>Conflict_Graph_Props\<close>: \<open>chase/address_based_conflict_graph.rs\<close>.  Transactions
    shared through \<open>Arc\<close> live in a store indexed by id; units and addresses refer to them by id.  The
    theorems: sorting an address puts live readers before live writers and gives fresh writers
    numbers of their own; at most one updater per address survives early detection; the units are
    exactly the accesses; construction, sorting and reordering keep every transaction once; what
    merging two sub-graphs keeps and what it loses.
  \<^item> \<open>Cds_Scheduler\<close>: \<open>chase/cds_scheduler.rs\<close> and \<open>ScheduledInfo\<close> of \<open>chase/chase_core.rs\<close>.  The theorems:
    waves, dependency chains (topological, a panic exactly on a cycle) and epochs (complete,
    conflict-free, minimal).
  \<^item> \<open>Evm_Storage\<close>: the in-memory backends (\<open>evm/evm_storage/backend/\<close>, \<open>chase-evm/src/backend/memory.rs\<close>)
    and the RocksDB store (\<open>stack/rocksdb_store.rs\<close>, \<open>stack/layered_backend.rs\<close>) under one interface
    locale for applying effects.  The theorems: reads after an apply, refinement of the in-memory
    backend by persisting and hydrating, and the modifications that one backend loses.
  \<^item> \<open>Chase_Core\<close>: \<open>chase/chase_core.rs\<close>, composed of the parts above.  Simulating a transaction in the
    EVM and the order in which a thread pool runs its jobs are parameters.  The theorems: the schedule
    of a batch is complete; validation, commit and the driver loop are right; when a round panics.
  \<^item> \<open>Delta_Cache\<close>: \<open>chase/executor/cache/\<close> and \<open>stack/rocksdb_state_store.rs\<close>.  The theorems: the cache
    is one map under every disciplined program of its operations; page splitting, key encoding and
    the overlay; how a flush overwrites committed state.
  \<^item> \<open>Pipeline_Control\<close>: \<open>chase/executor/pipeline/\<close>: stages, AIMD window controller, sequential driver,
    counters, calibration.  The theorems: bounds and exactness of the controller in every reachable
    state, termination of the driver, and its endless loop when commits fail.
  \<^item> \<open>Pipeline_Bridge\<close>: \<open>chase/executor/chase_bridge.rs\<close> and \<open>stack/adapter.rs\<close>: the three concurrent tasks
    as events.  The theorems: progress and termination, results in order, and the deadlock at the
    commit threshold.

  The EVM below the driver is the crate \<open>chase-evm\<close>; each theory builds on the ones before it.

  \<^item> \<open>Evm_Arith\<close>: arithmetic, comparison and bitwise opcodes (\<open>core/src/utils.rs\<close>, \<open>core/src/eval/\<close>).  The
    theorem: they compute the reference operations on integers for all operands.
  \<^item> \<open>Evm_Memory\<close>: operand stack, byte memory, jump map, exit reasons (\<open>core/src/\<close>).  The theorem: the jump
    map accepts exactly the \<open>JUMPDEST\<close> bytes at instruction boundaries.
  \<^item> \<open>Evm_Machine\<close>: the interpreter of the opcodes that need no handler (\<open>core/src/lib.rs\<close>,
    \<open>core/src/eval/\<close>).  The theorems: no program panics, limits hold; a load returns what was stored;
    code without jumps stops.
  \<^item> \<open>Evm_Gasometer\<close>, \<open>Evm_Gas_Props\<close>: configurations of the hard forks, cost functions and the gasometer
    (\<open>gasometer/src/\<close>, \<open>runtime/src/lib.rs\<close>).  The theorems: charging for an opcode never panics or wraps;
    the cost functions compute the EVM's prices.
  \<^item> \<open>Evm_Substate\<close>, \<open>Evm_Substate_Props\<close>: the journal of a transaction (\<open>src/executor/stack/memory.rs\<close> and
    the metadata in \<open>executor.rs\<close>), a frame and the list of its parents.  The theorems: a revert or a
    discard restores the enclosing state, a commit keeps every read, and the effects of a finished
    transaction turn the backend into the state the transaction saw.
  \<^item> \<open>Evm_Runtime\<close>: system opcodes, the step and the loop of a runtime (\<open>runtime/src/\<close>), over a record of
    the methods of the trait \<open>Handler\<close>.
  \<^item> \<open>Evm_Executor\<close>: calls, creations, clean-up, the loop over suspended runtimes, the handler and the
    transactions (\<open>src/executor/stack/executor.rs\<close>, \<open>precompile.rs\<close>).
  \<^item> \<open>Evm_Replay\<close>, \<open>Evm_Simulation\<close>: \<open>simulate_tx\<close> (\<open>chase/evm_utils.rs\<close>, \<open>evm/evm_storage/evm_storage.rs\<close>,
    \<open>evm/executor.rs\<close>).  The theorem: a simulation depends on the storage only through the read set it
    records, so its result stays right while those slots keep their values.
  \<^item> \<open>Evm_Gas_Stack\<close>: the gas of the frames of a transaction: entering and leaving a frame creates no gas.

  \<^bold>\<open>Conventions.\<close>  A Rust panic is \<^const>\<open>None\<close>.  Build features are arguments.  Where a map is only read
  by key it is a partial function, where the code iterates over it an association list.  Integer
  overflow follows the release profile (wrap-around).  The loops of the scheduler and of the drain stage
  are total functions with a measure; the L2 eviction loop has one unit of fuel more than the container
  has entries, which \<open>evict_terminates\<close> shows to be enough; the waiting loops of the sequential driver
  have fuel, for which any positive number is enough when commits succeed.  The loops of the EVM have one
  unit of fuel per step; a run that uses it up is a value of its own, apart from panics.  In the EVM the
  operations of the 256-bit integer library panic on overflow, while \<open>u64\<close> arithmetic wraps.  Keccak-256,
  the RLP encoding of an address with a nonce, and the precompiled contracts are parameters.

  \<^bold>\<open>Not modelled.\<close>  Latency measurement and benchmark variants, floating-point averages, report
  formatting and tracing; reading configuration from the environment; JSON and RLP decoding; RocksDB and
  the thread pools themselves, whose behaviour enters as parameters.  In \<open>chase-evm\<close>: tracing, the
  multi-version executor behind the feature \<open>mvcc\<close>, and calls that a precompile makes through its handle,
  which the precompile functions of the repository do not get.  The Seer predictor, a floating-point
  perceptron the driver does not call.  The consensus layer
  (\<open>src/narwhal\<close>), the Sui node, Move and their tooling, which the repository carries along, are outside
  the execution layer that this development covers.
\<close>

end
